(* ===== verification/Prelude.thy ===== *)
theory Prelude
  imports Main "HOL-Library.Word" "HOL-Library.Sublist" "HOL-Library.Monad_Syntax"
begin

text \<open>
  Shared material: Go error values, the string routines of \<open>strings\<close> and \<open>strconv\<close>
  that the program calls, decimal printing and parsing, and the \<open>codec\<close> interface, the
  contract of every print/parse pair of the development.

  A Go \<open>string\<close> is a sequence of bytes, which is what the characters of
  \<open>string\<close> are here. Go's \<open>uint\<close> and \<open>int\<close> are 64 bit wide (the Makefile
  builds with the amd64 golang image).
\<close>

type_synonym byte = "8 word"
type_synonym bytes = "byte list"
type_synonym uint = "64 word"

text \<open>
  Go error values. The code looks at an error in four ways: is it nil, is it a
  \<open>client.Error\<close> of the etcd client (and with which code), is it one of the context
  errors or a \<open>*client.ClusterError\<close>, and what does \<open>err.Error()\<close> say.
\<close>

datatype go_error =
    ErrorString string
  | EtcdError int string
  | ClusterError string
  | CtxCanceled
  | CtxDeadlineExceeded
  | OtherError string

text \<open>
  The outcome of a Go function that may panic: it returns normally, it returns a non-nil
  error, or it panics. Not returning at all is the value \<open>None\<close> of the option around it.
\<close>

datatype 'a outcome = Ok 'a | Err go_error | Panic

named_theorems go_simps \<open>evaluation of the Go library routines on symbolic arguments\<close>
named_theorems shape \<open>what every operation does to the history of external calls\<close>

subsection \<open>Characters and decimal numbers\<close>

definition is_digit :: "char \<Rightarrow> bool" where
  "is_digit c \<longleftrightarrow> 48 \<le> (of_char c :: nat) \<and> (of_char c :: nat) \<le> 57"

definition digit_val :: "char \<Rightarrow> nat" where
  "digit_val c = of_char c - 48"

definition digit_char :: "nat \<Rightarrow> char" where
  "digit_char d = char_of (48 + d)"

lemma of_digit_char: "d < 10 \<Longrightarrow> (of_char (digit_char d) :: nat) = 48 + d"
  by (simp add: digit_char_def of_char_of)

lemma is_digit_digit_char [go_simps]: "d < 10 \<Longrightarrow> is_digit (digit_char d)"
  by (simp add: is_digit_def of_digit_char)

lemma digit_val_digit_char [go_simps]: "d < 10 \<Longrightarrow> digit_val (digit_char d) = d"
  by (simp add: digit_val_def of_digit_char)

text \<open>\<open>strconv.Itoa\<close>, \<open>uitoa\<close> and \<open>%d\<close> on a number that is not negative.\<close>

fun itoa :: "nat \<Rightarrow> string" where
  "itoa n = (if n < 10 then [digit_char n] else itoa (n div 10) @ [digit_char (n mod 10)])"

declare itoa.simps [simp del]

lemma itoa_digits: "c \<in> set (itoa n) \<Longrightarrow> is_digit c"
proof (induction n rule: itoa.induct)
  case (1 n)
  then show ?case
    by (cases "n < 10") (auto simp: itoa.simps [of n] is_digit_digit_char)
qed

lemma itoa_not_Nil [simp]: "itoa n \<noteq> []"
  by (simp add: itoa.simps [of n])

lemma itoa_no_char: "\<not> is_digit c \<Longrightarrow> c \<notin> set (itoa n)"
  using itoa_digits by blast

text \<open>\<open>strconv.Itoa\<close> on any \<open>int\<close>.\<close>

definition itoa_int :: "int \<Rightarrow> string" where
  "itoa_int i = (if i < 0 then CHR ''-'' # itoa (nat (- i)) else itoa (nat i))"

subsection \<open>Parsing decimal numbers\<close>

text \<open>
  \<open>dtoi\<close> of Go's package \<open>net\<close> reads a decimal number from the front of a string:
  the number, the characters read, and whether it succeeded. It gives up when the number
  reaches \<open>big = 0xFFFFFF\<close>.
\<close>

definition big :: nat where "big = 16777215"

fun dtoi_loop :: "string \<Rightarrow> nat \<Rightarrow> nat \<Rightarrow> nat \<times> nat \<times> bool" where
  "dtoi_loop [] n i = (n, i, True)"
| "dtoi_loop (c # cs) n i =
     (if is_digit c then
        (let n' = n * 10 + digit_val c in
         if n' \<ge> big then (big, i, False) else dtoi_loop cs n' (Suc i))
      else (n, i, True))"

definition dtoi :: "string \<Rightarrow> nat \<times> nat \<times> bool" where
  "dtoi s = (case dtoi_loop s 0 0 of (n, i, ok) \<Rightarrow>
     if \<not> ok then (n, i, False) else if i = 0 then (0, 0, False) else (n, i, True))"

lemma dtoi_loop_itoa:
  assumes "n < big"
  shows "dtoi_loop (itoa n @ rest) 0 i = dtoi_loop rest n (i + length (itoa n))"
  using assms
proof (induction n arbitrary: rest i rule: itoa.induct)
  case (1 n)
  show ?case
  proof (cases "n < 10")
    case True
    with "1.prems" show ?thesis
      by (simp add: itoa.simps [of n] go_simps)
  next
    case False
    have "n div 10 < big" using "1.prems" by simp
    with False "1.IH" [of "digit_char (n mod 10) # rest" i] "1.prems" show ?thesis
      by (simp add: itoa.simps [of n] go_simps)
  qed
qed

lemma dtoi_itoa [go_simps]:
  assumes "n < big" and "rest = [] \<or> \<not> is_digit (hd rest)"
  shows "dtoi (itoa n @ rest) = (n, length (itoa n), True)"
proof -
  have "dtoi_loop (itoa n @ rest) 0 0 = (n, length (itoa n), True)"
    using assms dtoi_loop_itoa [of n rest 0] by (cases rest) simp_all
  then show ?thesis by (simp add: dtoi_def)
qed

lemma dtoi_itoa_end [go_simps]: "n < big \<Longrightarrow> dtoi (itoa n) = (n, length (itoa n), True)"
  using dtoi_itoa [of n "[]"] by simp

text \<open>
  \<open>strconv.Atoi\<close>: an optional sign, then decimal digits only, in the range of \<open>int\<close>.
\<close>

fun decimal_loop :: "string \<Rightarrow> nat \<Rightarrow> nat option" where
  "decimal_loop [] n = Some n"
| "decimal_loop (c # cs) n = (if is_digit c then decimal_loop cs (n * 10 + digit_val c) else None)"

definition atoi :: "string \<Rightarrow> int option" where
  "atoi s =
     (let neg = (s \<noteq> [] \<and> hd s = CHR ''-'');
          ds = (if s \<noteq> [] \<and> (hd s = CHR ''-'' \<or> hd s = CHR ''+'') then tl s else s)
      in if ds = [] then None
         else case decimal_loop ds 0 of
             None \<Rightarrow> None
           | Some n \<Rightarrow>
               if neg then (if int n \<le> 2 ^ 63 then Some (- int n) else None)
               else if int n < 2 ^ 63 then Some (int n) else None)"

lemma decimal_loop_itoa: "decimal_loop (itoa n @ rest) 0 = decimal_loop rest n"
proof (induction n arbitrary: rest rule: itoa.induct)
  case (1 n)
  then show ?case
    by (cases "n < 10") (simp_all add: itoa.simps [of n] go_simps)
qed

lemma hd_itoa_digit: "is_digit (hd (itoa n))"
  by (rule itoa_digits [of _ n]) simp

lemma atoi_itoa [go_simps]: "n < 2 ^ 63 \<Longrightarrow> atoi (itoa n) = Some (int n)"
proof -
  assume n: "n < 2 ^ 63"
  have "hd (itoa n) \<noteq> CHR ''-''" "hd (itoa n) \<noteq> CHR ''+''"
    using hd_itoa_digit [of n] by (auto simp: is_digit_def)
  with n decimal_loop_itoa [of n "[]"] show ?thesis
    by (simp add: atoi_def Let_def)
qed

subsection \<open>Strings\<close>

text \<open>
  \<open>strings.HasSuffix\<close>, \<open>strings.LastIndex\<close> and \<open>strings.Split\<close> (with a
  separator of one character), and the first occurrence of a byte.
\<close>

definition has_suffix :: "string \<Rightarrow> string \<Rightarrow> bool" where
  "has_suffix s suf \<longleftrightarrow> length suf \<le> length s \<and> drop (length s - length suf) s = suf"

lemma has_suffix_iff_suffix: "has_suffix s suf \<longleftrightarrow> suffix suf s"
  unfolding has_suffix_def suffix_def
  by (metis append_eq_conv_conj append_take_drop_id length_append le_add2 add_diff_cancel_right')

fun split_byte :: "string \<Rightarrow> char \<Rightarrow> (string \<times> string) option" where
  "split_byte [] c = None"
| "split_byte (x # xs) c =
     (if x = c then Some ([], xs)
      else case split_byte xs c of None \<Rightarrow> None | Some (a, b) \<Rightarrow> Some (x # a, b))"

lemma split_byte_append [go_simps]: "c \<notin> set a \<Longrightarrow> split_byte (a @ c # b) c = Some (a, b)"
  by (induction a) auto

text \<open>What follows the last occurrence of a byte, when there is one.\<close>

fun after_last :: "string \<Rightarrow> char \<Rightarrow> string option" where
  "after_last [] c = None"
| "after_last (x # xs) c =
     (case after_last xs c of Some r \<Rightarrow> Some r | None \<Rightarrow> if x = c then Some xs else None)"

lemma after_last_none: "c \<notin> set s \<Longrightarrow> after_last s c = None"
  by (induction s) auto

lemma after_last_append [go_simps]:
  "c \<notin> set b \<Longrightarrow> after_last (a @ c # b) c = Some b"
  by (induction a) (auto simp: after_last_none)

fun go_split :: "string \<Rightarrow> char \<Rightarrow> string list" where
  "go_split [] c = [[]]"
| "go_split (x # xs) c =
     (if x = c then [] # go_split xs c
      else case go_split xs c of [] \<Rightarrow> [[x]] | p # ps \<Rightarrow> (x # p) # ps)"

lemma go_split_not_Nil [simp]: "go_split s c \<noteq> []"
  by (cases s) (auto split: list.splits)

lemma go_split_no_sep: "c \<notin> set s \<Longrightarrow> go_split s c = [s]"
  by (induction s) auto

lemma go_split_append [go_simps]:
  "c \<notin> set a \<Longrightarrow> go_split (a @ c # b) c = a # go_split b c"
  by (induction a) auto

subsection \<open>Print and parse pairs\<close>

text \<open>
  The contract of a printer and the parser that reads its output back: on the values the
  program prints, parsing what was printed gives the value. What rests on it is proved
  once: printing is injective there, so distinct values have distinct texts (and so
  distinct etcd keys).
\<close>

locale codec =
  fixes enc :: "'a \<Rightarrow> 'b"
    and dec :: "'b \<Rightarrow> 'a option"
    and printable :: "'a \<Rightarrow> bool"
  assumes dec_enc: "printable x \<Longrightarrow> dec (enc x) = Some x"
begin

lemma enc_inject: "printable x \<Longrightarrow> printable y \<Longrightarrow> enc x = enc y \<longleftrightarrow> x = y"
  by (metis dec_enc option.inject)

lemma inj_on_enc: "inj_on enc {x. printable x}"
  by (auto simp: inj_on_def enc_inject)

lemma distinct_map_enc:
  "list_all printable xs \<Longrightarrow> distinct (List.map enc xs) \<longleftrightarrow> distinct xs"
  using inj_on_enc by (auto simp: distinct_map list_all_iff inj_on_def)

end

interpretation decimal: codec itoa "\<lambda>s. map_option nat (atoi s)" "\<lambda>n. n < 2 ^ 63"
  by unfold_locales (simp add: atoi_itoa)

end
