(* ===== verification/GoNet.thy ===== *)
theory GoNet
  imports Prelude
begin

text \<open>
  The parts of Go's package \<open>net\<close> (Go 1.8, the version the Makefile builds with) that the
  program calls: \<open>IP\<close> as a byte slice of length 4 or 16 (nil is the empty slice),
  \<open>IPv4\<close>, \<open>To4\<close>, \<open>Equal\<close>, \<open>Mask\<close>, \<open>String\<close>, \<open>ParseIP\<close>,
  \<open>CIDRMask\<close>, \<open>ParseCIDR\<close>, \<open>IPMask.Size\<close> and the text forms of IPv4 and IPv6
  addresses. The lemmas give the round trips of IPv4 addresses and CIDR texts.
\<close>

unbundle bit_operations_syntax

type_synonym IP = bytes
type_synonym IPMask = bytes

record IPNet =
  IPNet_IP :: IP
  IPNet_Mask :: IPMask

subsection \<open>Addresses\<close>

definition v4InV6Prefix :: bytes where
  "v4InV6Prefix = [0, 0, 0, 0, 0, 0, 0, 0, 0, 0, 255, 255]"

definition IPv4 :: "byte \<Rightarrow> byte \<Rightarrow> byte \<Rightarrow> byte \<Rightarrow> IP" where
  "IPv4 a b c d = v4InV6Prefix @ [a, b, c, d]"

definition To4 :: "IP \<Rightarrow> IP" where
  "To4 ip =
     (if length ip = 4 then ip
      else if length ip = 16 \<and> take 12 ip = v4InV6Prefix then drop 12 ip
      else [])"

definition IP_Equal :: "IP \<Rightarrow> IP \<Rightarrow> bool" where
  "IP_Equal ip x =
     (if length ip = length x then ip = x
      else if length ip = 4 \<and> length x = 16 then take 12 x = v4InV6Prefix \<and> ip = drop 12 x
      else if length ip = 16 \<and> length x = 4 then take 12 ip = v4InV6Prefix \<and> drop 12 ip = x
      else False)"

text \<open>\<open>CIDRMask ones bits\<close>: byte \<open>i\<close> holds the next eight of the leading ones.\<close>

definition mask_byte :: "nat \<Rightarrow> byte" where
  "mask_byte n = (if n \<ge> 8 then 255 else NOT (drop_bit n 255))"

definition CIDRMask :: "nat \<Rightarrow> nat \<Rightarrow> IPMask" where
  "CIDRMask ones bits =
     (if bits \<noteq> 32 \<and> bits \<noteq> 128 \<or> ones > bits then []
      else List.map (\<lambda>i. mask_byte (ones - 8 * i)) [0..<bits div 8])"

definition IP_Mask :: "IP \<Rightarrow> IPMask \<Rightarrow> IP" where
  "IP_Mask ip m =
     (let m1 = (if length m = 16 \<and> length ip = 4 \<and> list_all (\<lambda>b. b = 255) (take 12 m)
                   then drop 12 m else m);
          ip1 = (if length m1 = 4 \<and> length ip = 16 \<and> take 12 ip = v4InV6Prefix
                 then drop 12 ip else ip)
      in if length ip1 \<noteq> length m1 then [] else map2 (AND) ip1 m1)"

text \<open>
  \<open>IPMask.Size\<close>: the number of leading ones, or 0 for a mask that is not ones followed
  by zeros. Only the first result is used by the program.
\<close>

fun leading_ones :: "bool list \<Rightarrow> nat option" where
  "leading_ones [] = Some 0"
| "leading_ones (b # bs) =
     (if b then map_option Suc (leading_ones bs) else if list_all Not bs then Some 0 else None)"

definition byte_bits :: "byte \<Rightarrow> bool list" where
  "byte_bits b = List.map (bit b) [7, 6, 5, 4, 3, 2, 1, 0]"

definition Mask_Size :: "IPMask \<Rightarrow> nat" where
  "Mask_Size m = (case leading_ones (concat (List.map byte_bits m)) of None \<Rightarrow> 0 | Some n \<Rightarrow> n)"

subsection \<open>Text forms\<close>

definition hex_char :: "nat \<Rightarrow> char" where
  "hex_char d = (if d < 10 then digit_char d else char_of (87 + d))"

fun hexa :: "nat \<Rightarrow> string" where
  "hexa n = (if n < 16 then [hex_char n] else hexa (n div 16) @ [hex_char (n mod 16)])"

declare hexa.simps [simp del]

definition hexString :: "bytes \<Rightarrow> string" where
  "hexString b = concat (List.map (\<lambda>x. [hex_char (unat x div 16), hex_char (unat x mod 16)]) b)"

definition dotted :: "bytes \<Rightarrow> string" where
  "dotted b = itoa (unat (b ! 0)) @ ''.'' @ itoa (unat (b ! 1)) @ ''.''
              @ itoa (unat (b ! 2)) @ ''.'' @ itoa (unat (b ! 3))"

text \<open>
  The eight 16-bit groups of an IPv6 address, the first of the longest runs of zero groups
  (\<open>e0\<close>, \<open>e1\<close> of the code, counted in groups), and the text with that run
  written \<open>::\<close> when it is longer than one group.
\<close>

definition groups6 :: "bytes \<Rightarrow> nat list" where
  "groups6 b = List.map (\<lambda>i. 256 * unat (b ! (2 * i)) + unat (b ! (2 * i + 1))) [0..<8]"

fun longest_run :: "nat list \<Rightarrow> nat \<Rightarrow> nat \<times> nat \<Rightarrow> nat \<times> nat" where
  "longest_run [] i best = best"
| "longest_run (g # gs) i best =
     (let n = length (takeWhile (\<lambda>x. x = 0) (g # gs))
      in longest_run gs (Suc i) (if n > snd best then (i, n) else best))"

fun join_colon :: "string list \<Rightarrow> string" where
  "join_colon [] = []"
| "join_colon [s] = s"
| "join_colon (s # ss) = s @ '':'' @ join_colon ss"

definition ipv6_text :: "bytes \<Rightarrow> string" where
  "ipv6_text b =
     (let gs = groups6 b; (e0, n) = longest_run gs 0 (0, 0)
      in if n < 2 then join_colon (List.map hexa gs)
         else join_colon (List.map hexa (take e0 gs)) @ ''::''
              @ join_colon (List.map hexa (drop (e0 + n) gs)))"

definition IP_String :: "IP \<Rightarrow> string" where
  "IP_String ip =
     (if ip = [] then ''<nil>''
      else if length (To4 ip) = 4 then dotted (To4 ip)
      else if length ip \<noteq> 16 then ''?'' @ hexString ip
      else ipv6_text ip)"

definition Mask_String :: "IPMask \<Rightarrow> string" where
  "Mask_String m = (if m = [] then ''<nil>'' else hexString m)"

subsection \<open>Parsing\<close>

text \<open>
  \<open>parseIPv4\<close>: four decimal octets with dots between them and nothing after them;
  \<open>parse_octets k s p\<close> reads the \<open>k\<close> octets that are left, \<open>p\<close> those read.
\<close>

fun parse_octets :: "nat \<Rightarrow> string \<Rightarrow> bytes \<Rightarrow> bytes option" where
  "parse_octets 0 s p = (if s = [] then Some p else None)"
| "parse_octets (Suc k) s p =
     (if s = [] then None
      else if p \<noteq> [] \<and> hd s \<noteq> CHR ''.'' then None
      else
        (let s1 = (if p = [] then s else tl s) in
         case dtoi s1 of (n, c, ok) \<Rightarrow>
           if \<not> ok \<or> n > 255 then None
           else parse_octets k (drop c s1) (p @ [of_nat n])))"

definition parseIPv4 :: "string \<Rightarrow> IP" where
  "parseIPv4 s = (case parse_octets 4 s [] of None \<Rightarrow> [] | Some p \<Rightarrow> v4InV6Prefix @ p)"

definition hex_val :: "char \<Rightarrow> nat option" where
  "hex_val c =
     (let n = (of_char c :: nat)
      in if is_digit c then Some (n - 48)
         else if 97 \<le> n \<and> n \<le> 102 then Some (n - 87)
         else if 65 \<le> n \<and> n \<le> 70 then Some (n - 55)
         else None)"

fun xtoi_loop :: "string \<Rightarrow> nat \<Rightarrow> nat \<Rightarrow> nat \<times> nat \<times> bool" where
  "xtoi_loop [] n i = (n, i, True)"
| "xtoi_loop (c # cs) n i =
     (case hex_val c of
        None \<Rightarrow> (n, i, True)
      | Some d \<Rightarrow>
          (let n' = n * 16 + d in
           if n' \<ge> big then (0, i, False) else xtoi_loop cs n' (Suc i)))"

definition xtoi :: "string \<Rightarrow> nat \<times> nat \<times> bool" where
  "xtoi s = (case xtoi_loop s 0 0 of (n, i, ok) \<Rightarrow>
     if \<not> ok then (0, i, False) else if i = 0 then (0, i, False) else (n, i, True))"

text \<open>
  The loop of \<open>parseIPv6\<close>: \<open>k\<close> groups may still follow, \<open>acc\<close> are the bytes
  read, \<open>el\<close> is where the ellipsis stood.
\<close>

fun parse_groups :: "nat \<Rightarrow> string \<Rightarrow> bytes \<Rightarrow> nat option \<Rightarrow> (string \<times> bytes \<times> nat option) option" where
  "parse_groups 0 s acc el = Some (s, acc, el)"
| "parse_groups (Suc k) s acc el =
     (case xtoi s of (n, c, ok) \<Rightarrow>
        if \<not> ok \<or> n > 65535 then None
        else if c < length s \<and> s ! c = CHR ''.'' then
          (if el = None \<and> length acc \<noteq> 12 then None
           else if length acc + 4 > 16 then None
           else if parseIPv4 s = [] then None
           else Some ([], acc @ drop 12 (parseIPv4 s), el))
        else
          (let acc' = acc @ [of_nat (n div 256), of_nat n]; s1 = drop c s in
           if s1 = [] then Some (s1, acc', el)
           else if hd s1 \<noteq> CHR '':'' \<or> length s1 = 1 then None
           else
             (let s2 = tl s1 in
              if hd s2 = CHR '':'' then
                (if el \<noteq> None then None
                 else if tl s2 = [] then Some (tl s2, acc', Some (length acc'))
                 else parse_groups k (tl s2) acc' (Some (length acc')))
              else parse_groups k s2 acc' el)))"

definition parseIPv6 :: "string \<Rightarrow> IP" where
  "parseIPv6 s =
     (let (el, s1) = (if take 2 s = ''::'' then (Some 0, drop 2 s) else (None, s)) in
      if el \<noteq> None \<and> s1 = [] then replicate 16 0
      else
        (case parse_groups 8 s1 [] el of
           None \<Rightarrow> []
         | Some (rest, acc, el') \<Rightarrow>
             if rest \<noteq> [] then []
             else if length acc < 16 then
               (case el' of
                  None \<Rightarrow> []
                | Some e \<Rightarrow> take e acc @ replicate (16 - length acc) 0 @ drop e acc)
             else if el' \<noteq> None then [] else acc))"

fun ParseIP :: "string \<Rightarrow> IP" where
  "ParseIP s =
     (case filter (\<lambda>c. c = CHR ''.'' \<or> c = CHR '':'') s of
        [] \<Rightarrow> []
      | c # _ \<Rightarrow> if c = CHR ''.'' then parseIPv4 s else parseIPv6 s)"

definition ParseCIDR :: "string \<Rightarrow> go_error + IP \<times> IPNet" where
  "ParseCIDR s =
     (let bad = Inl (OtherError (''invalid CIDR address: '' @ s)) in
      case split_byte s (CHR ''/'') of
        None \<Rightarrow> bad
      | Some (addr, msk) \<Rightarrow>
          (let v4 = parseIPv4 addr;
               iplen = (if v4 \<noteq> [] then 4 else 16 :: nat);
               ip = (if v4 \<noteq> [] then v4 else parseIPv6 addr)
           in case dtoi msk of (n, i, ok) \<Rightarrow>
             if ip = [] \<or> \<not> ok \<or> i \<noteq> length msk \<or> n > 8 * iplen then bad
             else
               (let m = CIDRMask n (8 * iplen)
                in Inr (ip, \<lparr>IPNet_IP = IP_Mask ip m, IPNet_Mask = m\<rparr>))))"


subsection \<open>IPv4 addresses and CIDR texts are read back as they were printed\<close>

lemma length_v4InV6Prefix [simp]: "length v4InV6Prefix = 12"
  by (simp add: v4InV6Prefix_def)

lemma length_IPv4 [simp]: "length (IPv4 a b c d) = 16"
  by (simp add: IPv4_def)

lemma To4_IPv4 [go_simps]: "To4 (IPv4 a b c d) = [a, b, c, d]"
  by (simp add: To4_def IPv4_def)

lemma length_4_conv: "length b = 4 \<longleftrightarrow> (\<exists>w x y z. b = [w, x, y, z])"
  by (auto simp: length_Suc_conv eval_nat_numeral)

lemma To4_prefixed [go_simps]: "length b = 4 \<Longrightarrow> To4 (v4InV6Prefix @ b) = b"
  by (simp add: To4_def)

lemma To4_short [go_simps]: "length b = 4 \<Longrightarrow> To4 b = b"
  by (simp add: To4_def)

lemma IP_String_v4 [go_simps]: "length b = 4 \<Longrightarrow> IP_String b = dotted b"
  by (auto simp: IP_String_def go_simps)

lemma IP_String_prefixed [go_simps]: "length b = 4 \<Longrightarrow> IP_String (v4InV6Prefix @ b) = dotted b"
  by (auto simp: IP_String_def To4_prefixed)

lemma byte_less_256: "unat (b :: byte) < 256"
  using unsigned_less [of b, where 'a = nat] by simp

lemma byte_small [go_simps]: "unat (b :: byte) < big" "\<not> 255 < unat (b :: byte)"
  using byte_less_256 [of b] by (simp_all add: big_def)

lemma dot_not_digit [go_simps]: "\<not> is_digit (CHR ''.'')" "\<not> is_digit (CHR ''/'')"
  by (simp_all add: is_digit_def)

lemma dotted_chars: "c \<in> set (dotted b) \<Longrightarrow> is_digit c \<or> c = CHR ''.''"
  by (auto simp: dotted_def dest: itoa_digits)

lemma dotted_not_Nil [simp]: "dotted b \<noteq> []"
  by (simp add: dotted_def)

lemma slash_notin_dotted: "CHR ''/'' \<notin> set (dotted b)"
  using dotted_chars dot_not_digit by fastforce

lemma slash_notin_itoa: "CHR ''/'' \<notin> set (itoa n)"
  by (simp add: itoa_no_char go_simps)

lemma parse_octets_dotted: "length b = 4 \<Longrightarrow> parse_octets 4 (dotted b) [] = Some b"
proof -
  assume "length b = 4"
  then obtain w x y z where b: "b = [w, x, y, z]" by (auto simp: length_4_conv)
  have "parse_octets (Suc (Suc (Suc (Suc 0)))) (dotted b) [] = Some b"
    by (simp add: b dotted_def go_simps Let_def)
  then show ?thesis by (simp only: numeral_nat)
qed

lemma parseIPv4_dotted [go_simps]: "length b = 4 \<Longrightarrow> parseIPv4 (dotted b) = v4InV6Prefix @ b"
  by (simp add: parseIPv4_def parse_octets_dotted)

subsection \<open>Addresses as numbers\<close>

text \<open>The number a four-byte address stands for.\<close>

definition val4 :: "bytes \<Rightarrow> nat" where
  "val4 b = unat (b ! 0) * 2 ^ 24 + unat (b ! 1) * 2 ^ 16 + unat (b ! 2) * 2 ^ 8 + unat (b ! 3)"

definition bytes4 :: "nat \<Rightarrow> bytes" where
  "bytes4 n = [of_nat (n div 2 ^ 24), of_nat (n div 2 ^ 16), of_nat (n div 2 ^ 8), of_nat n]"

lemma unat_of_nat_byte: "unat (of_nat n :: byte) = n mod 256"
  by (simp add: unat_of_nat take_bit_eq_mod)

lemma length_bytes4 [simp]: "length (bytes4 n) = 4"
  by (simp add: bytes4_def)


lemma horner_div: "(y :: nat) < 256 \<Longrightarrow> (x * 256 + y) div 256 = x"
  by simp

lemma val4_horner:
  "val4 b = ((unat (b ! 0) * 256 + unat (b ! 1)) * 256 + unat (b ! 2)) * 256 + unat (b ! 3)"
  by (simp add: val4_def algebra_simps)

lemma bytes4_horner:
  "bytes4 n = [of_nat (n div 256 div 256 div 256), of_nat (n div 256 div 256), of_nat (n div 256), of_nat n]"
  by (simp add: bytes4_def div_mult2_eq [symmetric])

lemma mod_256: "(n :: nat) mod (256 * k) = 256 * (n div 256 mod k) + n mod 256"
  by (rule mod_mult2_eq)

lemma val4_bytes4: "val4 (bytes4 n) = n mod 2 ^ 32"
proof -
  have "n mod 2 ^ 32 = n mod (256 * (256 * (256 * 256)))" by simp
  also have "\<dots> = ((n div 256 div 256 div 256 mod 256 * 256 + n div 256 div 256 mod 256) * 256
       + n div 256 mod 256) * 256 + n mod 256"
    by (simp only: mod_256) (simp only: algebra_simps)
  finally show ?thesis
    by (simp add: val4_horner bytes4_horner unat_of_nat_byte)
qed

lemma of_nat_byte_eqI: "k mod 256 = unat v \<Longrightarrow> (of_nat k :: byte) = v"
  by (metis unat_of_nat_byte word_unat_eq_iff)

lemma val4_Cons:
  "val4 [w, x, y, z] = ((unat w * 256 + unat x) * 256 + unat y) * 256 + unat z"
  by (simp add: val4_horner)

lemma bytes4_val4: "length b = 4 \<Longrightarrow> bytes4 (val4 b) = b"
proof -
  assume "length b = 4"
  then obtain w x y z where b: "b = [w, x, y, z]" by (auto simp: length_4_conv)
  have "of_nat (val4 b div 256 div 256 div 256) = w" "of_nat (val4 b div 256 div 256) = x"
    "of_nat (val4 b div 256) = y" "of_nat (val4 b) = z"
    by (rule of_nat_byte_eqI,
        simp only: b val4_Cons horner_div byte_less_256 mod_mult_self3 mod_less)+
  then show ?thesis
    by (simp only: b bytes4_horner)
qed

lemma val4_less: "length b = 4 \<Longrightarrow> val4 b < 2 ^ 32"
  by (metis bytes4_val4 val4_bytes4 mod_less_divisor zero_less_numeral zero_less_power)

lemma val4_inject: "length a = 4 \<Longrightarrow> length b = 4 \<Longrightarrow> val4 a = val4 b \<longleftrightarrow> a = b"
  by (metis bytes4_val4)


subsection \<open>Network masks\<close>

lemma unat_take_bit: "unat (take_bit j (b :: 'a::len word)) = unat b mod 2 ^ j"
  by (simp only: unsigned_take_bit_eq) (simp only: take_bit_eq_mod)

lemma and_not_mask_word: "(b :: 'a::len word) AND NOT (mask j) = b - take_bit j b"
proof -
  have "b AND NOT (mask j) = push_bit j (drop_bit j b)"
    by (rule bit_word_eqI) (auto simp: bit_simps)
  also have "\<dots> = b - take_bit j b"
    using bits_ident [of j b] by (simp add: algebra_simps)
  finally show ?thesis .
qed

lemma unat_and_not_mask: "unat ((b :: 'a::len word) AND NOT (mask j)) = unat b - unat b mod 2 ^ j"
proof -
  have "take_bit j b \<le> b"
    by (simp add: word_le_nat_alt unat_take_bit)
  then show ?thesis
    by (simp add: and_not_mask_word unat_sub unat_take_bit)
qed

lemma mask_byte_eq: "mask_byte n = NOT (mask (8 - n))"
proof -
  have "drop_bit n (255 :: byte) = mask (8 - n)"
  proof -
    have "drop_bit n (mask 8 :: byte) = mask (8 - n)"
      by (rule bit_word_eqI) (auto simp: bit_simps)
    then show ?thesis by (simp add: mask_numeral)
  qed
  then show ?thesis by (simp add: mask_byte_def)
qed

lemma unat_and_mask_byte: "unat (b AND mask_byte n) = unat b - unat b mod 2 ^ (8 - n)"
  by (simp add: mask_byte_eq unat_and_not_mask)

lemma CIDRMask_32: "n \<le> 32 \<Longrightarrow>
  CIDRMask n 32 = [mask_byte n, mask_byte (n - 8), mask_byte (n - 16), mask_byte (n - 24)]"
  by (simp add: CIDRMask_def upt_rec)

text \<open>
  \<open>clear k n\<close> is \<open>n\<close> with its last \<open>k\<close> bits cleared; on a number written in
  base 256 it clears the last digit, or drops it and goes on with the rest.
\<close>

definition clear :: "nat \<Rightarrow> nat \<Rightarrow> nat" where
  "clear k n = n - n mod 2 ^ k"

lemma clear_0 [simp]: "clear 0 n = n"
  by (simp add: clear_def)

lemma clear_8_byte: "n < 256 \<Longrightarrow> 8 \<le> k \<Longrightarrow> clear k n = 0"
proof -
  assume "n < 256" "8 \<le> k"
  moreover have "(2::nat) ^ 8 \<le> 2 ^ k" using \<open>8 \<le> k\<close> by (rule power_increasing) simp
  ultimately show ?thesis by (simp add: clear_def)
qed

lemma clear_digit: "k \<le> 8 \<Longrightarrow> clear k (x * 256 + y) = x * 256 + clear k y"
proof -
  assume "k \<le> 8"
  then have "(2::nat) ^ k dvd 2 ^ 8" by (rule le_imp_power_dvd)
  then have "x * 256 mod 2 ^ k = 0"
    by (simp add: dvd_mult)
  then have "(x * 256 + y) mod 2 ^ k = y mod 2 ^ k"
    by (metis add_0 mod_add_left_eq)
  then show ?thesis by (simp add: clear_def)
qed

lemma clear_shift: "8 \<le> k \<Longrightarrow> y < 256 \<Longrightarrow> clear k (x * 256 + y) = clear (k - 8) x * 256"
proof -
  assume k: "8 \<le> k" and y: "y < 256"
  have "(2::nat) ^ k = 256 * 2 ^ (k - 8)"
    using k power_add [of "2::nat" 8 "k - 8"] by simp
  then have "(x * 256 + y) mod 2 ^ k = 256 * (x mod 2 ^ (k - 8)) + y"
    using y by (simp add: mod_256 horner_div)
  then show ?thesis by (simp add: clear_def algebra_simps)
qed

lemma unat_masked_byte: "unat (b AND mask_byte n) = clear (8 - n) (unat b)"
  by (simp add: clear_def unat_and_mask_byte)

text \<open>Masking with the first \<open>n\<close> ones keeps the network part of the address.\<close>

lemma val4_masked:
  assumes "length b = 4" and "n \<le> 32"
  shows "val4 (map2 (AND) b (CIDRMask n 32)) = clear (32 - n) (val4 b)"
proof -
  from assms(1) obtain w x y z where b: "b = [w, x, y, z]" by (auto simp: length_4_conv)
  have bl: "unat w < 256" "unat x < 256" "unat y < 256" "unat z < 256"
    by (rule byte_less_256)+
  have "map2 (AND) b (CIDRMask n 32) = [w AND mask_byte n, x AND mask_byte (n - 8),
      y AND mask_byte (n - 16), z AND mask_byte (n - 24)]"
    using assms(2) by (simp add: b CIDRMask_32)
  then have "val4 (map2 (AND) b (CIDRMask n 32)) =
      ((clear (8 - n) (unat w) * 256 + clear (8 - (n - 8)) (unat x)) * 256
        + clear (8 - (n - 16)) (unat y)) * 256 + clear (8 - (n - 24)) (unat z)"
    by (simp only: val4_Cons unat_masked_byte)
  also have "\<dots> = clear (32 - n) (((unat w * 256 + unat x) * 256 + unat y) * 256 + unat z)"
  proof -
    consider "24 \<le> n" | "16 \<le> n" "n < 24" | "8 \<le> n" "n < 16" | "n < 8" by linarith
    then show ?thesis
    proof cases
      case 1 with bl assms(2) show ?thesis by (simp only: clear_digit clear_8_byte) simp
    next
      case 2
      then have "8 \<le> 32 - n" "32 - n - 8 \<le> 8" "32 - n - 8 = 8 - (n - 16)" "8 \<le> 8 - (n - 24)"
        by auto
      with 2 bl show ?thesis
        by (simp only: clear_shift clear_digit clear_8_byte) simp
    next
      case 3
      then have "8 \<le> 32 - n" "8 \<le> 32 - n - 8" "32 - n - 8 - 8 \<le> 8"
        "32 - n - 8 - 8 = 8 - (n - 8)" "8 \<le> 8 - (n - 16)" "8 \<le> 8 - (n - 24)"
        by auto
      with 3 bl show ?thesis
        by (simp only: clear_shift clear_digit clear_8_byte) simp
    next
      case 4
      then have "8 \<le> 32 - n" "8 \<le> 32 - n - 8" "8 \<le> 32 - n - 8 - 8"
        "32 - n - 8 - 8 - 8 = 8 - n" "8 \<le> 8 - (n - 8)" "8 \<le> 8 - (n - 16)" "8 \<le> 8 - (n - 24)"
        by auto
      with 4 bl show ?thesis
        by (simp only: clear_shift clear_digit clear_8_byte) simp
    qed
  qed
  finally show ?thesis by (simp only: b val4_Cons)
qed


lemma length_masked: "length b = 4 \<Longrightarrow> n \<le> 32 \<Longrightarrow> length (map2 (AND) b (CIDRMask n 32)) = 4"
  by (simp add: CIDRMask_32)

lemma masked_eq_iff:
  assumes "length b = 4" and "n \<le> 32"
  shows "map2 (AND) b (CIDRMask n 32) = b \<longleftrightarrow> 2 ^ (32 - n) dvd val4 b"
proof -
  have "map2 (AND) b (CIDRMask n 32) = b \<longleftrightarrow> clear (32 - n) (val4 b) = val4 b"
    using val4_inject [OF length_masked [OF assms] assms(1)] by (simp add: val4_masked assms)
  also have "\<dots> \<longleftrightarrow> val4 b mod 2 ^ (32 - n) = 0"
    by (auto simp: clear_def) (metis diff_is_0_eq' diff_diff_cancel diff_self_eq_0 mod_less_eq_dividend)
  finally show ?thesis by (simp add: dvd_eq_mod_eq_0)
qed

lemma masked_bytes4:
  "length b = 4 \<Longrightarrow> n \<le> 32 \<Longrightarrow> map2 (AND) b (CIDRMask n 32) = bytes4 (clear (32 - n) (val4 b))"
  by (metis bytes4_val4 length_masked val4_masked)

lemma Mask_Size_CIDRMask [go_simps]: "n \<le> 32 \<Longrightarrow> Mask_Size (CIDRMask n 32) = n"
proof -
  assume "n \<le> 32"
  have "list_all (\<lambda>n. Mask_Size (CIDRMask n 32) = n) [0..<33]"
    by code_simp
  with \<open>n \<le> 32\<close> show ?thesis by (simp add: list_all_iff)
qed

subsection \<open>CIDR texts\<close>

definition cidr_text :: "bytes \<Rightarrow> nat \<Rightarrow> string" where
  "cidr_text b n = dotted b @ ''/'' @ itoa n"

definition v4_net :: "bytes \<Rightarrow> nat \<Rightarrow> IPNet" where
  "v4_net b n = \<lparr>IPNet_IP = map2 (AND) b (CIDRMask n 32), IPNet_Mask = CIDRMask n 32\<rparr>"

lemma IP_Mask_v4:
  "length b = 4 \<Longrightarrow> n \<le> 32 \<Longrightarrow>
   IP_Mask (v4InV6Prefix @ b) (CIDRMask n 32) = map2 (AND) b (CIDRMask n 32)"
  by (simp add: IP_Mask_def CIDRMask_32)

lemma ParseCIDR_text [go_simps]:
  assumes "length b = 4" and "n \<le> 32"
  shows "ParseCIDR (cidr_text b n) = Inr (v4InV6Prefix @ b, v4_net b n)"
proof -
  have "split_byte (cidr_text b n) (CHR ''/'') = Some (dotted b, itoa n)"
    by (simp add: cidr_text_def split_byte_append slash_notin_dotted)
  moreover have "n < big" using assms(2) by (simp add: big_def)
  moreover have "v4InV6Prefix @ b \<noteq> []" by (simp add: v4InV6Prefix_def)
  ultimately show ?thesis
    using assms by (simp add: ParseCIDR_def parseIPv4_dotted dtoi_itoa_end IP_Mask_v4 v4_net_def Let_def)
qed

lemma ParseIP_dotted [go_simps]: "length b = 4 \<Longrightarrow> ParseIP (dotted b) = v4InV6Prefix @ b"
proof -
  assume b: "length b = 4"
  have "CHR '':'' \<notin> set (dotted b)"
    using dotted_chars [of "CHR '':''" b] by (auto simp: is_digit_def)
  moreover have "CHR ''.'' \<in> set (dotted b)" by (simp add: dotted_def)
  ultimately have "filter (\<lambda>c. c = CHR ''.'' \<or> c = CHR '':'') (dotted b) \<noteq> []"
    and "\<forall>c \<in> set (filter (\<lambda>c. c = CHR ''.'' \<or> c = CHR '':'') (dotted b)). c = CHR ''.''"
    by (auto simp: filter_empty_conv)
  with b show ?thesis by (cases "filter (\<lambda>c. c = CHR ''.'' \<or> c = CHR '':'') (dotted b)") (simp_all add: parseIPv4_dotted)
qed

lemma IP_Equal_v4 [go_simps]:
  "length b = 4 \<Longrightarrow> length c = 4 \<Longrightarrow> IP_Equal (v4InV6Prefix @ b) c \<longleftrightarrow> b = c"
  by (simp add: IP_Equal_def)

interpretation ipv4: codec dotted
  "\<lambda>s. if parseIPv4 s = [] then None else Some (drop 12 (parseIPv4 s))" "\<lambda>b. length b = 4"
  by unfold_locales (simp add: parseIPv4_dotted v4InV6Prefix_def)

interpretation cidr: codec "\<lambda>(b, n). cidr_text b n"
  "\<lambda>s. case ParseCIDR s of Inl _ \<Rightarrow> None | Inr (ip, net) \<Rightarrow> Some (To4 ip, Mask_Size (IPNet_Mask net))"
  "\<lambda>(b, n). length b = 4 \<and> n \<le> 32"
  by unfold_locales (auto simp: ParseCIDR_text To4_prefixed v4_net_def Mask_Size_CIDRMask)

end
