(* ===== verification/MidoTypes.thy ===== *)
theory MidoTypes
  imports GoNet
begin

text \<open>
  The data of the vendored MidoNet client package
  (\<open>vendor/github.com/barnettzqg/golang-midonetclient/types/config.go\<close>) and the identifiers
  it is built on (\<open>vendor/github.com/twinj/uuid\<close>). A Go pointer to a UUID that may be nil is
  an option. The records hold the fields the program sets or reads; the others keep their
  zero values throughout, and are left out.
\<close>

subsection \<open>Identifiers\<close>

text \<open>An identifier is the 16 bytes of a \<open>uuid.Uuid\<close>.\<close>

type_synonym UUID = bytes

definition hex2 :: "byte \<Rightarrow> string" where
  "hex2 b = [hex_char (unat b div 16), hex_char (unat b mod 16)]"

definition hexes :: "bytes \<Rightarrow> string" where
  "hexes bs = concat (List.map hex2 bs)"

text \<open>\<open>Uuid.String\<close>: groups of 4, 2, 2, 2 and 6 bytes in hexadecimal, with hyphens.\<close>

definition UUID_String :: "UUID \<Rightarrow> string" where
  "UUID_String u =
     hexes (take 4 u) @ ''-'' @ hexes (take 2 (drop 4 u)) @ ''-'' @ hexes (take 2 (drop 6 u))
     @ ''-'' @ hexes (take 2 (drop 8 u)) @ ''-'' @ hexes (take 6 (drop 10 u))"

text \<open>
  \<open>uuid.Parse\<close> matches the text against \<open>hexPattern\<close>: an optional \<open>urn:uuid:\<close>, an
  optional opening bracket, five groups of 8, 4, 4, 4, 12 hexadecimal digits with optional
  hyphens, the third group starting with a digit from 1 to 5, and an optional closing
  bracket.
\<close>

fun take_hex :: "nat \<Rightarrow> string \<Rightarrow> (nat list \<times> string) option" where
  "take_hex 0 s = Some ([], s)"
| "take_hex (Suc n) [] = None"
| "take_hex (Suc n) (c # s) =
     (case hex_val c of
        None \<Rightarrow> None
      | Some d \<Rightarrow> (case take_hex n s of None \<Rightarrow> None | Some (ds, r) \<Rightarrow> Some (d # ds, r)))"

fun bytes_of_hex :: "nat list \<Rightarrow> bytes" where
  "bytes_of_hex (a # b # r) = of_nat (16 * a + b) # bytes_of_hex r"
| "bytes_of_hex _ = []"

definition skip_char :: "char set \<Rightarrow> string \<Rightarrow> string" where
  "skip_char cs s = (case s of c # r \<Rightarrow> if c \<in> cs then r else s | [] \<Rightarrow> [])"

definition skip_prefix :: "string \<Rightarrow> string \<Rightarrow> string" where
  "skip_prefix p s = (if take (length p) s = p then drop (length p) s else s)"

definition uuid_Parse :: "string \<Rightarrow> UUID option" where
  "uuid_Parse s0 = do {
     let s = skip_char {CHR ''{'', CHR ''('', CHR ''[''} (skip_prefix ''urn:uuid:'' s0);
     (a, s) \<leftarrow> take_hex 8 s;
     (b, s) \<leftarrow> take_hex 4 (skip_char {CHR ''-''} s);
     (c, s) \<leftarrow> take_hex 4 (skip_char {CHR ''-''} s);
     (d, s) \<leftarrow> take_hex 4 (skip_char {CHR ''-''} s);
     (e, s) \<leftarrow> take_hex 12 (skip_char {CHR ''-''} s);
     (if 1 \<le> hd c \<and> hd c \<le> 5 \<and> skip_char {CHR '']'', CHR ''}'', CHR '')''} s = []
      then Some (bytes_of_hex (a @ b @ c @ d @ e)) else None)
   }"

definition is_space :: "char \<Rightarrow> bool" where
  "is_space c \<longleftrightarrow> (of_char c :: nat) \<in> {9, 10, 11, 12, 13, 32}"

definition TrimSpace :: "string \<Rightarrow> string" where
  "TrimSpace s = rev (dropWhile is_space (rev (dropWhile is_space s)))"

definition String2UUID :: "string \<Rightarrow> go_error + UUID" where
  "String2UUID data =
     (case uuid_Parse (TrimSpace data) of
        None \<Rightarrow> Inl (ErrorString ''uuid.Parse: invalid string format this is probably not a UUID'')
      | Some u \<Rightarrow> Inr u)"

text \<open>The version-4 UUID made of 16 random bytes (\<open>NewV4\<close>, \<open>setRFC4122Version\<close>).\<close>

definition version4 :: "bytes \<Rightarrow> UUID" where
  "version4 r =
     (let o16 = take 16 (r @ replicate 16 0);
          o1 = o16[6 := (o16 ! 6 AND 15) OR 64]
      in o1[8 := (o1 ! 8 AND 63) OR 128])"

subsection \<open>Structures\<close>

record Tenant =
  tn_Name :: string
  tn_Enabled :: bool
  tn_ID :: string
  tn_Description :: string

record Bridge =
  br_Name :: string
  br_TenantID :: string
  br_ID :: "UUID option"

record Chain =
  ch_ID :: "UUID option"
  ch_Name :: string
  ch_TenantID :: string

record Route =
  rt_ID :: "UUID option"
  rt_DstNetworkAddr :: string
  rt_DstNetworkLength :: int
  rt_NextHopGateway :: string
  rt_NextHopPort :: "UUID option"
  rt_SrcNetworkAddr :: string
  rt_SrcNetworkLength :: int
  rt_Type :: string
  rt_RouterID :: "UUID option"

record Router =
  ro_ID :: "UUID option"
  ro_InboundFilterID :: "UUID option"
  ro_OutboundFilterID :: "UUID option"
  ro_Name :: string
  ro_TenantID :: string

record NatTarget =
  nt_AddressTo :: string
  nt_AddressFrom :: string
  nt_PortTo :: int
  nt_PortFrom :: int

record Rule =
  ru_ID :: "UUID option"
  ru_Type :: string
  ru_CondInvert :: bool
  ru_FlowAction :: string
  ru_FragmentPolicy :: string
  ru_InPorts :: "UUID option list"
  ru_InvInPorts :: bool
  ru_InvNwProto :: bool
  ru_InvOutPorts :: bool
  ru_MatchForwardFlow :: bool
  ru_MatchReturnFlow :: bool
  ru_NoVlan :: bool
  ru_OutPorts :: "UUID option list"
  ru_Position :: int
  ru_ChainID :: "UUID option"
  ru_NatTargets :: "NatTarget list"

text \<open>The embedded \<open>Port\<close> is a record of its own that the two kinds of port extend.\<close>

record Port =
  po_ID :: "UUID option"
  po_Type :: string
  po_DeviceID :: "UUID option"
  po_PeerID :: "UUID option"

record BridgePort = Port +
  bp_VlanID :: "UUID option"

record RouterPort = Port +
  rp_NetworkAddress :: string
  rp_NetworkLength :: int
  rp_PortAddress :: string

record HostInterfacePort =
  hp_HostID :: "UUID option"
  hp_InterfaceName :: string
  hp_PortID :: "UUID option"

record PortLink =
  pl_PortID :: "UUID option"
  pl_PeerID :: "UUID option"

record MidoNetAPIConf =
  mc_URL :: "string list"
  mc_UserName :: string
  mc_PassWord :: string
  mc_ProjectID :: string
  mc_ProviderRouterID :: string
  mc_Version :: int

subsection \<open>Identifiers are read back as they were printed\<close>

lemma hex_val_hex_char: "d < 16 \<Longrightarrow> hex_val (hex_char d) = Some d"
  by (cases "d < 10") (auto simp: hex_val_def hex_char_def is_digit_def of_digit_char of_char_of)

fun nibbles :: "bytes \<Rightarrow> nat list" where
  "nibbles [] = []"
| "nibbles (b # bs) = unat b div 16 # unat b mod 16 # nibbles bs"

lemma nibble_lt: "unat (b :: byte) div 16 < 16"
  using byte_less_256 [of b] by auto

lemma take_hex_hexes: "take_hex (2 * length bs) (hexes bs @ r) = Some (nibbles bs, r)"
  by (induction bs) (simp_all add: hexes_def hex2_def hex_val_hex_char nibble_lt)

lemma bytes_of_hex_nibbles: "bytes_of_hex (nibbles bs) = bs"
  by (induction bs) simp_all

lemma nibbles_append: "nibbles (a @ b) = nibbles a @ nibbles b"
  by (induction a) simp_all

lemma hexes_chars: "c \<in> set (hexes bs) \<Longrightarrow> hex_val c \<noteq> None"
  by (auto simp: hexes_def hex2_def hex_val_hex_char nibble_lt)

lemma hexes_not_Nil: "bs \<noteq> [] \<Longrightarrow> hexes bs \<noteq> [] \<and> hex_val (hd (hexes bs)) \<noteq> None"
  by (cases bs) (auto simp: hexes_def hex2_def hex_val_hex_char nibble_lt)

lemma skip_char_hex: "bs \<noteq> [] \<Longrightarrow> \<forall>c \<in> cs. hex_val c = None \<Longrightarrow> skip_char cs (hexes bs @ r) = hexes bs @ r"
  using hexes_not_Nil [of bs] by (cases "hexes bs") (auto simp: skip_char_def)

lemma not_hex: "hex_val CHR ''-'' = None" "hex_val CHR ''{'' = None" "hex_val CHR ''('' = None"
  "hex_val CHR ''['' = None" "hex_val CHR ''u'' = None"
  by (simp_all add: hex_val_def is_digit_def)

lemma skip_char_simps: "skip_char cs [] = []" "skip_char cs (c # r) = (if c \<in> cs then r else c # r)"
  by (simp_all add: skip_char_def)

lemma skip_urn_hex: "bs \<noteq> [] \<Longrightarrow> skip_prefix ''urn:uuid:'' (hexes bs @ r) = hexes bs @ r"
  using hexes_not_Nil [of bs] not_hex(5) by (cases "hexes bs") (auto simp: skip_prefix_def)

text \<open>The identifiers \<open>uuid.Parse\<close> can give: 16 bytes, with a version from 1 to 5.\<close>

definition valid_uuid :: "UUID \<Rightarrow> bool" where
  "valid_uuid u \<longleftrightarrow> length u = 16 \<and> 1 \<le> unat (u ! 6) div 16 \<and> unat (u ! 6) div 16 \<le> 5"

lemma uuid_Parse_String:
  assumes "valid_uuid u"
  shows "uuid_Parse (UUID_String u) = Some u"
proof -
  have l: "length u = 16" using assms by (simp add: valid_uuid_def)
  define a where "a = take 4 u"
  define b where "b = take 2 (drop 4 u)"
  define c where "c = take 2 (drop 6 u)"
  define d where "d = take 2 (drop 8 u)"
  define e where "e = take 6 (drop 10 u)"
  have len: "length a = 4" "length b = 2" "length c = 2" "length d = 2" "length e = 6"
    using l by (simp_all add: a_def b_def c_def d_def e_def)
  have ne: "a \<noteq> []" "b \<noteq> []" "c \<noteq> []" "d \<noteq> []" "e \<noteq> []" using len by auto
  have u: "u = a @ b @ c @ d @ e"
  proof -
    have "take k (drop n u) @ drop (k + n) u = drop n u" for k n
      by (metis append_take_drop_id drop_drop)
    from this [of 2 4] this [of 2 6] this [of 2 8] append_take_drop_id [of 4 u] l show ?thesis
      by (simp add: a_def b_def c_def d_def e_def)
  qed
  have th: "take_hex (2 * length bs) (hexes bs @ r) = Some (nibbles bs, r)" for bs r
    by (rule take_hex_hexes)
  note t = th [of a] th [of b] th [of c] th [of d] th [of e "[]"]
  have hc: "hd (nibbles c) = unat (u ! 6) div 16"
  proof -
    have "c ! 0 = u ! 6" using l by (simp add: c_def)
    with ne(3) show ?thesis by (cases c) simp_all
  qed
  show ?thesis
    using t len ne assms
    by (simp add: uuid_Parse_def UUID_String_def a_def [symmetric] b_def [symmetric] c_def [symmetric]
        d_def [symmetric] e_def [symmetric] skip_urn_hex skip_char_hex not_hex hc valid_uuid_def
        skip_char_simps nibbles_append [symmetric] bytes_of_hex_nibbles u [symmetric])
qed

lemma is_space_hex: "hex_val c \<noteq> None \<Longrightarrow> \<not> is_space c"
  by (auto simp: is_space_def hex_val_def is_digit_def Let_def)

lemma UUID_String_chars: "c \<in> set (UUID_String u) \<Longrightarrow> hex_val c \<noteq> None \<or> c = CHR ''-''"
  by (auto simp: UUID_String_def dest: hexes_chars)

lemma TrimSpace_no_space: "(\<And>c. c \<in> set s \<Longrightarrow> \<not> is_space c) \<Longrightarrow> TrimSpace s = s"
proof -
  assume a: "\<And>c. c \<in> set s \<Longrightarrow> \<not> is_space c"
  then have "dropWhile is_space s = s" by (cases s) auto
  moreover have "dropWhile is_space (rev s) = rev s"
    using a by (cases "rev s") (auto simp flip: set_rev [of s])
  ultimately show ?thesis by (simp add: TrimSpace_def)
qed

lemma TrimSpace_padded:
  assumes "s \<noteq> []" "\<And>c. c \<in> set s \<Longrightarrow> \<not> is_space c" "is_space a" "is_space b"
  shows "TrimSpace (a # s @ [b]) = s"
proof -
  have "dropWhile is_space (a # s @ [b]) = s @ [b]" using assms by (cases s) auto
  moreover have "dropWhile is_space (rev s) = rev s"
    using assms(2) by (cases "rev s") (auto simp flip: set_rev [of s])
  ultimately show ?thesis using assms(4) by (simp add: TrimSpace_def)
qed

lemma UUID_String_no_space: "c \<in> set (UUID_String u) \<Longrightarrow> \<not> is_space c"
  using UUID_String_chars [of c u] is_space_hex [of c] by (auto simp: is_space_def)

lemma String2UUID_String [go_simps]: "valid_uuid u \<Longrightarrow> String2UUID (UUID_String u) = Inr u"
proof -
  have "TrimSpace (UUID_String u) = UUID_String u"
    by (intro TrimSpace_no_space UUID_String_no_space)
  then show "valid_uuid u \<Longrightarrow> ?thesis" by (simp add: String2UUID_def uuid_Parse_String)
qed

interpretation uuid: codec UUID_String "\<lambda>s. case String2UUID s of Inl _ \<Rightarrow> None | Inr u \<Rightarrow> Some u" valid_uuid
  by unfold_locales (simp add: String2UUID_String)

lemma version4_nibble: "unat ((b AND 15 :: byte) OR 64) div 16 = 4"
proof -
  have "drop_bit 4 (15 :: byte) = 0" "drop_bit 4 (64 :: byte) = 4"
    by (simp_all add: drop_bit_eq_div)
  then have "drop_bit 4 ((b AND 15) OR 64) = (4 :: byte)"
    by (simp only: drop_bit_or drop_bit_and) simp
  then have "unat (drop_bit 4 ((b AND 15) OR 64)) = 4" by simp
  then show ?thesis by (simp only: unat_drop_bit_eq) (simp add: drop_bit_eq_div)
qed

lemma valid_version4: "valid_uuid (version4 r)"
  by (simp add: valid_uuid_def version4_def Let_def version4_nibble)


text \<open>
  An identifier made by \<open>CreateUUID\<close> is read back by \<open>String2UUID\<close> from the
  text it is printed as, also with white space around it; distinct identifiers have
  distinct texts.
\<close>

theorem CreateUUID_roundtrip:
  "String2UUID (UUID_String (version4 r)) = Inr (version4 r)
   \<and> String2UUID ('' '' @ UUID_String (version4 r) @ [CHR 0x0A]) = Inr (version4 r)
   \<and> (UUID_String (version4 r) = UUID_String (version4 r') \<longleftrightarrow> version4 r = version4 r')"
proof (intro conjI)
  let ?u = "UUID_String (version4 r)"
  have "TrimSpace (CHR '' '' # ?u @ [CHR 0x0A]) = ?u"
  proof (rule TrimSpace_padded)
    show "?u \<noteq> []" by (simp add: UUID_String_def)
  qed (simp_all only: UUID_String_no_space, simp_all add: is_space_def)
  then show "String2UUID ('' '' @ ?u @ [CHR 0x0A]) = Inr (version4 r)"
    using uuid_Parse_String [OF valid_version4, of r] by (simp add: String2UUID_def)
qed (simp_all add: String2UUID_String valid_version4 uuid.enc_inject)

lemma hex_val_less: "hex_val c = Some d \<Longrightarrow> d < 16"
  by (auto simp: hex_val_def is_digit_def digit_val_def Let_def split: if_splits)

lemma take_hex_bounds: "take_hex n s = Some (ds, r) \<Longrightarrow> length ds = n \<and> list_all (\<lambda>d. d < 16) ds"
  by (induction n s arbitrary: ds r rule: take_hex.induct) (auto dest: hex_val_less split: option.splits)

lemma bytes_of_hex_append: "even (length a) \<Longrightarrow> bytes_of_hex (a @ b) = bytes_of_hex a @ bytes_of_hex b"
  by (induction a rule: bytes_of_hex.induct) auto

lemma length_bytes_of_hex: "length (bytes_of_hex a) = length a div 2"
  by (induction a rule: bytes_of_hex.induct) auto

lemma uuid_Parse_valid:
  assumes "uuid_Parse s = Some u"
  shows "valid_uuid u"
proof -
  from assms obtain a b c d e where u: "u = bytes_of_hex (a @ b @ c @ d @ e)" and hd: "1 \<le> hd c" "hd c \<le> 5"
    and len: "length a = 8" "length b = 4" "length c = 4" "length d = 4" "length e = 12" and c: "list_all (\<lambda>d. d < 16) c"
    by (auto simp: uuid_Parse_def Let_def split: bind_splits if_splits dest!: take_hex_bounds)
  from len(3) obtain x y z w where cs: "c = [x, y, z, w]"
    by (auto simp: numeral_eq_Suc length_Suc_conv)
  have "u = bytes_of_hex (a @ b) @ of_nat (16 * x + y) # of_nat (16 * z + w) # bytes_of_hex (d @ e)"
    using len bytes_of_hex_append [of "a @ b" "c @ d @ e"] by (simp add: u cs)
  moreover have "length (bytes_of_hex (a @ b)) = 6" using len by (simp add: length_bytes_of_hex)
  moreover have "unat (of_nat (16 * x + y) :: byte) = 16 * x + y"
    unfolding unat_of_nat_byte using hd c by (simp add: cs)
  ultimately show ?thesis
    using hd c len by (simp add: valid_uuid_def length_bytes_of_hex nth_append cs)
qed

lemma String2UUID_valid: "String2UUID s = Inr u \<Longrightarrow> valid_uuid u"
  by (auto simp: String2UUID_def dest: uuid_Parse_valid split: option.splits)

end
