(* ===== verification/Json.thy ===== *)
theory Json
  imports MidoTypes
begin

text \<open>
  \<open>encoding/json\<close>, as far as the program uses it: \<open>Marshal\<close> and \<open>Unmarshal\<close> between
  the structures the program keeps in etcd and their text. A text is parsed to a syntax
  tree whose strings and numbers are still as written; decoders then read the tree into
  records, field by field, the way \<open>Unmarshal\<close> fills a struct.

  Bytes from 0x80 on are copied both ways: texts are taken to be valid UTF-8 (\<open>Marshal\<close>
  replaces invalid sequences, and escapes U+2028 and U+2029).
\<close>

subsection \<open>Syntax trees and their text\<close>

datatype json =
    JNull
  | JBool bool
  | JNum string
  | JStr string
  | JArr "json list"
  | JObj "(string \<times> json) list"

definition quoted :: "string \<Rightarrow> string" where
  "quoted raw = CHR 0x22 # raw @ [CHR 0x22]"

fun show_json :: "json \<Rightarrow> string"
  and show_elems :: "json list \<Rightarrow> string"
  and show_members :: "(string \<times> json) list \<Rightarrow> string" where
  "show_json JNull = ''null''"
| "show_json (JBool b) = (if b then ''true'' else ''false'')"
| "show_json (JNum t) = t"
| "show_json (JStr raw) = quoted raw"
| "show_json (JArr vs) = CHR ''['' # show_elems vs @ '']''"
| "show_json (JObj kvs) = CHR ''{'' # show_members kvs @ ''}''"
| "show_elems [] = []"
| "show_elems (v # vs) = show_json v @ (if vs = [] then [] else CHR '','' # show_elems vs)"
| "show_members [] = []"
| "show_members ((k, v) # kvs) =
     quoted k @ CHR '':'' # show_json v @ (if kvs = [] then [] else CHR '','' # show_members kvs)"

text \<open>The characters of a string literal: \<open>Marshal\<close> also escapes the HTML brackets and \<open>&\<close>.\<close>

definition esc_char :: "char \<Rightarrow> string" where
  "esc_char c =
     (let n = (of_char c :: nat) in
      if c = CHR 0x22 \<or> c = CHR 0x5C then [CHR 0x5C, c]
      else if n = 10 then [CHR 0x5C, CHR ''n'']
      else if n = 13 then [CHR 0x5C, CHR ''r'']
      else if n = 9 then [CHR 0x5C, CHR ''t'']
      else if n < 32 \<or> c = CHR ''<'' \<or> c = CHR ''>'' \<or> c = CHR ''&''
        then [CHR 0x5C, CHR ''u'', CHR ''0'', CHR ''0'', hex_char (n div 16), hex_char (n mod 16)]
      else [c])"

definition escape :: "string \<Rightarrow> string" where
  "escape s = concat (List.map esc_char s)"

subsection \<open>Parsing\<close>

definition is_ws :: "char \<Rightarrow> bool" where
  "is_ws c \<longleftrightarrow> (of_char c :: nat) \<in> {32, 9, 10, 13}"

definition skip_ws :: "string \<Rightarrow> string" where
  "skip_ws s = dropWhile is_ws s"

definition unescape :: "char \<Rightarrow> char option" where
  "unescape e =
     (if e = CHR 0x22 \<or> e = CHR 0x5C \<or> e = CHR ''/'' then Some e
      else if e = CHR ''b'' then Some (CHR 0x08)
      else if e = CHR ''f'' then Some (CHR 0x0C)
      else if e = CHR ''n'' then Some (CHR 0x0A)
      else if e = CHR ''r'' then Some (CHR 0x0D)
      else if e = CHR ''t'' then Some (CHR 0x09)
      else None)"

text \<open>A string literal, up to its closing quote, and what follows.\<close>

fun scan_str :: "string \<Rightarrow> (string \<times> string) option" where
  "scan_str [] = None"
| "scan_str (c # s) =
     (if c = CHR 0x22 then Some ([], s)
      else if c = CHR 0x5C then
        (case s of
           [] \<Rightarrow> None
         | e # s' \<Rightarrow>
             if unescape e \<noteq> None \<or> (e = CHR ''u'' \<and> take_hex 4 s' \<noteq> None)
             then map_option (\<lambda>(raw, r). (c # e # raw, r)) (scan_str s')
             else None)
      else if (of_char c :: nat) < 32 then None
      else map_option (\<lambda>(raw, r). (c # raw, r)) (scan_str s))"

definition span_digits :: "string \<Rightarrow> string \<times> string" where
  "span_digits s = (takeWhile is_digit s, dropWhile is_digit s)"

text \<open>A number literal: sign, integer part without leading zeros, fraction, exponent.\<close>

definition scan_frac :: "string \<Rightarrow> (string \<times> string) option" where
  "scan_frac s =
     (case s of
        c # s' \<Rightarrow>
          if c = CHR ''.'' then
            (case span_digits s' of (ds, r) \<Rightarrow> if ds = [] then None else Some (c # ds, r))
          else Some ([], s)
      | [] \<Rightarrow> Some ([], []))"

definition scan_exp :: "string \<Rightarrow> (string \<times> string) option" where
  "scan_exp s =
     (case s of
        c # s' \<Rightarrow>
          if c = CHR ''e'' \<or> c = CHR ''E'' then
            (let (sg, s'') = (if s' \<noteq> [] \<and> (hd s' = CHR ''+'' \<or> hd s' = CHR ''-'') then ([hd s'], tl s') else ([], s'))
             in case span_digits s'' of (ds, r) \<Rightarrow> if ds = [] then None else Some (c # sg @ ds, r))
          else Some ([], s)
      | [] \<Rightarrow> Some ([], []))"

definition scan_number :: "string \<Rightarrow> (string \<times> string) option" where
  "scan_number s =
     (let (sg, s1) = (if s \<noteq> [] \<and> hd s = CHR ''-'' then (''-'', tl s) else ([], s))
      in case span_digits s1 of (ds, s2) \<Rightarrow>
           if ds = [] \<or> (hd ds = CHR ''0'' \<and> 1 < length ds) then None
           else do {
             (fr, s3) \<leftarrow> scan_frac s2;
             (ex, s4) \<leftarrow> scan_exp s3;
             Some (sg @ ds @ fr @ ex, s4)
           })"

definition scan_literal :: "string \<Rightarrow> json \<Rightarrow> string \<Rightarrow> (json \<times> string) option" where
  "scan_literal w v s = (if take (length w) s = w then Some (v, drop (length w) s) else None)"

definition scan_scalar :: "string \<Rightarrow> (json \<times> string) option" where
  "scan_scalar s =
     (if hd s = CHR ''t'' then scan_literal ''true'' (JBool True) s
      else if hd s = CHR ''f'' then scan_literal ''false'' (JBool False) s
      else if hd s = CHR ''n'' then scan_literal ''null'' JNull s
      else map_option (\<lambda>(t, r). (JNum t, r)) (scan_number s))"

text \<open>The recursive descent. The first argument bounds its depth; see \<open>parse_value_fuel\<close>.\<close>

fun parse_value :: "nat \<Rightarrow> string \<Rightarrow> (json \<times> string) option"
  and parse_elems :: "nat \<Rightarrow> string \<Rightarrow> (json list \<times> string) option"
  and parse_members :: "nat \<Rightarrow> string \<Rightarrow> ((string \<times> json) list \<times> string) option" where
  "parse_value 0 s = None"
| "parse_value (Suc n) s =
     (case skip_ws s of
        [] \<Rightarrow> None
      | c # r \<Rightarrow>
          if c = CHR 0x22 then map_option (\<lambda>(raw, r). (JStr raw, r)) (scan_str r)
          else if c = CHR ''['' then
            (if skip_ws r \<noteq> [] \<and> hd (skip_ws r) = CHR '']'' then Some (JArr [], tl (skip_ws r))
             else map_option (\<lambda>(vs, r). (JArr vs, r)) (parse_elems n r))
          else if c = CHR ''{'' then
            (if skip_ws r \<noteq> [] \<and> hd (skip_ws r) = CHR ''}'' then Some (JObj [], tl (skip_ws r))
             else map_option (\<lambda>(kvs, r). (JObj kvs, r)) (parse_members n r))
          else scan_scalar (c # r))"
| "parse_elems 0 s = None"
| "parse_elems (Suc n) s =
     (case parse_value n s of
        None \<Rightarrow> None
      | Some (v, r) \<Rightarrow>
          (case skip_ws r of
             [] \<Rightarrow> None
           | c # r \<Rightarrow>
               if c = CHR '']'' then Some ([v], r)
               else if c = CHR '','' then map_option (\<lambda>(vs, r). (v # vs, r)) (parse_elems n r)
               else None))"
| "parse_members 0 s = None"
| "parse_members (Suc n) s =
     (case skip_ws s of
        [] \<Rightarrow> None
      | q # s \<Rightarrow>
          if q \<noteq> CHR 0x22 then None
          else (case scan_str s of
             None \<Rightarrow> None
           | Some (k, r) \<Rightarrow>
               (case skip_ws r of
                  [] \<Rightarrow> None
                | c # r \<Rightarrow>
                    if c \<noteq> CHR '':'' then None
                    else (case parse_value n r of
                       None \<Rightarrow> None
                     | Some (v, r) \<Rightarrow>
                         (case skip_ws r of
                            [] \<Rightarrow> None
                          | c # r \<Rightarrow>
                              if c = CHR ''}'' then Some ([(k, v)], r)
                              else if c = CHR '','' then
                                map_option (\<lambda>(kvs, r). ((k, v) # kvs, r)) (parse_members n r)
                              else None)))))"

definition json_parse :: "string \<Rightarrow> json option" where
  "json_parse s =
     (case parse_value (Suc (2 * length s)) s of
        Some (v, r) \<Rightarrow> if skip_ws r = [] then Some v else None
      | None \<Rightarrow> None)"

subsection \<open>Parsing does not depend on the bound\<close>

lemma length_skip_ws: "length (skip_ws s) \<le> length s"
  unfolding skip_ws_def by (rule length_dropWhile_le)

lemma skip_ws_Cons: "skip_ws s = c # r \<Longrightarrow> length r < length s"
  using length_skip_ws [of s] by simp

lemma scan_str_length: "scan_str s = Some (raw, r) \<Longrightarrow> length r < length s"
  by (induction s arbitrary: raw r rule: scan_str.induct) (auto split: if_splits list.splits; fastforce)+

lemma span_digits_length: "span_digits s = (ds, r) \<Longrightarrow> length r \<le> length s - length ds"
  by (auto simp: span_digits_def simp flip: length_append) (metis takeWhile_dropWhile_id length_append diff_add_inverse le_refl)

lemma scan_frac_length: "scan_frac s = Some (f, r) \<Longrightarrow> length r \<le> length s"
  by (auto simp: scan_frac_def split: list.splits if_splits prod.splits dest!: span_digits_length)

lemma scan_exp_length: "scan_exp s = Some (f, r) \<Longrightarrow> length r \<le> length s"
  by (auto simp: scan_exp_def Let_def split: list.splits if_splits prod.splits dest!: span_digits_length)

lemma scan_number_length: "scan_number s = Some (t, r) \<Longrightarrow> length r < length s"
proof -
  assume a: "scan_number s = Some (t, r)"
  define s1 where "s1 = (if s \<noteq> [] \<and> hd s = CHR ''-'' then tl s else s)"
  have l1: "length s1 \<le> length s" by (simp add: s1_def)
  from a obtain ds s2 f s3 e where p: "span_digits s1 = (ds, s2)" "ds \<noteq> []"
    "scan_frac s2 = Some (f, s3)" "scan_exp s3 = Some (e, r)"
    by (auto simp: scan_number_def s1_def Let_def split: prod.splits if_splits bind_splits)
  have "s1 \<noteq> []" using p(1,2) by (auto simp: span_digits_def)
  with l1 p span_digits_length [OF p(1)] scan_frac_length [OF p(3)] scan_exp_length [OF p(4)]
  show ?thesis by (cases ds; cases s1) auto
qed

lemma scan_scalar_length: "s \<noteq> [] \<Longrightarrow> scan_scalar s = Some (v, r) \<Longrightarrow> length r < length s"
  by (auto simp: scan_scalar_def scan_literal_def split: if_splits dest: scan_number_length)

lemma parse_length:
  "(parse_value n s = Some (v, r) \<longrightarrow> length r < length s) \<and>
   (parse_elems n s = Some (vs, r) \<longrightarrow> length r < length s) \<and>
   (parse_members n s = Some (kvs, r) \<longrightarrow> length r < length s)"
proof (induction n arbitrary: s v vs kvs r)
  case (Suc n)
  have V: "parse_value n s = Some (v, r) \<Longrightarrow> length r < length s"
    and E: "parse_elems n s = Some (vs, r) \<Longrightarrow> length r < length s"
    and M: "parse_members n s = Some (kvs, r) \<Longrightarrow> length r < length s" for s v vs kvs r
    using Suc.IH by blast+
  have W: "length q < length s \<Longrightarrow> length (skip_ws q) - Suc 0 < length s" for q s :: string
    using length_skip_ws [of q] by simp
  have S: "scan_scalar (c # q) = Some (v, r) \<Longrightarrow> length r \<le> length q" for c q v r
    using scan_scalar_length [of "c # q" v r] by simp
  have val: "parse_value (Suc n) s = Some (v, r) \<Longrightarrow> length r < length s"
    using W by (auto split: list.splits if_splits dest!: skip_ws_Cons scan_str_length E M S
        intro: le_less_trans less_trans)
  have elems: "parse_elems (Suc n) s = Some (vs, r) \<Longrightarrow> length r < length s"
    by (auto split: list.splits option.splits if_splits dest!: V E skip_ws_Cons)
  have members: "parse_members (Suc n) s = Some (kvs, r) \<Longrightarrow> length r < length s"
    by (auto split: list.splits option.splits if_splits dest!: V M skip_ws_Cons scan_str_length)
  from val elems members show ?case by blast
qed simp

lemma parse_value_length: "parse_value n s = Some (v, r) \<Longrightarrow> length r < length s"
  using parse_length by blast

lemma parse_more_fuel:
  "(2 * length s < n \<longrightarrow> parse_value (Suc n) s = parse_value n s) \<and>
   (2 * length s + 1 < n \<longrightarrow> parse_elems (Suc n) s = parse_elems n s) \<and>
   (2 * length s < n \<longrightarrow> parse_members (Suc n) s = parse_members n s)"
proof (induction n arbitrary: s)
  case (Suc n)
  have V: "2 * length s < n \<Longrightarrow> parse_value (Suc n) s = parse_value n s"
    and E: "2 * length s + 1 < n \<Longrightarrow> parse_elems (Suc n) s = parse_elems n s"
    and M: "2 * length s < n \<Longrightarrow> parse_members (Suc n) s = parse_members n s" for s
    using Suc.IH by blast+
  have val: "2 * length s < Suc n \<Longrightarrow> parse_value (Suc (Suc n)) s = parse_value (Suc n) s"
  proof (cases "skip_ws s")
    case (Cons c r)
    assume "2 * length s < Suc n"
    with skip_ws_Cons [OF Cons] have "2 * length r + 1 < n" by simp
    with E [of r] M [of r] Cons show ?thesis by (simp del: parse_elems.simps parse_members.simps)
  qed simp
  have elems: "2 * length s + 1 < Suc n \<Longrightarrow> parse_elems (Suc (Suc n)) s = parse_elems (Suc n) s"
  proof -
    assume a: "2 * length s + 1 < Suc n"
    have "parse_elems (Suc n) r = parse_elems n r" if "parse_value n s = Some (v, q)" "skip_ws q = c # r" for v q c r
      using parse_value_length [OF that(1)] skip_ws_Cons [OF that(2)] a by (intro E) simp
    with a V [of s] show ?thesis
      unfolding parse_elems.simps(2) [of "Suc n" s] parse_elems.simps(2) [of n s]
      by (auto split: option.split list.split simp del: parse_elems.simps parse_value.simps)
  qed
  have members: "2 * length s < Suc n \<Longrightarrow> parse_members (Suc (Suc n)) s = parse_members (Suc n) s"
  proof -
    assume a: "2 * length s < Suc n"
    have v: "parse_value (Suc n) q = parse_value n q"
      if "skip_ws s = c # s'" "scan_str s' = Some (k, r)" "skip_ws r = d # q" for c s' k r d q
      using skip_ws_Cons [OF that(1)] scan_str_length [OF that(2)] skip_ws_Cons [OF that(3)] a by (intro V) simp
    have m: "parse_members (Suc n) z = parse_members n z"
      if "skip_ws s = c # s'" "scan_str s' = Some (k, r)" "skip_ws r = d # q"
        "parse_value n q = Some (x, y)" "skip_ws y = e # z" for c s' k r d q x y e z
      using skip_ws_Cons [OF that(1)] scan_str_length [OF that(2)] skip_ws_Cons [OF that(3)]
        parse_value_length [OF that(4)] skip_ws_Cons [OF that(5)] a by (intro M) simp
    show ?thesis
      unfolding parse_members.simps(2) [of "Suc n" s] parse_members.simps(2) [of n s]
      using v m by (auto split: option.split list.split simp del: parse_members.simps parse_value.simps)
  qed
  from val elems members show ?case by blast
qed simp

lemma parse_value_fuel:
  assumes "2 * length s < n"
  shows "parse_value n s = parse_value (Suc (2 * length s)) s"
proof -
  have "parse_value (Suc (2 * length s) + k) s = parse_value (Suc (2 * length s)) s" for k
    by (induction k) (use parse_more_fuel in \<open>auto simp del: parse_value.simps\<close>)
  from this [of "n - Suc (2 * length s)"] assms show ?thesis by simp
qed

subsection \<open>Printed texts are parsed back\<close>

lemma hex_char_plain:
  "d < 16 \<Longrightarrow> hex_char d \<noteq> CHR 0x22 \<and> hex_char d \<noteq> CHR 0x5C \<and> \<not> (of_char (hex_char d) :: nat) < 32"
proof -
  assume "d < 16"
  then have "hex_val (hex_char d) \<noteq> None" by (simp add: hex_val_hex_char)
  then show ?thesis by (auto simp: hex_val_def is_digit_def Let_def split: if_splits)
qed

lemma scan_str_plain: "c \<noteq> CHR 0x22 \<Longrightarrow> c \<noteq> CHR 0x5C \<Longrightarrow> \<not> (of_char c :: nat) < 32 \<Longrightarrow>
    scan_str (c # s) = map_option (\<lambda>(raw, r). (c # raw, r)) (scan_str s)"
  by simp

lemma take_hex_escape: "n < 256 \<Longrightarrow>
    take_hex 4 (CHR ''0'' # CHR ''0'' # hex_char (n div 16) # hex_char (n mod 16) # t) = Some ([0, 0, n div 16, n mod 16], t)"
proof -
  assume "n < 256"
  then have "n div 16 < 16" by simp
  moreover have "hex_val CHR ''0'' = Some 0" by (simp add: hex_val_def is_digit_def digit_val_def)
  moreover have "(4 :: nat) = Suc (Suc (Suc (Suc 0)))" by simp
  ultimately show ?thesis by (simp only:) (simp add: hex_val_hex_char)
qed

lemma esc_char_cases:
  obtains (plain) "esc_char c = [c]" "c \<noteq> CHR 0x22" "c \<noteq> CHR 0x5C" "\<not> (of_char c :: nat) < 32"
  | (short) e where "esc_char c = [CHR 0x5C, e]" "unescape e = Some c" "e \<noteq> CHR ''u''"
  | (long) "esc_char c = [CHR 0x5C, CHR ''u'', CHR ''0'', CHR ''0'', hex_char (of_char c div 16), hex_char (of_char c mod 16)]"
      "(of_char c :: nat) < 128"
proof -
  let ?n = "of_char c :: nat"
  have c: "c = char_of ?n" by simp
  consider "c = CHR 0x22 \<or> c = CHR 0x5C" | "?n = 10" | "?n = 13" | "?n = 9"
    | "\<not> (c = CHR 0x22 \<or> c = CHR 0x5C)" "?n \<noteq> 10" "?n \<noteq> 13" "?n \<noteq> 9"
        "?n < 32 \<or> c = CHR ''<'' \<or> c = CHR ''>'' \<or> c = CHR ''&''"
    | "\<not> (c = CHR 0x22 \<or> c = CHR 0x5C)" "\<not> (?n < 32 \<or> c = CHR ''<'' \<or> c = CHR ''>'' \<or> c = CHR ''&'')"
    by fastforce
  then show thesis
  proof cases
    case 1
    then show ?thesis by (intro short [of c]) (auto simp: esc_char_def unescape_def)
  next
    case 2
    then have "?n = of_char (CHR 0x0A)" by simp
    then have "c = CHR 0x0A" by (simp only: of_char_eq_iff)
    then show ?thesis by (intro short [of "CHR ''n''"]) (auto simp: esc_char_def unescape_def)
  next
    case 3
    then have "?n = of_char (CHR 0x0D)" by simp
    then have "c = CHR 0x0D" by (simp only: of_char_eq_iff)
    then show ?thesis by (intro short [of "CHR ''r''"]) (auto simp: esc_char_def unescape_def)
  next
    case 4
    then have "?n = of_char (CHR 0x09)" by simp
    then have "c = CHR 0x09" by (simp only: of_char_eq_iff)
    then show ?thesis by (intro short [of "CHR ''t''"]) (auto simp: esc_char_def unescape_def)
  next
    case 5
    then show ?thesis by (intro long) (auto simp: esc_char_def Let_def)
  next
    case 6
    then show ?thesis by (intro plain) (auto simp: esc_char_def Let_def)
  qed
qed

lemma scan_str_esc_char:
  "scan_str (esc_char c @ t) = map_option (\<lambda>(raw, r). (esc_char c @ raw, r)) (scan_str t)"
proof (cases c rule: esc_char_cases)
  case plain
  then show ?thesis by simp
next
  case (short e)
  then show ?thesis by simp
next
  case long
  let ?n = "of_char c :: nat"
  have h: "?n div 16 < 16" using long(2) by simp
  have "unescape CHR ''u'' = None" by (simp add: unescape_def)
  with take_hex_escape [of ?n t] long(2) have
    "scan_str (esc_char c @ t) = map_option (\<lambda>(raw, r). (CHR 0x5C # CHR ''u'' # raw, r))
       (scan_str (CHR ''0'' # CHR ''0'' # hex_char (?n div 16) # hex_char (?n mod 16) # t))"
    by (simp add: long(1))
  also have "scan_str (CHR ''0'' # CHR ''0'' # hex_char (?n div 16) # hex_char (?n mod 16) # t) =
      map_option (\<lambda>(raw, r). (CHR ''0'' # CHR ''0'' # hex_char (?n div 16) # hex_char (?n mod 16) # raw, r)) (scan_str t)"
    using hex_char_plain [OF h] hex_char_plain [of "?n mod 16"]
    by (cases "scan_str t") (auto simp: scan_str_plain simp del: scan_str.simps)
  finally show ?thesis by (cases "scan_str t") (auto simp: long(1) simp del: scan_str.simps)
qed

lemma scan_str_escape: "scan_str (escape s @ CHR 0x22 # r) = Some (escape s, r)"
  by (induction s) (simp_all add: escape_def scan_str_esc_char)

definition stops :: "string \<Rightarrow> bool" where
  "stops r \<longleftrightarrow> r = [] \<or> hd r \<in> {CHR '','', CHR '']'', CHR ''}''}"

lemma stops_simps [simp]: "stops []" "stops (CHR '','' # r)" "stops (CHR '']'' # r)" "stops (CHR ''}'' # r)"
  by (simp_all add: stops_def)

lemma skip_ws_stops [simp]: "stops r \<Longrightarrow> skip_ws r = r"
  by (cases r) (auto simp: stops_def skip_ws_def is_ws_def)

lemma span_digits_stops: "(\<And>c. c \<in> set ds \<Longrightarrow> is_digit c) \<Longrightarrow> stops r \<Longrightarrow> span_digits (ds @ r) = (ds, r)"
proof -
  assume a: "\<And>c. c \<in> set ds \<Longrightarrow> is_digit c" "stops r"
  then have "r = [] \<or> \<not> is_digit (hd r)" by (auto simp: stops_def is_digit_def)
  with a(1) show ?thesis by (cases r) (auto simp: span_digits_def takeWhile_append dropWhile_append)
qed

lemma hd_itoa_zero: "hd (itoa n) = CHR ''0'' \<Longrightarrow> length (itoa n) = 1"
proof (induction n rule: itoa.induct)
  case (1 n)
  show ?case
  proof (cases "n < 10")
    case False
    with 1 have "length (itoa (n div 10)) = 1" by (simp add: itoa.simps [of n])
    moreover from this have "n div 10 < 10" by (auto simp: itoa.simps [of "n div 10"] split: if_splits)
    moreover have "digit_val (hd (itoa (n div 10))) = 0"
      using 1(2) False by (simp add: itoa.simps [of n] digit_val_def)
    ultimately have "n div 10 = 0"
      using digit_val_digit_char [of "n div 10"] by (simp add: itoa.simps [of "n div 10"])
    with False show ?thesis by simp
  qed (simp add: itoa.simps [of n])
qed

lemma scan_number_itoa_int: "stops r \<Longrightarrow> scan_number (itoa_int i @ r) = Some (itoa_int i, r)"
proof -
  assume r: "stops r"
  have d: "span_digits (itoa n @ r) = (itoa n, r)" for n
    using itoa_digits r by (intro span_digits_stops)
  have fr: "scan_frac r = Some ([], r)" "scan_exp r = Some ([], r)"
    using r by (cases r; auto simp: stops_def scan_frac_def scan_exp_def)+
  have m: "hd (itoa n) \<noteq> CHR ''-''" for n
    using hd_itoa_digit [of n] by (auto simp: is_digit_def)
  have z: "hd (itoa n) = CHR ''0'' \<Longrightarrow> \<not> 1 < length (itoa n)" for n
    using hd_itoa_zero [of n] by simp
  show ?thesis
    using d fr m z by (auto simp: scan_number_def itoa_int_def Let_def)
qed

lemma hd_itoa_int: "is_digit (hd (itoa_int i @ r)) \<or> hd (itoa_int i @ r) = CHR ''-''"
  using hd_itoa_digit by (simp add: itoa_int_def)

lemma itoa_int_Cons: "\<exists>c s. itoa_int i = c # s \<and> (is_digit c \<or> c = CHR ''-'')"
  using hd_itoa_int [of i "[]"] by (cases "itoa_int i") (auto simp: itoa_int_def split: if_splits)

text \<open>The trees the encoders make: strings are escaped, numbers are integers.\<close>

fun wf_json :: "json \<Rightarrow> bool" where
  "wf_json (JNum t) \<longleftrightarrow> (\<exists>i. t = itoa_int i)"
| "wf_json (JStr raw) \<longleftrightarrow> (\<exists>s. raw = escape s)"
| "wf_json (JArr vs) \<longleftrightarrow> list_all wf_json vs"
| "wf_json (JObj kvs) \<longleftrightarrow> list_all (\<lambda>(k, v). (\<exists>s. k = escape s) \<and> wf_json v) kvs"
| "wf_json _ \<longleftrightarrow> True"

lemma skip_ws_no: "s \<noteq> [] \<Longrightarrow> \<not> is_ws (hd s) \<Longrightarrow> skip_ws (s @ r) = s @ r"
  by (cases s) (auto simp: skip_ws_def)

lemma is_ws_simps [simp]: "\<not> is_ws CHR 0x22" "\<not> is_ws CHR ''{''" "\<not> is_ws CHR ''[''" "\<not> is_ws CHR ''t''"
  "\<not> is_ws CHR ''f''" "\<not> is_ws CHR ''n''" "\<not> is_ws CHR ''-''" "\<not> is_ws CHR '':''" "\<not> is_ws CHR '']''" "\<not> is_ws CHR ''}''" "\<not> is_ws CHR '',''" "is_digit c \<Longrightarrow> \<not> is_ws c"
  by (auto simp: is_ws_def is_digit_def)

lemma show_json_start: "wf_json v \<Longrightarrow>
   show_json v \<noteq> [] \<and> \<not> is_ws (hd (show_json v)) \<and> hd (show_json v) \<notin> {CHR '']'', CHR ''}''}"
proof (cases v)
  case (JNum t)
  assume "wf_json v"
  with JNum obtain i c s where "t = itoa_int i" "itoa_int i = c # s" "is_digit c \<or> c = CHR ''-''"
    using itoa_int_Cons by (auto, metis)
  with JNum show ?thesis by (auto simp: is_digit_def is_ws_def)
qed (simp_all add: quoted_def)

lemma parse_show:
  "(wf_json v \<and> 2 * length (show_json v) < n \<and> stops r \<longrightarrow> parse_value n (show_json v @ r) = Some (v, r)) \<and>
   (list_all wf_json vs \<and> vs \<noteq> [] \<and> 2 * length (show_elems vs) + 1 < n \<longrightarrow>
      parse_elems n (show_elems vs @ CHR '']'' # r) = Some (vs, r)) \<and>
   (list_all (\<lambda>(k, v). (\<exists>s. k = escape s) \<and> wf_json v) kvs \<and> kvs \<noteq> [] \<and> 2 * length (show_members kvs) < n \<longrightarrow>
      parse_members n (show_members kvs @ CHR ''}'' # r) = Some (kvs, r))"
proof (induction n arbitrary: v vs kvs r)
  case (Suc n)
  have V: "wf_json v \<Longrightarrow> 2 * length (show_json v) < n \<Longrightarrow> stops r \<Longrightarrow> parse_value n (show_json v @ r) = Some (v, r)"
    and E: "list_all wf_json vs \<Longrightarrow> vs \<noteq> [] \<Longrightarrow> 2 * length (show_elems vs) + 1 < n \<Longrightarrow>
      parse_elems n (show_elems vs @ CHR '']'' # r) = Some (vs, r)"
    and M: "list_all (\<lambda>(k, v). (\<exists>s. k = escape s) \<and> wf_json v) kvs \<Longrightarrow> kvs \<noteq> [] \<Longrightarrow>
      2 * length (show_members kvs) < n \<Longrightarrow> parse_members n (show_members kvs @ CHR ''}'' # r) = Some (kvs, r)"
    for v vs kvs r using Suc.IH by blast+
  have val: "parse_value (Suc n) (show_json v @ r) = Some (v, r)"
    if wf: "wf_json v" and len: "2 * length (show_json v) < Suc n" and r: "stops r" for v r
  proof (cases v)
    case (JNum t)
    with wf obtain i c s where t: "t = itoa_int i" "itoa_int i = c # s" "is_digit c \<or> c = CHR ''-''"
      using itoa_int_Cons by (auto, metis)
    then have ws: "skip_ws (c # s @ r) = c # s @ r" by (auto simp: skip_ws_def)
    have num: "scan_number (c # s @ r) = Some (c # s, r)"
      using scan_number_itoa_int [OF r, of i] by (simp add: t(2))
    have "c \<notin> {CHR 0x22, CHR ''['', CHR ''{'', CHR ''t'', CHR ''f'', CHR ''n''}"
      using t(3) by (auto simp: is_digit_def)
    then show ?thesis by (simp add: JNum t(1,2) ws num scan_scalar_def)
  next
    case (JStr raw)
    with wf show ?thesis by (auto simp: quoted_def skip_ws_def scan_str_escape)
  next
    case (JArr vs)
    show ?thesis
    proof (cases "vs = []")
      case False
      then obtain w ws where vs: "vs = w # ws" by (cases vs) auto
      define x where "x = show_elems vs @ CHR '']'' # r"
      from JArr wf vs have "wf_json w" by simp
      from show_json_start [OF this] have "skip_ws x = x" "x \<noteq> []" "hd x \<noteq> CHR '']''"
        by (auto simp: x_def vs intro: skip_ws_no)
      moreover have "parse_elems n x = Some (vs, r)"
        unfolding x_def using JArr wf len False by (intro E) auto
      moreover have "show_json v @ r = CHR ''['' # x" by (simp add: JArr x_def)
      ultimately show ?thesis by (simp add: JArr skip_ws_def del: parse_elems.simps)
    qed (simp add: JArr skip_ws_def)
  next
    case (JObj kvs)
    show ?thesis
    proof (cases "kvs = []")
      case False
      with JObj wf len M [of kvs r] show ?thesis
        by (cases kvs) (auto simp: skip_ws_def quoted_def)
    qed (simp add: JObj skip_ws_def)
  qed (auto simp: skip_ws_def scan_scalar_def scan_literal_def)
  have elems: "parse_elems (Suc n) (show_elems vs @ CHR '']'' # r) = Some (vs, r)"
    if wf: "list_all wf_json vs" and ne: "vs \<noteq> []" and len: "2 * length (show_elems vs) + 1 < Suc n" for vs r
  proof -
    obtain v ws where vs: "vs = v # ws" using ne by (cases vs) auto
    with wf len V [of v "(if ws = [] then [] else CHR '','' # show_elems ws) @ CHR '']'' # r"] E [of ws r]
    show ?thesis by (cases "ws = []") simp_all
  qed
  have members: "parse_members (Suc n) (show_members kvs @ CHR ''}'' # r) = Some (kvs, r)"
    if wf: "list_all (\<lambda>(k, v). (\<exists>s. k = escape s) \<and> wf_json v) kvs" and ne: "kvs \<noteq> []"
      and len: "2 * length (show_members kvs) < Suc n" for kvs r
  proof -
    obtain k v kvs' where kvs: "kvs = (k, v) # kvs'" using ne by (cases kvs) auto
    let ?t = "(if kvs' = [] then [] else CHR '','' # show_members kvs') @ CHR ''}'' # r"
    have k: "scan_str (k @ CHR 0x22 # x) = Some (k, x)" for x
      using wf kvs by (auto simp: scan_str_escape)
    from wf len kvs V [of v ?t] M [of kvs' r] k show ?thesis
      by (cases "kvs' = []") (simp_all add: quoted_def skip_ws_def)
  qed
  from val elems members show ?case by blast
qed simp

lemma json_parse_show: "wf_json v \<Longrightarrow> json_parse (show_json v) = Some v"
  using parse_show [of v "Suc (2 * length (show_json v))" "[]"]
  by (simp add: json_parse_def skip_ws_def)

interpretation json: codec show_json json_parse wf_json
  by unfold_locales (rule json_parse_show)

end
