(* ===== verification/Records.thy ===== *)
theory Records
  imports Json
begin

text \<open>
  The structures the program stores in etcd as JSON: how \<open>json.Marshal\<close> writes them and how
  \<open>json.Unmarshal\<close> fills them from a text. The field names and the omission of empty fields
  are those of the struct tags (\<open>pkg/types/types.go\<close>, the vendored MidoNet client's
  \<open>types/config.go\<close>, the CNI result of version 0.2.0). The lemmas show that what the
  program stores it reads back.
\<close>

subsection \<open>String literals\<close>

definition utf8 :: "nat \<Rightarrow> string" where
  "utf8 n =
     (if n < 128 then [char_of n]
      else if n < 2048 then [char_of (192 + n div 64), char_of (128 + n mod 64)]
      else if n < 65536 then
        [char_of (224 + n div 4096), char_of (128 + n div 64 mod 64), char_of (128 + n mod 64)]
      else [char_of (240 + n div 262144), char_of (128 + n div 4096 mod 64),
            char_of (128 + n div 64 mod 64), char_of (128 + n mod 64)])"

definition hex_number :: "nat list \<Rightarrow> nat" where
  "hex_number ds = fold (\<lambda>d n. 16 * n + d) ds 0"

text \<open>
  The code point of a \<open>\u\<close> escape whose digits were read, and what is left: a surrogate
  takes the next escape with it when the two are a pair, and is U+FFFD otherwise.
\<close>

definition utf16 :: "nat \<Rightarrow> string \<Rightarrow> string \<times> string" where
  "utf16 n s =
     (if n < 55296 \<or> 57343 < n then (utf8 n, s)
      else
        (case (if n < 56320 \<and> take 2 s = [CHR 0x5C, CHR ''u''] then take_hex 4 (drop 2 s) else None) of
           None \<Rightarrow> (utf8 65533, s)
         | Some (ds, r) \<Rightarrow>
             (let m = hex_number ds
              in if 56320 \<le> m \<and> m \<le> 57343 then (utf8 (65536 + (n - 55296) * 1024 + (m - 56320)), r)
                 else (utf8 65533, s))))"

lemma take_hex_length: "take_hex n s = Some (ds, r) \<Longrightarrow> length r \<le> length s"
  by (induction n s arbitrary: ds rule: take_hex.induct) (auto split: option.splits intro: le_SucI)

lemma utf16_length: "length (snd (utf16 n s)) \<le> length s"
  using take_hex_length [of 4 "drop 2 s"]
  by (auto simp: utf16_def Let_def split: option.splits if_splits)

function unquote :: "string \<Rightarrow> string option" where
  "unquote [] = Some []"
| "unquote (c # s) =
     (if c \<noteq> CHR 0x5C then map_option (Cons c) (unquote s)
      else
        (case s of
           [] \<Rightarrow> None
         | e # s' \<Rightarrow>
             if e = CHR ''u'' then
               (case take_hex 4 s' of
                  None \<Rightarrow> None
                | Some (ds, r) \<Rightarrow>
                    map_option (\<lambda>t. fst (utf16 (hex_number ds) r) @ t) (unquote (snd (utf16 (hex_number ds) r))))
             else
               (case unescape e of None \<Rightarrow> None | Some x \<Rightarrow> map_option (Cons x) (unquote s'))))"
  by pat_completeness auto
termination
proof (relation "measure length", goal_cases)
  case (3 c s e s' q ds r)
  from take_hex_length [of 4 s' ds r] utf16_length [of "hex_number ds" r] 3 show ?case
    by (auto intro: le_less_trans [OF _ lessI] le_trans)
qed auto

subsection \<open>Filling a struct\<close>

text \<open>
  A field: its name, and what a value does to the struct (\<open>None\<close> when the value has the wrong
  type). A key names the field it is equal to, or else one it equals up to the case of
  letters; other keys are ignored. A value of the wrong type makes \<open>Unmarshal\<close> fail.
\<close>

type_synonym 'r field = "string \<times> (json \<Rightarrow> 'r \<Rightarrow> 'r option)"

definition lower :: "char \<Rightarrow> char" where
  "lower c = (let n = (of_char c :: nat) in if 65 \<le> n \<and> n \<le> 90 then char_of (n + 32) else c)"

definition find_field :: "'r field list \<Rightarrow> string \<Rightarrow> (json \<Rightarrow> 'r \<Rightarrow> 'r option) option" where
  "find_field fs k =
     (case map_of fs k of
        Some f \<Rightarrow> Some f
      | None \<Rightarrow> map_of (List.map (\<lambda>(n, f). (List.map lower n, f)) fs) (List.map lower k))"

fun set_fields :: "'r field list \<Rightarrow> (string \<times> json) list \<Rightarrow> 'r \<Rightarrow> 'r option" where
  "set_fields fs [] r = Some r"
| "set_fields fs ((k, v) # kvs) r =
     (case unquote k of
        None \<Rightarrow> None
      | Some k \<Rightarrow>
          (case (case find_field fs k of None \<Rightarrow> Some r | Some f \<Rightarrow> f v r) of
             None \<Rightarrow> None
           | Some r \<Rightarrow> set_fields fs kvs r))"

definition set_struct :: "'r field list \<Rightarrow> json \<Rightarrow> 'r \<Rightarrow> 'r option" where
  "set_struct fs v r = (case v of JObj kvs \<Rightarrow> set_fields fs kvs r | JNull \<Rightarrow> Some r | _ \<Rightarrow> None)"

definition Unmarshal :: "'r field list \<Rightarrow> 'r \<Rightarrow> string \<Rightarrow> 'r option" where
  "Unmarshal fs zero s = Option.bind (json_parse s) (\<lambda>v. set_struct fs v zero)"

text \<open>Values: \<open>null\<close> leaves a string, a number or a boolean as it was.\<close>

definition as_string :: "(string \<Rightarrow> 'r \<Rightarrow> 'r) \<Rightarrow> json \<Rightarrow> 'r \<Rightarrow> 'r option" where
  "as_string f v r =
     (case v of JStr raw \<Rightarrow> map_option (\<lambda>s. f s r) (unquote raw) | JNull \<Rightarrow> Some r | _ \<Rightarrow> None)"

definition as_bool :: "(bool \<Rightarrow> 'r \<Rightarrow> 'r) \<Rightarrow> json \<Rightarrow> 'r \<Rightarrow> 'r option" where
  "as_bool f v r = (case v of JBool b \<Rightarrow> Some (f b r) | JNull \<Rightarrow> Some r | _ \<Rightarrow> None)"

definition as_int :: "(int \<Rightarrow> 'r \<Rightarrow> 'r) \<Rightarrow> json \<Rightarrow> 'r \<Rightarrow> 'r option" where
  "as_int f v r =
     (case v of JNum t \<Rightarrow> map_option (\<lambda>i. f i r) (atoi t) | JNull \<Rightarrow> Some r | _ \<Rightarrow> None)"

text \<open>
  \<open>UUID.UnmarshalJSON\<close> is given the text of the value and drops the quotes around it; for
  \<open>null\<close> the pointer is set to nil instead.
\<close>

definition trim_quotes :: "string \<Rightarrow> string" where
  "trim_quotes s =
     rev (dropWhile (\<lambda>c. c = CHR 0x22) (rev (dropWhile (\<lambda>c. c = CHR 0x22) s)))"

definition UUID_UnmarshalJSON :: "string \<Rightarrow> UUID option" where
  "UUID_UnmarshalJSON b = uuid_Parse (trim_quotes b)"

definition as_uuid :: "(UUID option \<Rightarrow> 'r \<Rightarrow> 'r) \<Rightarrow> json \<Rightarrow> 'r \<Rightarrow> 'r option" where
  "as_uuid f v r =
     (case v of
        JNull \<Rightarrow> Some (f None r)
      | _ \<Rightarrow> map_option (\<lambda>u. f (Some u) r) (UUID_UnmarshalJSON (show_json v)))"

fun each_uuid :: "json list \<Rightarrow> UUID option list option" where
  "each_uuid [] = Some []"
| "each_uuid (v # vs) =
     (case (case v of JNull \<Rightarrow> Some None | _ \<Rightarrow> map_option Some (UUID_UnmarshalJSON (show_json v))) of
        None \<Rightarrow> None
      | Some u \<Rightarrow> map_option (Cons u) (each_uuid vs))"

definition as_uuids :: "(UUID option list \<Rightarrow> 'r \<Rightarrow> 'r) \<Rightarrow> json \<Rightarrow> 'r \<Rightarrow> 'r option" where
  "as_uuids f v r =
     (case v of JArr vs \<Rightarrow> map_option (\<lambda>us. f us r) (each_uuid vs) | JNull \<Rightarrow> Some (f [] r) | _ \<Rightarrow> None)"

definition ignored :: "(('a \<Rightarrow> 'r \<Rightarrow> 'r) \<Rightarrow> json \<Rightarrow> 'r \<Rightarrow> 'r option) \<Rightarrow> json \<Rightarrow> 'r \<Rightarrow> 'r option" where
  "ignored as = as (\<lambda>_ r. r)"

subsection \<open>Tenants, routers, bindings\<close>

definition js :: "string \<Rightarrow> json" where
  "js s = JStr (escape s)"

definition uuid_json :: "UUID option \<Rightarrow> json" where
  "uuid_json u = (case u of None \<Rightarrow> JNull | Some u \<Rightarrow> JStr (UUID_String u))"

text \<open>A field with \<open>omitempty\<close> that is a nil pointer.\<close>

definition opt_uuid :: "string \<Rightarrow> UUID option \<Rightarrow> (string \<times> json) list" where
  "opt_uuid k u = (case u of None \<Rightarrow> [] | Some _ \<Rightarrow> [(k, uuid_json u)])"

definition opt_bool :: "string \<Rightarrow> bool \<Rightarrow> (string \<times> json) list" where
  "opt_bool k b = (if b then [(k, JBool True)] else [])"

definition opt_string :: "string \<Rightarrow> string \<Rightarrow> (string \<times> json) list" where
  "opt_string k s = (if s = [] then [] else [(k, js s)])"

definition opt_int :: "string \<Rightarrow> int \<Rightarrow> (string \<times> json) list" where
  "opt_int k i = (if i = 0 then [] else [(k, JNum (itoa_int i))])"

definition opt_uuids :: "string \<Rightarrow> UUID option list \<Rightarrow> (string \<times> json) list" where
  "opt_uuids k us = (if us = [] then [] else [(k, JArr (List.map uuid_json us))])"

definition Tenant_json :: "Tenant \<Rightarrow> json" where
  "Tenant_json t = JObj [(''name'', js (tn_Name t)), (''enabled'', JBool (tn_Enabled t)),
     (''id'', js (tn_ID t)), (''description'', js (tn_Description t))]"

definition Tenant_zero :: Tenant where
  "Tenant_zero = \<lparr>tn_Name = [], tn_Enabled = False, tn_ID = [], tn_Description = []\<rparr>"

definition Tenant_fields :: "Tenant field list" where
  "Tenant_fields =
     [(''name'', as_string (\<lambda>s t. t\<lparr>tn_Name := s\<rparr>)), (''enabled'', as_bool (\<lambda>b t. t\<lparr>tn_Enabled := b\<rparr>)),
      (''id'', as_string (\<lambda>s t. t\<lparr>tn_ID := s\<rparr>)), (''description'', as_string (\<lambda>s t. t\<lparr>tn_Description := s\<rparr>))]"

definition Router_json :: "Router \<Rightarrow> json" where
  "Router_json r = JObj (opt_uuid ''id'' (ro_ID r) @ opt_uuid ''inboundFilterId'' (ro_InboundFilterID r)
     @ opt_uuid ''outboundFilterId'' (ro_OutboundFilterID r)
     @ [(''name'', js (ro_Name r)), (''tenantId'', js (ro_TenantID r))])"

definition Router_zero :: Router where
  "Router_zero = \<lparr>ro_ID = None, ro_InboundFilterID = None, ro_OutboundFilterID = None, ro_Name = [], ro_TenantID = []\<rparr>"

definition Router_fields :: "Router field list" where
  "Router_fields =
     [(''id'', as_uuid (\<lambda>u r. r\<lparr>ro_ID := u\<rparr>)), (''adminStateUp'', ignored as_bool),
      (''inboundFilterId'', as_uuid (\<lambda>u r. r\<lparr>ro_InboundFilterID := u\<rparr>)),
      (''inboundMirrorIds'', ignored as_uuids),
      (''outboundFilterId'', as_uuid (\<lambda>u r. r\<lparr>ro_OutboundFilterID := u\<rparr>)),
      (''outboundMirrorIds'', ignored as_uuids), (''asNumber'', ignored as_int),
      (''loadBalancerId'', ignored as_uuid),
      (''name'', as_string (\<lambda>s r. r\<lparr>ro_Name := s\<rparr>)), (''tenantId'', as_string (\<lambda>s r. r\<lparr>ro_TenantID := s\<rparr>))]"

definition HostInterfacePort_json :: "HostInterfacePort \<Rightarrow> json" where
  "HostInterfacePort_json h = JObj [(''hostId'', uuid_json (hp_HostID h)),
     (''interfaceName'', js (hp_InterfaceName h)), (''portId'', uuid_json (hp_PortID h))]"

definition HostInterfacePort_zero :: HostInterfacePort where
  "HostInterfacePort_zero = \<lparr>hp_HostID = None, hp_InterfaceName = [], hp_PortID = None\<rparr>"

definition HostInterfacePort_fields :: "HostInterfacePort field list" where
  "HostInterfacePort_fields =
     [(''hostId'', as_uuid (\<lambda>u h. h\<lparr>hp_HostID := u\<rparr>)),
      (''interfaceName'', as_string (\<lambda>s h. h\<lparr>hp_InterfaceName := s\<rparr>)),
      (''portId'', as_uuid (\<lambda>u h. h\<lparr>hp_PortID := u\<rparr>))]"

definition PortLink_json :: "PortLink \<Rightarrow> json" where
  "PortLink_json l = JObj (opt_uuid ''portId'' (pl_PortID l) @ [(''peerId'', uuid_json (pl_PeerID l))])"

definition Bridge_json :: "Bridge \<Rightarrow> json" where
  "Bridge_json b = JObj ([(''name'', js (br_Name b)), (''tenantId'', js (br_TenantID b))] @ opt_uuid ''id'' (br_ID b))"

definition NatTarget_json :: "NatTarget \<Rightarrow> json" where
  "NatTarget_json n = JObj [(''addressTo'', js (nt_AddressTo n)), (''addressFrom'', js (nt_AddressFrom n)),
     (''portTo'', JNum (itoa_int (nt_PortTo n))), (''portFrom'', JNum (itoa_int (nt_PortFrom n)))]"

definition Rule_json :: "Rule \<Rightarrow> json" where
  "Rule_json r = JObj (opt_uuid ''id'' (ru_ID r) @ [(''type'', js (ru_Type r))]
     @ opt_bool ''condInvert'' (ru_CondInvert r) @ opt_string ''flowAction'' (ru_FlowAction r)
     @ opt_string ''fragmentPolicy'' (ru_FragmentPolicy r) @ opt_uuids ''inPorts'' (ru_InPorts r)
     @ opt_bool ''invInPorts'' (ru_InvInPorts r) @ opt_bool ''invNwProto'' (ru_InvNwProto r)
     @ opt_bool ''invOutPorts'' (ru_InvOutPorts r) @ opt_bool ''matchForwardFlow'' (ru_MatchForwardFlow r)
     @ opt_bool ''matchReturnFlow'' (ru_MatchReturnFlow r) @ opt_bool ''noVlan'' (ru_NoVlan r)
     @ opt_uuids ''outPorts'' (ru_OutPorts r) @ opt_int ''position'' (ru_Position r)
     @ opt_uuid ''chainId'' (ru_ChainID r)
     @ [(''natTargets'', if ru_NatTargets r = [] then JNull else JArr (List.map NatTarget_json (ru_NatTargets r)))])"

definition Rules_json :: "Rule list \<Rightarrow> json" where
  "Rules_json rs = JArr (List.map Rule_json rs)"

subsection \<open>Stored structures are read back\<close>

lemma esc_char_unquote: "unquote (esc_char c @ t) = map_option (Cons c) (unquote t)"
proof (cases c rule: esc_char_cases)
  case long
  let ?n = "of_char c :: nat"
  have "hex_number [0, 0, ?n div 16, ?n mod 16] = ?n" by (simp add: hex_number_def)
  moreover have "utf16 ?n t = ([c], t)" using long(2) by (simp add: utf16_def utf8_def)
  ultimately show ?thesis
    using take_hex_escape [of ?n t] long(2) by (cases "unquote t") (simp_all add: long(1))
qed simp_all

lemma unquote_escape [simp]: "unquote (escape s) = Some s"
  by (induction s) (simp_all add: escape_def esc_char_unquote)

interpretation literal: codec escape unquote "\<lambda>_. True"
  by unfold_locales simp

lemma escape_plain: "list_all (\<lambda>c. esc_char c = [c]) s \<Longrightarrow> escape s = s"
  by (induction s) (simp_all add: escape_def)

lemma hex_val_plain: "hex_val c \<noteq> None \<or> c = CHR ''-'' \<Longrightarrow> esc_char c = [c]"
proof -
  assume "hex_val c \<noteq> None \<or> c = CHR ''-''"
  then have "32 \<le> (of_char c :: nat) \<and> c \<noteq> CHR 0x22 \<and> c \<noteq> CHR 0x5C \<and> c \<noteq> CHR ''<'' \<and> c \<noteq> CHR ''>'' \<and> c \<noteq> CHR ''&''"
    by (auto simp: hex_val_def is_digit_def Let_def split: if_splits)
  then show ?thesis by (auto simp: esc_char_def Let_def)
qed

lemma escape_UUID: "escape (UUID_String u) = UUID_String u"
  using UUID_String_chars [of _ u] hex_val_plain by (intro escape_plain) (auto simp: list_all_iff)

lemma UUID_UnmarshalJSON_quoted [simp]:
  assumes "valid_uuid u"
  shows "UUID_UnmarshalJSON (quoted (UUID_String u)) = Some u"
proof -
  let ?s = "UUID_String u"
  have q: "c \<in> set ?s \<Longrightarrow> c \<noteq> CHR 0x22" for c
    using UUID_String_chars [of c u] by (auto simp: hex_val_def is_digit_def Let_def)
  have ne: "?s \<noteq> []" by (simp add: UUID_String_def)
  have "dropWhile (\<lambda>c. c = CHR 0x22) (?s @ [CHR 0x22]) = ?s @ [CHR 0x22]"
    using q ne by (cases ?s) auto
  moreover have "dropWhile (\<lambda>c. c = CHR 0x22) (rev ?s) = rev ?s"
    using q ne by (cases "rev ?s") (auto simp flip: set_rev [of ?s])
  ultimately show ?thesis
    using assms by (simp add: UUID_UnmarshalJSON_def quoted_def trim_quotes_def uuid_Parse_String)
qed

definition opt_valid :: "UUID option \<Rightarrow> bool" where
  "opt_valid u \<longleftrightarrow> (case u of None \<Rightarrow> True | Some u \<Rightarrow> valid_uuid u)"

lemma opt_valid_simps [simp]: "opt_valid None" "opt_valid (Some u) \<longleftrightarrow> valid_uuid u"
  by (simp_all add: opt_valid_def)

lemma as_simps [simp]:
  "as_string f (js s) r = Some (f s r)"
  "as_bool g (JBool b) r = Some (g b r)"
  "valid_uuid u \<Longrightarrow> as_uuid h (JStr (UUID_String u)) r = Some (h (Some u) r)"
  "as_uuid h JNull r = Some (h None r)"
  by (simp_all add: as_string_def js_def as_bool_def as_uuid_def)

lemma wf_simps [simp]: "wf_json (js s)" "wf_json (uuid_json u)"
  using escape_UUID [symmetric] by (auto simp: js_def uuid_json_def split: option.split)

lemma wf_key: "list_all (\<lambda>c. esc_char c = [c]) k \<Longrightarrow> \<exists>s. k = escape s"
  using escape_plain [of k] by metis

lemma unquote_plain: "list_all (\<lambda>c. c \<noteq> CHR 0x5C) k \<Longrightarrow> unquote k = Some k"
  by (induction k) simp_all

lemma Unmarshal_show: "wf_json v \<Longrightarrow> Unmarshal fs z (show_json v) = set_struct fs v z"
  by (simp add: Unmarshal_def json_parse_show)

text \<open>The keys the encoders write need no escape.\<close>

lemma key_escape: "list_all (\<lambda>c. esc_char c = [c]) k \<Longrightarrow> (\<exists>s. k = escape s) \<longleftrightarrow> True"
  using wf_key by simp

lemmas struct_simps = set_struct_def find_field_def key_escape esc_char_def Let_def

lemma Tenant_roundtrip: "Unmarshal Tenant_fields Tenant_zero (show_json (Tenant_json t)) = Some t"
proof -
  have wf: "wf_json (Tenant_json t)" by (simp add: Tenant_json_def key_escape esc_char_def)
  show ?thesis
    unfolding Unmarshal_show [OF wf]
    by (simp add: Tenant_json_def Tenant_fields_def Tenant_zero_def set_struct_def find_field_def)
qed

lemma HostInterfacePort_roundtrip:
  assumes "opt_valid (hp_HostID h)" and "opt_valid (hp_PortID h)"
  shows "Unmarshal HostInterfacePort_fields HostInterfacePort_zero (show_json (HostInterfacePort_json h)) = Some h"
proof -
  have wf: "wf_json (HostInterfacePort_json h)" by (simp add: HostInterfacePort_json_def key_escape esc_char_def)
  show ?thesis
    unfolding Unmarshal_show [OF wf] using assms
    by (cases "hp_HostID h"; cases "hp_PortID h")
       (simp_all add: HostInterfacePort_json_def HostInterfacePort_fields_def
         HostInterfacePort_zero_def set_struct_def find_field_def uuid_json_def)
qed

lemma Router_roundtrip:
  assumes "opt_valid (ro_ID r)" "opt_valid (ro_InboundFilterID r)" "opt_valid (ro_OutboundFilterID r)"
  shows "Unmarshal Router_fields Router_zero (show_json (Router_json r)) = Some r"
proof -
  have wf: "wf_json (Router_json r)"
    by (simp add: Router_json_def opt_uuid_def key_escape esc_char_def split: option.split)
  show ?thesis
    unfolding Unmarshal_show [OF wf] using assms
    by (cases "ro_ID r"; cases "ro_InboundFilterID r"; cases "ro_OutboundFilterID r")
       (simp_all add: Router_json_def Router_fields_def Router_zero_def opt_uuid_def
         set_struct_def find_field_def uuid_json_def)
qed

interpretation tenant_store: codec "\<lambda>t. show_json (Tenant_json t)" "Unmarshal Tenant_fields Tenant_zero" "\<lambda>_. True"
  by unfold_locales (rule Tenant_roundtrip)

interpretation binding_store: codec "\<lambda>h. show_json (HostInterfacePort_json h)"
  "Unmarshal HostInterfacePort_fields HostInterfacePort_zero" "\<lambda>h. opt_valid (hp_HostID h) \<and> opt_valid (hp_PortID h)"
  by unfold_locales (simp add: HostInterfacePort_roundtrip)

interpretation router_store: codec "\<lambda>r. show_json (Router_json r)" "Unmarshal Router_fields Router_zero"
  "\<lambda>r. opt_valid (ro_ID r) \<and> opt_valid (ro_InboundFilterID r) \<and> opt_valid (ro_OutboundFilterID r)"
  by unfold_locales (simp add: Router_roundtrip)

subsection \<open>Addresses and networks in JSON\<close>

text \<open>\<open>IPNet.String\<close>: the address, and the length of the mask, or the mask in hexadecimal.\<close>

definition IPNet_String :: "IPNet \<Rightarrow> string" where
  "IPNet_String n =
     (let ip = (if length (To4 (IPNet_IP n)) = 4 then To4 (IPNet_IP n) else IPNet_IP n);
          m = (if length (IPNet_Mask n) = 16 \<and> length ip = 4 then drop 12 (IPNet_Mask n) else IPNet_Mask n)
      in if length ip \<notin> {4, 16} \<or> length m \<noteq> length ip then ''<nil>''
         else (case leading_ones (concat (List.map byte_bits m)) of
                 None \<Rightarrow> IP_String ip @ ''/'' @ Mask_String m
               | Some l \<Rightarrow> IP_String ip @ ''/'' @ itoa l))"

text \<open>\<open>IP.UnmarshalText\<close>, and \<open>UnmarshalJSON\<close> of the CNI library's \<open>IPNet\<close>.\<close>

definition as_ip :: "(IP \<Rightarrow> 'r \<Rightarrow> 'r) \<Rightarrow> json \<Rightarrow> 'r \<Rightarrow> 'r option" where
  "as_ip f v r =
     (case v of
        JStr raw \<Rightarrow>
          (case unquote raw of
             None \<Rightarrow> None
           | Some s \<Rightarrow> if s = [] then Some (f [] r) else if ParseIP s = [] then None else Some (f (ParseIP s) r))
      | _ \<Rightarrow> None)"

definition as_ipnet :: "(IPNet \<Rightarrow> 'r \<Rightarrow> 'r) \<Rightarrow> json \<Rightarrow> 'r \<Rightarrow> 'r option" where
  "as_ipnet f v r =
     (case v of
        JStr raw \<Rightarrow>
          (case unquote raw of
             None \<Rightarrow> None
           | Some s \<Rightarrow>
               (case ParseCIDR s of Inl _ \<Rightarrow> None | Inr (ip, ipn) \<Rightarrow> Some (f (ipn\<lparr>IPNet_IP := ip\<rparr>) r)))
      | _ \<Rightarrow> None)"

text \<open>A byte slice is written in base 64; an array of numbers is read too.\<close>

definition b64_val :: "char \<Rightarrow> nat option" where
  "b64_val c =
     (let n = (of_char c :: nat)
      in if 65 \<le> n \<and> n \<le> 90 then Some (n - 65)
         else if 97 \<le> n \<and> n \<le> 122 then Some (n - 71)
         else if is_digit c then Some (n + 4)
         else if c = CHR ''+'' then Some 62
         else if c = CHR ''/'' then Some 63 else None)"

fun b64_decode :: "string \<Rightarrow> bytes option" where
  "b64_decode [] = Some []"
| "b64_decode (a # b # c # d # r) =
     (case (b64_val a, b64_val b) of
        (Some x, Some y) \<Rightarrow>
          (let b1 = of_nat (4 * x + y div 16) in
           if c = CHR ''='' then (if d = CHR ''='' \<and> r = [] then Some [b1] else None)
           else
             (case b64_val c of
                None \<Rightarrow> None
              | Some z \<Rightarrow>
                  (let b2 = of_nat (16 * (y mod 16) + z div 4) in
                   if d = CHR ''='' then (if r = [] then Some [b1, b2] else None)
                   else
                     (case b64_val d of
                        None \<Rightarrow> None
                      | Some w \<Rightarrow> map_option (\<lambda>t. b1 # b2 # of_nat (64 * (z mod 4) + w) # t) (b64_decode r)))))
      | _ \<Rightarrow> None)"
| "b64_decode _ = None"

fun each_byte :: "json list \<Rightarrow> bytes option" where
  "each_byte [] = Some []"
| "each_byte (v # vs) =
     (case v of
        JNum t \<Rightarrow>
          (case atoi t of
             None \<Rightarrow> None
           | Some i \<Rightarrow> if 0 \<le> i \<and> i \<le> 255 then map_option (Cons (of_int i)) (each_byte vs) else None)
      | JNull \<Rightarrow> map_option (Cons 0) (each_byte vs)
      | _ \<Rightarrow> None)"

definition as_bytes :: "(bytes \<Rightarrow> 'r \<Rightarrow> 'r) \<Rightarrow> json \<Rightarrow> 'r \<Rightarrow> 'r option" where
  "as_bytes f v r =
     (case v of
        JStr raw \<Rightarrow>
          (case unquote raw of
             None \<Rightarrow> None
           | Some s \<Rightarrow> map_option (\<lambda>b. f b r) (b64_decode (filter (\<lambda>c. c \<noteq> CHR 0x0A \<and> c \<noteq> CHR 0x0D) s)))
      | JArr vs \<Rightarrow> map_option (\<lambda>b. f b r) (each_byte vs)
      | JNull \<Rightarrow> Some (f [] r)
      | _ \<Rightarrow> None)"

text \<open>The elements of an array, checked and dropped.\<close>

definition as_array :: "(json \<Rightarrow> unit \<Rightarrow> unit option) \<Rightarrow> json \<Rightarrow> 'r \<Rightarrow> 'r option" where
  "as_array f v r =
     (case v of
        JArr vs \<Rightarrow> if list_all (\<lambda>v. f v () \<noteq> None) vs then Some r else None
      | JNull \<Rightarrow> Some r
      | _ \<Rightarrow> None)"

subsection \<open>\<open>IPInfo\<close>, what the address manager gives to a container\<close>

record IPInfo =
  ii_ContainerID :: string
  ii_IPNet :: IPNet
  ii_Getway :: IP

definition IPInfo_zero :: IPInfo where
  "IPInfo_zero = \<lparr>ii_ContainerID = [], ii_IPNet = \<lparr>IPNet_IP = [], IPNet_Mask = []\<rparr>, ii_Getway = []\<rparr>"

definition IPNet_fields :: "IPNet field list" where
  "IPNet_fields = [(''IP'', as_ip (\<lambda>ip n. n\<lparr>IPNet_IP := ip\<rparr>)), (''Mask'', as_bytes (\<lambda>m n. n\<lparr>IPNet_Mask := m\<rparr>))]"

definition IPInfo_fields :: "IPInfo field list" where
  "IPInfo_fields =
     [(''containerID'', as_string (\<lambda>s i. i\<lparr>ii_ContainerID := s\<rparr>)),
      (''ipnet'', \<lambda>v i. map_option (\<lambda>n. i\<lparr>ii_IPNet := n\<rparr>) (set_struct IPNet_fields v (ii_IPNet i))),
      (''getway'', as_ip (\<lambda>ip i. i\<lparr>ii_Getway := ip\<rparr>))]"

subsection \<open>The CNI result, version 0.2.0\<close>

text \<open>The program never sets the IPv6 part, the DNS part and the routes of a result.\<close>

record IPConfig =
  ic_IP :: IPNet
  ic_Gateway :: IP

record Result =
  cr_CNIVersion :: string
  cr_IP4 :: "IPConfig option"
  cr_IP6 :: "IPConfig option"

definition Result_zero :: Result where
  "Result_zero = \<lparr>cr_CNIVersion = [], cr_IP4 = None, cr_IP6 = None\<rparr>"

text \<open>\<open>IP.MarshalText\<close> refuses an address of another length than 0, 4 or 16.\<close>

definition IPConfig_json :: "IPConfig \<Rightarrow> json option" where
  "IPConfig_json c =
     (if ic_Gateway c = [] then Some (JObj [(''ip'', js (IPNet_String (ic_IP c)))])
      else if length (ic_Gateway c) \<notin> {4, 16} then None
      else Some (JObj [(''ip'', js (IPNet_String (ic_IP c))), (''gateway'', js (IP_String (ic_Gateway c)))]))"

definition opt_config :: "string \<Rightarrow> IPConfig option \<Rightarrow> (string \<times> json) list option" where
  "opt_config k c = (case c of None \<Rightarrow> Some [] | Some c \<Rightarrow> map_option (\<lambda>v. [(k, v)]) (IPConfig_json c))"

definition Result_json :: "Result \<Rightarrow> json option" where
  "Result_json r = do {
     ip4 \<leftarrow> opt_config ''ip4'' (cr_IP4 r);
     ip6 \<leftarrow> opt_config ''ip6'' (cr_IP6 r);
     Some (JObj (opt_string ''cniVersion'' (cr_CNIVersion r) @ ip4 @ ip6 @ [(''dns'', JObj [])]))
   }"

definition IPConfig_zero :: IPConfig where
  "IPConfig_zero = \<lparr>ic_IP = \<lparr>IPNet_IP = [], IPNet_Mask = []\<rparr>, ic_Gateway = []\<rparr>"

definition Route_check :: "unit field list" where
  "Route_check = [(''dst'', ignored as_ipnet), (''gw'', ignored as_ip)]"

definition IPConfig_fields :: "IPConfig field list" where
  "IPConfig_fields =
     [(''ip'', as_ipnet (\<lambda>n c. c\<lparr>ic_IP := n\<rparr>)), (''gateway'', as_ip (\<lambda>g c. c\<lparr>ic_Gateway := g\<rparr>)),
      (''routes'', as_array (set_struct Route_check))]"

text \<open>\<open>IPConfig\<close> has its own \<open>UnmarshalJSON\<close>, which starts from an empty structure.\<close>

definition as_config :: "(IPConfig option \<Rightarrow> 'r \<Rightarrow> 'r) \<Rightarrow> json \<Rightarrow> 'r \<Rightarrow> 'r option" where
  "as_config f v r =
     (case v of
        JNull \<Rightarrow> Some (f None r)
      | _ \<Rightarrow> map_option (\<lambda>c. f (Some c) r) (set_struct IPConfig_fields v IPConfig_zero))"

definition DNS_check :: "unit field list" where
  "DNS_check = [(''nameservers'', as_array (ignored as_string)), (''domain'', ignored as_string),
     (''search'', as_array (ignored as_string)), (''options'', as_array (ignored as_string))]"

definition Result_fields :: "Result field list" where
  "Result_fields =
     [(''cniVersion'', as_string (\<lambda>s r. r\<lparr>cr_CNIVersion := s\<rparr>)),
      (''ip4'', as_config (\<lambda>c r. r\<lparr>cr_IP4 := c\<rparr>)), (''ip6'', as_config (\<lambda>c r. r\<lparr>cr_IP6 := c\<rparr>)),
      (''dns'', \<lambda>v r. map_option (\<lambda>_. r) (set_struct DNS_check v ()))]"

subsection \<open>What a container is given is read back\<close>

lemma leading_ones_CIDRMask: "n \<le> 32 \<Longrightarrow> leading_ones (concat (List.map byte_bits (CIDRMask n 32))) = Some n"
proof -
  assume "n \<le> 32"
  have "list_all (\<lambda>n. leading_ones (concat (List.map byte_bits (CIDRMask n 32))) = Some n) [0..<33]"
    by code_simp
  with \<open>n \<le> 32\<close> show ?thesis by (simp add: list_all_iff)
qed

lemma IPNet_String_v4:
  "length b = 4 \<Longrightarrow> n \<le> 32 \<Longrightarrow>
   IPNet_String \<lparr>IPNet_IP = v4InV6Prefix @ b, IPNet_Mask = CIDRMask n 32\<rparr> = cidr_text b n"
  by (simp add: IPNet_String_def To4_prefixed IP_String_v4 cidr_text_def leading_ones_CIDRMask Let_def)
     (simp add: CIDRMask_32)

text \<open>The result for the address \<open>b/n\<close> with gateway \<open>g\<close>.\<close>

definition v4_result :: "bytes \<Rightarrow> nat \<Rightarrow> bytes \<Rightarrow> Result" where
  "v4_result b n g = \<lparr>cr_CNIVersion = ''0.2.0'',
     cr_IP4 = Some \<lparr>ic_IP = \<lparr>IPNet_IP = v4InV6Prefix @ b, IPNet_Mask = CIDRMask n 32\<rparr>, ic_Gateway = v4InV6Prefix @ g\<rparr>,
     cr_IP6 = None\<rparr>"

lemma v4_result_roundtrip:
  assumes "length b = 4" "n \<le> 32" "length g = 4"
  shows "\<exists>v. Result_json (v4_result b n g) = Some v \<and>
    Unmarshal Result_fields Result_zero (show_json v) = Some (v4_result b n g)"
proof -
  have ne: "v4InV6Prefix @ g \<noteq> []" "dotted g \<noteq> []" by (auto simp: v4InV6Prefix_def)
  let ?v = "JObj [(''cniVersion'', js ''0.2.0''),
     (''ip4'', JObj [(''ip'', js (cidr_text b n)), (''gateway'', js (dotted g))]), (''dns'', JObj [])]"
  have enc: "Result_json (v4_result b n g) = Some ?v"
    using assms ne by (simp add: Result_json_def v4_result_def opt_config_def IPConfig_json_def opt_string_def
        IPNet_String_v4 IP_String_prefixed)
  have wf: "wf_json ?v" by (simp add: key_escape esc_char_def)
  have "Unmarshal Result_fields Result_zero (show_json ?v) = Some (v4_result b n g)"
    unfolding Unmarshal_show [OF wf] using assms ne
    by (simp add: set_struct_def find_field_def Result_fields_def Result_zero_def as_config_def IPConfig_fields_def
        IPConfig_zero_def as_ipnet_def as_ip_def js_def ParseCIDR_text ParseIP_dotted v4_net_def v4_result_def
        as_string_def del: ParseIP.simps)
  with enc show ?thesis by blast
qed

text \<open>The text of a CIDR is not JSON: nothing can be read back from it.\<close>

lemma span_digits_itoa_dot: "span_digits (itoa a @ CHR ''.'' # t) = (itoa a, CHR ''.'' # t)"
proof -
  have "\<not> is_digit CHR ''.''" by (simp add: go_simps)
  moreover have "takeWhile is_digit (itoa a @ CHR ''.'' # t) = itoa a @ takeWhile is_digit (CHR ''.'' # t)"
    and "dropWhile is_digit (itoa a @ CHR ''.'' # t) = dropWhile is_digit (CHR ''.'' # t)"
    using itoa_digits [of _ a] by (auto simp: takeWhile_append dropWhile_append)
  ultimately show ?thesis by (simp add: span_digits_def)
qed

lemma scan_number_dots:
  "scan_number (itoa a @ CHR ''.'' # itoa b @ CHR ''.'' # t) = Some (itoa a @ CHR ''.'' # itoa b, CHR ''.'' # t)"
proof -
  have m: "hd (itoa a) \<noteq> CHR ''-''" using hd_itoa_digit [of a] by (auto simp: is_digit_def)
  have z: "\<not> (hd (itoa a) = CHR ''0'' \<and> 1 < length (itoa a))" using hd_itoa_zero [of a] by auto
  show ?thesis
    using m z by (simp add: scan_number_def scan_frac_def scan_exp_def span_digits_itoa_dot)
qed

lemma json_parse_cidr: "json_parse (cidr_text b n) = None"
proof -
  obtain c s where c: "itoa (unat (b ! 0)) = c # s" by (cases "itoa (unat (b ! 0))") auto
  then have d: "is_digit c" using itoa_digits [of c "unat (b ! 0)"] by simp
  then have nc: "c \<notin> {CHR 0x22, CHR ''['', CHR ''{'', CHR ''t'', CHR ''f'', CHR ''n''}"
    by (auto simp: is_digit_def)
  define t where "t = itoa (unat (b ! 2)) @ CHR ''.'' # itoa (unat (b ! 3)) @ CHR ''/'' # itoa n"
  have eq: "cidr_text b n = c # s @ CHR ''.'' # itoa (unat (b ! 1)) @ CHR ''.'' # t"
    by (simp add: cidr_text_def dotted_def t_def c)
  have num: "scan_number (cidr_text b n) = Some (c # s @ CHR ''.'' # itoa (unat (b ! 1)), CHR ''.'' # t)"
    using scan_number_dots [of "unat (b ! 0)" "unat (b ! 1)" t] by (simp add: eq c)
  have "parse_value (Suc k) (cidr_text b n) = Some (JNum (c # s @ CHR ''.'' # itoa (unat (b ! 1))), CHR ''.'' # t)" for k
    using num d nc by (simp add: eq skip_ws_def scan_scalar_def)
  moreover have "skip_ws (CHR ''.'' # t) \<noteq> []" by (simp add: skip_ws_def is_ws_def)
  ultimately show ?thesis by (simp add: json_parse_def del: parse_value.simps)
qed

end
