(* ===== verification/Duration.thy ===== *)
theory Duration
  imports Prelude
begin

text \<open>
  \<open>time.ParseDuration\<close> of Go 1.8, which reads the timeout of the etcd clients: a sign and a
  sequence of decimal numbers with units, as \<open>1h30m\<close> or \<open>2.5s\<close>. A duration is its number of
  nanoseconds. The \<open>int64\<close> values of the code are natural numbers here, with the code's overflow
  checks as bounds. Which text an error has does not matter to the program: an error is \<open>None\<close>.
\<close>

subsection \<open>The parts of a number\<close>

definition max_int64 :: nat where
  "max_int64 = 2 ^ 63 - 1"

text \<open>\<open>leadingInt\<close>: the digits at the start, unless their number overflows.\<close>

fun leadingInt :: "string \<Rightarrow> nat \<Rightarrow> (nat \<times> string) option" where
  "leadingInt [] x = Some (x, [])"
| "leadingInt (c # s) x =
     (if \<not> is_digit c then Some (x, c # s)
      else if max_int64 div 10 < x \<or> max_int64 < x * 10 + digit_val c then None
      else leadingInt s (x * 10 + digit_val c))"

text \<open>\<open>leadingFraction\<close>: after an overflow the digits are skipped.\<close>

fun leadingFraction :: "string \<Rightarrow> nat \<Rightarrow> nat \<Rightarrow> bool \<Rightarrow> nat \<times> nat \<times> string" where
  "leadingFraction [] x scale overflow = (x, scale, [])"
| "leadingFraction (c # s) x scale overflow =
     (if \<not> is_digit c then (x, scale, c # s)
      else if overflow \<or> max_int64 div 10 < x \<or> max_int64 < x * 10 + digit_val c then leadingFraction s x scale True
      else leadingFraction s (x * 10 + digit_val c) (scale * 10) False)"

text \<open>
  \<open>int64(float64(f) * (float64(unit) / scale))\<close>. A \<open>float64\<close> has 53 significant bits and rounds
  to nearest, ties to even. The quotient is kept as a multiple of \<open>2 ^ -129\<close>, with its last bit
  for the remainder: it has more than 60 significant bits, so rounding it to 53 is not affected. The
  units and the scale, a power of ten of at most 19 digits, are exact.
\<close>

fun bit_length :: "nat \<Rightarrow> nat" where
  "bit_length n = (if n = 0 then 0 else Suc (bit_length (n div 2)))"

declare bit_length.simps [simp del]

definition round53 :: "nat \<Rightarrow> nat" where
  "round53 n =
     (let s = bit_length n - 53; q = n div 2 ^ s; r = n mod 2 ^ s
      in (if 2 ^ s < 2 * r \<or> 2 * r = 2 ^ s \<and> odd q then q + 1 else q) * 2 ^ s)"

definition float_quotient :: "nat \<Rightarrow> nat \<Rightarrow> nat" where
  "float_quotient unit scale =
     round53 (2 * (unit * 2 ^ 128 div scale) + (if unit * 2 ^ 128 mod scale = 0 then 0 else 1))"

definition fraction_of :: "nat \<Rightarrow> nat \<Rightarrow> nat \<Rightarrow> nat" where
  "fraction_of f unit scale = round53 (round53 f * float_quotient unit scale) div 2 ^ 129"

subsection \<open>The parser\<close>

text \<open>The names of microseconds are also written with the micro sign and with the Greek letter, in UTF-8.\<close>

definition unitMap :: "string \<Rightarrow> nat option" where
  "unitMap = [''ns'' \<mapsto> 1, ''us'' \<mapsto> 1000,
     [CHR 0xC2, CHR 0xB5, CHR ''s''] \<mapsto> 1000, [CHR 0xCE, CHR 0xBC, CHR ''s''] \<mapsto> 1000,
     ''ms'' \<mapsto> 1000000, ''s'' \<mapsto> 1000000000, ''m'' \<mapsto> 60000000000, ''h'' \<mapsto> 3600000000000]"

text \<open>A number: its whole part, its fraction with the scale, and whether there was a digit.\<close>

definition duration_number :: "string \<Rightarrow> (nat \<times> nat \<times> nat \<times> bool \<times> string) option" where
  "duration_number s =
     (case leadingInt s 0 of
        None \<Rightarrow> None
      | Some (v, s1) \<Rightarrow>
          let pre = (length s1 \<noteq> length s)
          in (case s1 of
                c # s2 \<Rightarrow>
                  if c = CHR ''.'' then
                    (case leadingFraction s2 0 1 False of
                       (f, scale, s3) \<Rightarrow> Some (v, f, scale, pre \<or> length s3 \<noteq> length s2, s3))
                  else Some (v, 0, 1, pre, s1)
              | [] \<Rightarrow> Some (v, 0, 1, pre, s1)))"

text \<open>One number with its unit: the nanoseconds and the rest of the text.\<close>

definition duration_item :: "string \<Rightarrow> (nat \<times> string) option" where
  "duration_item s =
     (if \<not> (hd s = CHR ''.'' \<or> is_digit (hd s)) then None
      else
        (case duration_number s of
           None \<Rightarrow> None
         | Some (v, f, scale, digits, s) \<Rightarrow>
             if \<not> digits then None
             else
               let in_unit = (\<lambda>c. c \<noteq> CHR ''.'' \<and> \<not> is_digit c);
                   u = takeWhile in_unit s
               in if u = [] then None
                  else
                    (case unitMap u of
                       None \<Rightarrow> None
                     | Some unit \<Rightarrow>
                         if max_int64 div unit < v then None
                         else
                           let v = v * unit + (if 0 < f then fraction_of f unit scale else 0)
                           in if max_int64 < v then None else Some (v, dropWhile in_unit s))))"

lemma leadingInt_length: "leadingInt s x = Some (v, s') \<Longrightarrow> length s' \<le> length s"
  by (induction s x rule: leadingInt.induct) (auto split: if_splits)

lemma leadingFraction_length: "leadingFraction s x sc ov = (f, sc', s') \<Longrightarrow> length s' \<le> length s"
  by (induction s x sc ov rule: leadingFraction.induct) (auto split: if_splits)

lemma duration_number_length:
  assumes "duration_number s = Some (v, f, scale, digits, s')"
  shows "length s' \<le> length s"
  using assms leadingInt_length [of s 0] leadingFraction_length
  by (fastforce simp: duration_number_def Let_def split: option.splits list.splits if_splits prod.splits)

lemma length_dropWhile_less: "takeWhile P s \<noteq> [] \<Longrightarrow> length (dropWhile P s) < length s"
  by (cases s) (auto simp: le_imp_less_Suc length_dropWhile_le split: if_splits)

lemma duration_item_length:
  assumes "duration_item s = Some (v, s')"
  shows "length s' < length s"
proof -
  from assms obtain v0 f scale s1 where n: "duration_number s = Some (v0, f, scale, True, s1)"
    and s': "s' = dropWhile (\<lambda>c. c \<noteq> CHR ''.'' \<and> \<not> is_digit c) s1"
    and u: "takeWhile (\<lambda>c. c \<noteq> CHR ''.'' \<and> \<not> is_digit c) s1 \<noteq> []"
    by (auto simp: duration_item_def Let_def split: if_splits option.splits prod.splits)
  from length_dropWhile_less [OF u] duration_number_length [OF n] s' show ?thesis by simp
qed

text \<open>The numbers are added up; \<open>d\<close> is the sum so far.\<close>

function duration_loop :: "nat \<Rightarrow> string \<Rightarrow> nat option" where
  "duration_loop d s =
     (if s = [] then Some d
      else
        (case duration_item s of
           None \<Rightarrow> None
         | Some (v, s') \<Rightarrow> if max_int64 < d + v then None else duration_loop (d + v) s'))"
  by pat_completeness auto
termination
  by (relation "measure (\<lambda>(d, s). length s)") (auto dest: duration_item_length)

declare duration_loop.simps [simp del]

definition ParseDuration :: "string \<Rightarrow> int option" where
  "ParseDuration s =
     (let neg = (s \<noteq> [] \<and> hd s = CHR ''-'');
          s = (if s \<noteq> [] \<and> (hd s = CHR ''-'' \<or> hd s = CHR ''+'') then tl s else s)
      in if s = ''0'' then Some 0
         else if s = [] then None
         else
           (case duration_loop 0 s of
              None \<Rightarrow> None
            | Some d \<Rightarrow> Some (if neg then - int d else int d)))"

subsection \<open>What it reads\<close>

lemma duration_loop_bound: "duration_loop d s = Some d' \<Longrightarrow> d \<le> max_int64 \<Longrightarrow> d' \<le> max_int64"
proof (induction d s rule: duration_loop.induct)
  case (1 d s)
  show ?case
  proof (cases "s = []")
    case True
    with 1(2,3) show ?thesis by (simp add: duration_loop.simps)
  next
    case False
    with 1(2) obtain v s' where "duration_item s = Some (v, s')" "d + v \<le> max_int64" "duration_loop (d + v) s' = Some d'"
      by (subst (asm) (1) duration_loop.simps) (auto split: option.splits if_splits)
    with 1(1) [OF False] show ?thesis by simp
  qed
qed

lemma ParseDuration_bound: "ParseDuration s = Some d \<Longrightarrow> \<bar>d\<bar> < 2 ^ 63"
  using duration_loop_bound [of 0] by (fastforce simp: ParseDuration_def Let_def max_int64_def split: if_splits option.splits)

lemma leadingInt_itoa:
  assumes "rest = [] \<or> \<not> is_digit (hd rest)"
  shows "leadingInt (itoa n @ rest) 0 = (if n \<le> max_int64 then Some (n, rest) else None)"
proof -
  have "leadingInt (itoa n @ rest) 0 = (if n \<le> max_int64 then leadingInt rest n else None)" for rest
  proof (induction n arbitrary: rest rule: itoa.induct)
    case (1 n)
    have d: "n mod 10 < 10" and e: "n div 10 * 10 + n mod 10 = n" by simp_all
    show ?case
    proof (cases "n < 10")
      case True
      then show ?thesis by (simp add: itoa.simps [of n] go_simps max_int64_def)
    next
      case False
      have "n div 10 \<le> max_int64 \<and> \<not> (max_int64 div 10 < n div 10 \<or> max_int64 < n) \<longleftrightarrow> n \<le> max_int64"
        by (auto simp: max_int64_def div_le_mono)
      with 1 [OF False] False d e show ?thesis
        by (auto simp: itoa.simps [of n] go_simps)
    qed
  qed
  from this [of rest] assms show ?thesis by (cases rest) auto
qed

lemma itoa_0: "itoa 0 = ''0''"
  by code_simp

lemma ParseDuration_number:
  assumes "u = [] \<or> \<not> is_digit (hd u) \<and> hd u \<noteq> CHR ''.''" and "u \<noteq> [] \<or> n \<noteq> 0"
  shows "ParseDuration (itoa n @ u) = (case duration_item (itoa n @ u) of
     None \<Rightarrow> None | Some (v, s) \<Rightarrow> if max_int64 < v then None else map_option int (duration_loop v s))"
proof -
  obtain c s where i: "itoa n = c # s" by (cases "itoa n") auto
  then have c: "is_digit c" using itoa_digits [of c n] by simp
  then have "c \<noteq> CHR ''-''" "c \<noteq> CHR ''+''" by (auto simp: is_digit_def)
  moreover have "itoa n @ u \<noteq> ''0''"
  proof
    assume z: "itoa n @ u = ''0''"
    then have "u = []" "itoa n = itoa 0" using i by (auto simp: itoa_0)
    then have "n = 0" by (metis decimal_loop.simps(1) decimal_loop_itoa append_Nil2 option.inject)
    with assms(2) \<open>u = []\<close> show False by simp
  qed
  ultimately show ?thesis
    using i by (auto simp: ParseDuration_def duration_loop.simps [of 0] Let_def split: option.splits)
qed

lemma duration_item_unit:
  assumes "u = [] \<or> \<not> is_digit (hd u) \<and> hd u \<noteq> CHR ''.''" and "list_all (\<lambda>c. c \<noteq> CHR ''.'' \<and> \<not> is_digit c) u"
  shows "duration_item (itoa n @ u) = (case unitMap u of
     None \<Rightarrow> None | Some unit \<Rightarrow> if n \<le> max_int64 \<and> n \<le> max_int64 div unit \<and> n * unit \<le> max_int64 then Some (n * unit, []) else None)"
proof -
  have d: "is_digit (hd (itoa n @ u))" using hd_itoa_digit [of n] by simp
  have t: "takeWhile (\<lambda>c. c \<noteq> CHR ''.'' \<and> \<not> is_digit c) u = u" "dropWhile (\<lambda>c. c \<noteq> CHR ''.'' \<and> \<not> is_digit c) u = []"
    using assms(2) by (simp_all add: list_all_iff)
  have "unitMap [] = None" by (simp add: unitMap_def)
  then have "duration_number (itoa n @ u) = (if n \<le> max_int64 then Some (n, 0, 1, True, u) else None)"
    using assms(1) leadingInt_itoa [of u n] by (cases u) (auto simp: duration_number_def Let_def)
  then have "duration_item (itoa n @ u) = (if n \<le> max_int64 then
      (if u = [] then None else (case unitMap u of None \<Rightarrow> None
       | Some unit \<Rightarrow> if max_int64 div unit < n then None else if max_int64 < n * unit then None else Some (n * unit, []))) else None)"
    unfolding duration_item_def using d t
    by (simp only: Let_def option.case prod.case if_True if_False simp_thms less_irrefl add_0_right split: if_split) blast
  with \<open>unitMap [] = None\<close> show ?thesis
    by (cases "u = []"; cases "unitMap u") auto
qed

lemma ParseDuration_seconds:
  "ParseDuration (itoa n @ ''s'') = (if n \<le> 9223372036 then Some (int n * 1000000000) else None)"
proof -
  have "duration_item (itoa n @ ''s'') = (if n \<le> 9223372036 then Some (n * 1000000000, []) else None)"
    by (subst duration_item_unit) (auto simp: is_digit_def unitMap_def max_int64_def)
  with ParseDuration_number [of "''s''" n] show ?thesis
    by (auto simp: is_digit_def duration_loop.simps max_int64_def)
qed

lemma ParseDuration_bare: "ParseDuration (itoa n) = (if n = 0 then Some 0 else None)"
proof (cases "n = 0")
  case True
  then show ?thesis by (simp add: itoa_0 ParseDuration_def)
next
  case False
  have "duration_item (itoa n) = None"
    using duration_item_unit [of "[]" n] by (simp add: unitMap_def)
  with False ParseDuration_number [of "[]" n] show ?thesis by simp
qed

end
