(* ===== verification/World.thy ===== *)
theory World
  imports MidoTypes Duration
begin

text \<open>
  What the program talks to. The etcd cluster, the MidoNet API server and the host are not
  part of the repository: they are a parameter, the record \<open>env\<close>, of every operation that
  uses them. A service answers a request as an arbitrary function of everything that was
  exchanged before (the history), so a theorem that holds for every \<open>env\<close> holds whatever
  the services answer, and whatever other processes do to them in between. Every request
  made and the answer to it is appended to the history, so a theorem can say which calls
  an operation makes, in which order.

  \<open>etcd_new\<close> and \<open>v3_new\<close> say whether the client libraries accept a configuration.

  An operation is a function of the history to its result and the new history; one that may
  not return gives an option, with \<open>None\<close> for a call that never returns.
\<close>

subsection \<open>The keys API of the etcd client (\<open>vendor/github.com/coreos/etcd/client/keys.go\<close>)\<close>

definition ErrorCodeKeyNotFound :: int where "ErrorCodeKeyNotFound = 100"
definition ErrorCodeNodeExist :: int where "ErrorCodeNodeExist = 105"

datatype Node =
  Node (node_Key: string) (node_Value: string) (node_Dir: bool) (node_Nodes: "Node list")

record Response =
  re_Action :: string
  re_Node :: "Node option"
  re_Index :: nat

text \<open>
  The requests: \<open>Get\<close> with its \<open>Recursive\<close> option, \<open>Set\<close> with \<open>PrevExist\<close> being
  \<open>PrevNoExist\<close> and the time to live in seconds (0 for none), \<open>Update\<close>, \<open>Delete\<close> with
  \<open>Dir\<close> and \<open>Recursive\<close>, and \<open>Next\<close> of a watcher of a key after an index.
\<close>

datatype etcd_req =
    KeysGet string bool
  | KeysSet string string bool nat
  | KeysUpdate string string
  | KeysDelete string bool bool
  | WatchNext string nat

type_synonym etcd_answer = "go_error + Response"

subsection \<open>The MidoNet REST API\<close>

text \<open>
  One constructor per request the client sends: method, path and the structure in the body.
  The path of \<open>DeleteRoute\<close> has no router in version 5 of the API.
\<close>

datatype mido_req =
    PostBridge Bridge
  | DeleteBridge UUID
  | PostBridgePort "UUID option" BridgePort
  | PostRouterPort "UUID option" RouterPort
  | DeletePort UUID
  | PostPortLink UUID UUID
  | DeletePortLink UUID
  | PostRouter Router
  | DeleteRouter UUID
  | PostRoute UUID Route
  | DeleteRoute "UUID option" UUID
  | PostChain Chain
  | DeleteChain UUID
  | PostRule UUID Rule
  | DeleteRule UUID
  | PostBinding UUID HostInterfacePort
  | DeleteBinding UUID UUID
  | Login string string string
  | GetRouters string
  | GetRouterPorts UUID
  | GetRouterPeerPorts UUID

text \<open>
  An answer: the HTTP status and the body, which is a text, or the list asked for. A list is
  \<open>None\<close> when the body does not decode as one or is \<open>null\<close>, an element is \<open>None\<close> when it is
  \<open>null\<close>.
\<close>

datatype mido_body =
    BodyText string
  | BodyRouters "Router option list option"
  | BodyPorts "RouterPort option list option"

type_synonym mido_answer = "go_error + int \<times> mido_body"

subsection \<open>The host\<close>

text \<open>
  Files, the environment, shell commands, and the network devices the plugin sets up through
  the \<open>netlink\<close>, \<open>ns\<close> and \<open>ip\<close> packages; the devices are those of the network namespace
  entered last. \<open>OpenLog\<close> opens the plugin's log file in a directory. An answer is an error or a text (the contents of a
  file, the output of a command; empty for the others).
\<close>

datatype host_req =
    Stat string
  | ReadFile string
  | MkdirAll string
  | Mkdir string
  | OpenLog string
  | Symlink string string
  | RemoveFile string
  | Setenv string string
  | Exec string
  | EnterNetns string
  | LeaveNetns
  | LinkByName string
  | LinkSetDown string
  | LinkSetUp string
  | LinkSetName string string
  | LinkAddVeth string string int
  | LinkSetNs string
  | AddrAdd string IPNet
  | RouteDel IPNet
  | AddDefaultRoute IP string
  | RouteAdd IPNet IP
  | WriteStdout string

type_synonym host_answer = "go_error + string"

subsection \<open>The region API\<close>

text \<open>
  A \<open>POST\<close> to an address, with a token and a body; the answer is an error, or a status and
  what reading the body of the response gives.
\<close>

type_synonym region_req = "string \<times> string \<times> string"
type_synonym region_answer = "go_error + int \<times> (go_error + string)"

text \<open>The connection data of the etcd client.\<close>

record ETCDConf =
  ec_URLs :: "string list"
  ec_Username :: string
  ec_Password :: string
  ec_PeerTimeOut :: string

text \<open>What the client libraries are given: the \<open>Config\<close> of the etcd client and the one of the v3 client.\<close>

record ClientConfig =
  cl_Endpoints :: "string list"
  cl_HeaderTimeoutPerRequest :: int
  cl_Username :: string
  cl_Password :: string

record V3Config =
  v3_Endpoints :: "string list"
  v3_Username :: string
  v3_Password :: string
  v3_DialTimeout :: int

subsection \<open>Histories and environments\<close>

text \<open>
  \<open>V3Ev\<close> is a \<open>Get\<close> with a prefix of the etcd v3 client, answered by keys and values.
\<close>

datatype event =
    EtcdEv etcd_req etcd_answer
  | V3Ev string "go_error + (string \<times> string) list"
  | RegionEv region_req region_answer
  | MidoEv mido_req mido_answer
  | HostEv host_req host_answer
  | UuidEv UUID

type_synonym history = "event list"

record env =
  etcd_srv :: "history \<Rightarrow> etcd_req \<Rightarrow> etcd_answer"
  etcd_new :: "ClientConfig \<Rightarrow> go_error option"
  v3_srv :: "history \<Rightarrow> string \<Rightarrow> go_error + (string \<times> string) list"
  v3_new :: "V3Config \<Rightarrow> go_error option"
  mido_srv :: "history \<Rightarrow> mido_req \<Rightarrow> mido_answer"
  host_srv :: "history \<Rightarrow> host_req \<Rightarrow> host_answer"
  random_srv :: "history \<Rightarrow> bytes"
  hostname_srv :: "string option"
  stamp_srv :: "history \<Rightarrow> string"
  region_srv :: "history \<Rightarrow> region_req \<Rightarrow> region_answer"

definition etcd_call :: "env \<Rightarrow> etcd_req \<Rightarrow> history \<Rightarrow> etcd_answer \<times> history" where
  "etcd_call E r tr = (let a = etcd_srv E tr r in (a, tr @ [EtcdEv r a]))"

definition mido_call :: "env \<Rightarrow> mido_req \<Rightarrow> history \<Rightarrow> mido_answer \<times> history" where
  "mido_call E r tr = (let a = mido_srv E tr r in (a, tr @ [MidoEv r a]))"

definition host_call :: "env \<Rightarrow> host_req \<Rightarrow> history \<Rightarrow> host_answer \<times> history" where
  "host_call E r tr = (let a = host_srv E tr r in (a, tr @ [HostEv r a]))"

definition region_call :: "env \<Rightarrow> region_req \<Rightarrow> history \<Rightarrow> region_answer \<times> history" where
  "region_call E r tr = (let a = region_srv E tr r in (a, tr @ [RegionEv r a]))"

text \<open>
  The timeout of a client, in nanoseconds: none for an empty text, a second for one that is not a
  duration.
\<close>

definition peer_timeout :: "string \<Rightarrow> int" where
  "peer_timeout s =
     (if s \<noteq> [] then (case ParseDuration s of None \<Rightarrow> 1000000000 | Some d \<Rightarrow> d) else 0)"

text \<open>
  \<open>CreateETCDClient\<close>: the client library checks the configuration; no request is made. The
  package \<open>types\<close> has a copy of it, \<open>createETCDClient\<close>, and the one for the v3 client.
\<close>

definition CreateETCDClient :: "env \<Rightarrow> ETCDConf \<Rightarrow> go_error option" where
  "CreateETCDClient E conf =
     etcd_new E \<lparr>cl_Endpoints = ec_URLs conf, cl_HeaderTimeoutPerRequest = peer_timeout (ec_PeerTimeOut conf),
       cl_Username = ec_Username conf, cl_Password = ec_Password conf\<rparr>"

definition createETCDClient :: "env \<Rightarrow> ETCDConf \<Rightarrow> go_error option" where
  "createETCDClient E conf =
     etcd_new E \<lparr>cl_Endpoints = ec_URLs conf, cl_HeaderTimeoutPerRequest = peer_timeout (ec_PeerTimeOut conf),
       cl_Username = ec_Username conf, cl_Password = ec_Password conf\<rparr>"

definition CreateETCDV3Client :: "env \<Rightarrow> ETCDConf \<Rightarrow> go_error option" where
  "CreateETCDV3Client E conf =
     v3_new E \<lparr>v3_Endpoints = ec_URLs conf, v3_Username = ec_Username conf, v3_Password = ec_Password conf,
       v3_DialTimeout = peer_timeout (ec_PeerTimeOut conf)\<rparr>"

text \<open>\<open>types.CreateUUID\<close>: a version-4 UUID from the host's random source.\<close>

definition CreateUUID :: "env \<Rightarrow> history \<Rightarrow> UUID \<times> history" where
  "CreateUUID E tr = (let u = version4 (random_srv E tr) in (u, tr @ [UuidEv u]))"

abbreviation Keys_Get :: "env \<Rightarrow> string \<Rightarrow> bool \<Rightarrow> history \<Rightarrow> etcd_answer \<times> history" where
  "Keys_Get E key rec \<equiv> etcd_call E (KeysGet key rec)"

abbreviation Keys_Set :: "env \<Rightarrow> string \<Rightarrow> string \<Rightarrow> history \<Rightarrow> etcd_answer \<times> history" where
  "Keys_Set E key val \<equiv> etcd_call E (KeysSet key val False 0)"

abbreviation Keys_Delete :: "env \<Rightarrow> string \<Rightarrow> history \<Rightarrow> etcd_answer \<times> history" where
  "Keys_Delete E key \<equiv> etcd_call E (KeysDelete key False False)"

text \<open>The type test \<open>err.(client.Error)\<close> and the code of such an error.\<close>

definition client_error_code :: "go_error \<Rightarrow> int option" where
  "client_error_code err = (case err of EtcdError c _ \<Rightarrow> Some c | _ \<Rightarrow> None)"

definition IsKeyNotFound :: "go_error \<Rightarrow> bool" where
  "IsKeyNotFound err \<longleftrightarrow> client_error_code err = Some ErrorCodeKeyNotFound"

text \<open>\<open>err.Error()\<close>; the cause and the index of an etcd error are left out.\<close>

definition error_text :: "go_error \<Rightarrow> string" where
  "error_text err =
     (case err of
        ErrorString s \<Rightarrow> s
      | EtcdError c m \<Rightarrow> itoa_int c @ '': '' @ m
      | ClusterError s \<Rightarrow> s
      | CtxCanceled \<Rightarrow> ''context canceled''
      | CtxDeadlineExceeded \<Rightarrow> ''context deadline exceeded''
      | OtherError s \<Rightarrow> s)"

text \<open>\<open>os.IsNotExist\<close>, by the text of the system's error.\<close>

definition IsNotExist :: "go_error \<Rightarrow> bool" where
  "IsNotExist e \<longleftrightarrow> has_suffix (error_text e) ''no such file or directory''"

lemma etcd_call_eq: "etcd_call E r tr = (etcd_srv E tr r, tr @ [EtcdEv r (etcd_srv E tr r)])"
  by (simp add: etcd_call_def Let_def)

lemma mido_call_eq: "mido_call E r tr = (mido_srv E tr r, tr @ [MidoEv r (mido_srv E tr r)])"
  by (simp add: mido_call_def Let_def)

lemma host_call_eq: "host_call E r tr = (host_srv E tr r, tr @ [HostEv r (host_srv E tr r)])"
  by (simp add: host_call_def Let_def)

lemma region_call_eq: "region_call E r tr = (region_srv E tr r, tr @ [RegionEv r (region_srv E tr r)])"
  by (simp add: region_call_def Let_def)

lemma fst_etcd_call [simp]: "fst (etcd_call E r tr) = etcd_srv E tr r"
  by (simp add: etcd_call_eq)

lemma snd_etcd_call [simp]: "snd (etcd_call E r tr) = tr @ [EtcdEv r (etcd_srv E tr r)]"
  by (simp add: etcd_call_eq)

subsection \<open>Which requests a history holds\<close>

text \<open>
  \<open>etcd_only tr tr'\<close>: what was added to the history are requests to etcd.
\<close>

definition is_etcd :: "event \<Rightarrow> bool" where
  "is_etcd e = (case e of EtcdEv _ _ \<Rightarrow> True | _ \<Rightarrow> False)"

definition etcd_only :: "history \<Rightarrow> history \<Rightarrow> bool" where
  "etcd_only tr tr' \<longleftrightarrow> (\<exists>evs. tr' = tr @ evs \<and> list_all is_etcd evs)"

lemma is_etcd_EtcdEv [simp]: "is_etcd (EtcdEv r a)"
  by (simp add: is_etcd_def)

lemma etcd_only_refl [simp, shape]: "etcd_only tr tr"
  by (simp add: etcd_only_def)

lemma etcd_only_trans [trans]: "etcd_only a b \<Longrightarrow> etcd_only b c \<Longrightarrow> etcd_only a c"
  by (auto simp: etcd_only_def)

lemma etcd_only_append [simp]: "etcd_only tr (tr @ evs) \<longleftrightarrow> list_all is_etcd evs"
  by (auto simp: etcd_only_def)

lemma etcd_only_snoc: "etcd_only a b \<Longrightarrow> etcd_only a (b @ [EtcdEv r x])"
  by (erule etcd_only_trans) simp

definition event_req :: "event \<Rightarrow> etcd_req option" where
  "event_req e = (case e of EtcdEv q _ \<Rightarrow> Some q | _ \<Rightarrow> None)"

text \<open>The events are those requests to etcd, in that order, and no others.\<close>

definition requests :: "history \<Rightarrow> etcd_req list \<Rightarrow> bool" where
  "requests evs qs \<longleftrightarrow> List.map event_req evs = List.map Some qs"

lemma event_req_simps [simp]: "event_req (EtcdEv q a) = Some q"
  by (simp add: event_req_def)

lemma requests_Nil [simp]: "requests [] []"
  by (simp add: requests_def)

lemma requests_Cons [simp]: "requests (EtcdEv q a # evs) qs \<longleftrightarrow> (\<exists>qs'. qs = q # qs' \<and> requests evs qs')"
  by (cases qs) (auto simp: requests_def)

lemma requests_append: "requests evs qs \<Longrightarrow> requests evs' qs' \<Longrightarrow> requests (evs @ evs') (qs @ qs')"
  by (simp add: requests_def)

lemma client_error_code_simps [simp]:
  "client_error_code (EtcdError c m) = Some c"
  "client_error_code (ErrorString s) = None"
  "client_error_code (OtherError s) = None"
  "client_error_code (ClusterError s) = None"
  "client_error_code CtxCanceled = None"
  "client_error_code CtxDeadlineExceeded = None"
  by (simp_all add: client_error_code_def)

end
