(* ===== verification/Client.thy ===== *)
theory Client
  imports Records World
begin

text \<open>
  The vendored MidoNet client (\<open>vendor/github.com/barnettzqg/golang-midonetclient/midonet\<close>),
  the operations the program uses. Each checks its arguments, gives new resources an
  identifier, sends one request and looks at the status. The MidoNet API is the parameter
  \<open>mido_srv\<close>. Which of the configured endpoints a request goes to, and its headers, are
  left out; so is what \<open>fmt.Errorf\<close> makes of percent signs in the body of an error.

  Creating a resource changes the structure its pointer refers to: the operation gives the
  structure back.
\<close>

record Client =
  cl_version :: int
  cl_token :: string
  cl_endpoints :: "string list"

definition body_text :: "mido_body \<Rightarrow> string" where
  "body_text b = (case b of BodyText s \<Rightarrow> s | _ \<Rightarrow> [])"

text \<open>
  What follows the construction of a request in every operation: nil when the status is
  2xx, otherwise the error, or the body as one (\<open>resultErr\<close>).
\<close>

definition ok_status :: "int \<Rightarrow> bool" where
  "ok_status s \<longleftrightarrow> s div 100 = 2"

definition send :: "env \<Rightarrow> mido_req \<Rightarrow> history \<Rightarrow> go_error option \<times> history" where
  "send E q tr =
     (case mido_call E q tr of (res, tr) \<Rightarrow>
        case res of
          Inl err \<Rightarrow> (Some err, tr)
        | Inr (status, body) \<Rightarrow>
            if ok_status status then (None, tr) else (Some (ErrorString (body_text body)), tr))"

text \<open>\<open>if x.ID == nil { x.ID = types.CreateUUID() }\<close>\<close>

definition fresh_id :: "env \<Rightarrow> UUID option \<Rightarrow> history \<Rightarrow> UUID \<times> history" where
  "fresh_id E i tr = (case i of Some u \<Rightarrow> (u, tr) | None \<Rightarrow> CreateUUID E tr)"

subsection \<open>Logging in\<close>

record Token =
  tk_Key :: string

definition Token_fields :: "Token field list" where
  "Token_fields = [(''key'', as_string (\<lambda>s t. t\<lparr>tk_Key := s\<rparr>)), (''expires'', ignored as_string)]"

text \<open>\<open>Decoder.Decode\<close> reads the first value of a text and leaves the rest.\<close>

definition json_first :: "string \<Rightarrow> json option" where
  "json_first s = map_option fst (parse_value (Suc (2 * length s)) s)"

text \<open>
  \<open>login\<close>: a status other than 200 returns the variable \<open>err\<close>, which is nil then; the client
  is left without a token.
\<close>

definition login :: "env \<Rightarrow> MidoNetAPIConf \<Rightarrow> Client \<Rightarrow> history \<Rightarrow> (go_error option \<times> Client) \<times> history" where
  "login E conf c tr =
     (case mido_call E (Login (mc_UserName conf) (mc_PassWord conf) (mc_ProjectID conf)) tr of (res, tr) \<Rightarrow>
        case res of
          Inl err \<Rightarrow> ((Some err, c), tr)
        | Inr (status, body) \<Rightarrow>
            if status \<noteq> 200 then ((None, c), tr)
            else
              (case Option.bind (json_first (body_text body)) (\<lambda>v. set_struct Token_fields v \<lparr>tk_Key = []\<rparr>) of
                 None \<Rightarrow> ((Some (OtherError ''invalid login response''), c), tr)
               | Some t \<Rightarrow>
                   if tk_Key t \<noteq> [] then ((None, c\<lparr>cl_token := tk_Key t\<rparr>), tr)
                   else ((Some (ErrorString (''Don'' @ [CHR 0x27] @ ''t Get key After Login'')), c), tr)))"

text \<open>
  \<open>NewClient\<close> copies the configuration, but the copy shares its list of addresses with the
  caller's: appending to the addresses changes both. The result is the caller's
  configuration too.
\<close>

definition NewClient :: "env \<Rightarrow> MidoNetAPIConf \<Rightarrow> history \<Rightarrow> ((go_error + Client) \<times> MidoNetAPIConf) \<times> history" where
  "NewClient E conf tr =
     (let conf = conf\<lparr>mc_URL := List.map (\<lambda>u. u @ ''/midonet-api'') (mc_URL conf)\<rparr>;
          c = \<lparr>cl_version = (if mc_Version conf \<noteq> 0 then mc_Version conf else 1), cl_token = [],
               cl_endpoints = mc_URL conf\<rparr>
      in case login E conf c tr of ((err, c), tr) \<Rightarrow>
           case err of
             Some err \<Rightarrow> ((Inl err, conf), tr)
           | None \<Rightarrow> ((Inr c, conf), tr))"

subsection \<open>Bridges and ports\<close>

definition CreateBridge :: "env \<Rightarrow> Bridge \<Rightarrow> history \<Rightarrow> (go_error option \<times> Bridge) \<times> history" where
  "CreateBridge E b tr =
     (case fresh_id E (br_ID b) tr of (u, tr) \<Rightarrow>
        let b = b\<lparr>br_ID := Some u\<rparr> in
        case send E (PostBridge b) tr of (err, tr) \<Rightarrow> ((err, b), tr))"

definition DeleteBridges :: "env \<Rightarrow> UUID option \<Rightarrow> history \<Rightarrow> go_error option \<times> history" where
  "DeleteBridges E i tr =
     (case i of
        None \<Rightarrow> (Some (ErrorString ''bridge id can not be empty where delete bridge''), tr)
      | Some u \<Rightarrow> send E (DeleteBridge u) tr)"

definition CreateBridgePort :: "env \<Rightarrow> BridgePort \<Rightarrow> history \<Rightarrow> (go_error option \<times> BridgePort) \<times> history" where
  "CreateBridgePort E p tr =
     (case fresh_id E (po_ID p) tr of (u, tr) \<Rightarrow>
        let p = p\<lparr>po_ID := Some u, po_Type := ''Bridge''\<rparr> in
        case send E (PostBridgePort (po_DeviceID p) p) tr of (err, tr) \<Rightarrow> ((err, p), tr))"

definition CreateRouterPort :: "env \<Rightarrow> RouterPort \<Rightarrow> history \<Rightarrow> (go_error option \<times> RouterPort) \<times> history" where
  "CreateRouterPort E p tr =
     (case fresh_id E (po_ID p) tr of (u, tr) \<Rightarrow>
        let p = p\<lparr>po_ID := Some u, po_Type := ''Router''\<rparr> in
        case send E (PostRouterPort (po_DeviceID p) p) tr of (err, tr) \<Rightarrow> ((err, p), tr))"

definition DeletePort :: "env \<Rightarrow> UUID option \<Rightarrow> history \<Rightarrow> go_error option \<times> history" where
  "DeletePort E i tr =
     (case i of
        None \<Rightarrow> (Some (ErrorString ''port id can not be empty where delete port''), tr)
      | Some u \<Rightarrow> send E (mido_req.DeletePort u) tr)"

definition CreatePortLink :: "env \<Rightarrow> PortLink \<Rightarrow> history \<Rightarrow> go_error option \<times> history" where
  "CreatePortLink E l tr =
     (case pl_PortID l of
        None \<Rightarrow> (Some (ErrorString ''create port link port id can not be empty''), tr)
      | Some p \<Rightarrow>
          (case pl_PeerID l of
             None \<Rightarrow> (Some (ErrorString ''create port link peer id can not be empty''), tr)
           | Some q \<Rightarrow> send E (PostPortLink p q) tr))"

definition DeletePortLink :: "env \<Rightarrow> UUID option \<Rightarrow> history \<Rightarrow> go_error option \<times> history" where
  "DeletePortLink E i tr =
     (case i of
        None \<Rightarrow> (Some (ErrorString ''delete port link port id can not be empty''), tr)
      | Some u \<Rightarrow> send E (mido_req.DeletePortLink u) tr)"

subsection \<open>Routers, routes, chains, rules\<close>

definition CreateRouter :: "env \<Rightarrow> Router \<Rightarrow> history \<Rightarrow> (go_error option \<times> Router) \<times> history" where
  "CreateRouter E r tr =
     (case fresh_id E (ro_ID r) tr of (u, tr) \<Rightarrow>
        let r = r\<lparr>ro_ID := Some u\<rparr> in
        case send E (PostRouter r) tr of (err, tr) \<Rightarrow> ((err, r), tr))"

definition DeleteRouter :: "env \<Rightarrow> UUID option \<Rightarrow> history \<Rightarrow> go_error option \<times> history" where
  "DeleteRouter E i tr =
     (case i of
        None \<Rightarrow> (Some (ErrorString ''router id can not be empty where delete chain''), tr)
      | Some u \<Rightarrow> send E (mido_req.DeleteRouter u) tr)"

definition CreateRoute :: "env \<Rightarrow> Route \<Rightarrow> history \<Rightarrow> (go_error option \<times> Route) \<times> history" where
  "CreateRoute E r tr =
     (case rt_RouterID r of
        None \<Rightarrow> ((Some (ErrorString ''router id can not be empty where create route''), r), tr)
      | Some router \<Rightarrow>
          (case fresh_id E (rt_ID r) tr of (u, tr) \<Rightarrow>
             let r = r\<lparr>rt_ID := Some u\<rparr> in
             case send E (PostRoute router r) tr of (err, tr) \<Rightarrow> ((err, r), tr)))"

definition DeleteRoute :: "env \<Rightarrow> Client \<Rightarrow> UUID option \<Rightarrow> UUID option \<Rightarrow> history \<Rightarrow> go_error option \<times> history" where
  "DeleteRoute E c routerID routeID tr =
     (case routeID of
        None \<Rightarrow> (Some (ErrorString ''route id can not be empty when delete route''), tr)
      | Some route \<Rightarrow>
          (case routerID of
             None \<Rightarrow> (Some (ErrorString ''router id can not be empty when delete route''), tr)
           | Some router \<Rightarrow>
               send E (mido_req.DeleteRoute (if cl_version c = 5 then None else Some router) route) tr))"

definition CreateChain :: "env \<Rightarrow> Chain \<Rightarrow> history \<Rightarrow> (go_error option \<times> Chain) \<times> history" where
  "CreateChain E ch tr =
     (case fresh_id E (ch_ID ch) tr of (u, tr) \<Rightarrow>
        let ch = ch\<lparr>ch_ID := Some u\<rparr> in
        if ch_TenantID ch = [] then ((Some (ErrorString ''tenant id can not be empty where create chain''), ch), tr)
        else case send E (PostChain ch) tr of (err, tr) \<Rightarrow> ((err, ch), tr))"

definition DeleteChain :: "env \<Rightarrow> UUID option \<Rightarrow> history \<Rightarrow> go_error option \<times> history" where
  "DeleteChain E i tr =
     (case i of
        None \<Rightarrow> (Some (ErrorString ''chain id can not be empty where delete chain''), tr)
      | Some u \<Rightarrow> send E (mido_req.DeleteChain u) tr)"

definition CreateRule :: "env \<Rightarrow> Rule \<Rightarrow> history \<Rightarrow> (go_error option \<times> Rule) \<times> history" where
  "CreateRule E r tr =
     (case ru_ChainID r of
        None \<Rightarrow> ((Some (ErrorString ''chain id can not be empty where create rule''), r), tr)
      | Some chain \<Rightarrow>
          (case fresh_id E (ru_ID r) tr of (u, tr) \<Rightarrow>
             let r = r\<lparr>ru_ID := Some u\<rparr> in
             case send E (PostRule chain r) tr of (err, tr) \<Rightarrow> ((err, r), tr)))"

definition DeleteRule :: "env \<Rightarrow> UUID option \<Rightarrow> history \<Rightarrow> go_error option \<times> history" where
  "DeleteRule E i tr =
     (case i of
        None \<Rightarrow> (Some (ErrorString ''rule id can not e empty when delete rule''), tr)
      | Some u \<Rightarrow> send E (mido_req.DeleteRule u) tr)"

subsection \<open>Bindings\<close>

text \<open>The checks of a binding, made when it is created and when it is deleted.\<close>

definition binding_check :: "string \<Rightarrow> HostInterfacePort \<Rightarrow> go_error + UUID \<times> UUID" where
  "binding_check what h =
     (case hp_HostID h of
        None \<Rightarrow> Inl (ErrorString (''host id can not be empty where '' @ what))
      | Some host \<Rightarrow>
          (case hp_PortID h of
             None \<Rightarrow> Inl (ErrorString (''port id can not be empty where '' @ what))
           | Some port \<Rightarrow>
               if hp_InterfaceName h = [] then Inl (ErrorString (''interface name can not be empty where '' @ what))
               else Inr (host, port)))"

definition BindingInterface :: "env \<Rightarrow> HostInterfacePort \<Rightarrow> history \<Rightarrow> go_error option \<times> history" where
  "BindingInterface E h tr =
     (case binding_check ''binding interface'' h of
        Inl err \<Rightarrow> (Some err, tr)
      | Inr (host, _) \<Rightarrow> send E (PostBinding host h) tr)"

definition DeleteBinding :: "env \<Rightarrow> HostInterfacePort \<Rightarrow> history \<Rightarrow> go_error option \<times> history" where
  "DeleteBinding E h tr =
     (case binding_check ''delete binding interface'' h of
        Inl err \<Rightarrow> (Some err, tr)
      | Inr (host, port) \<Rightarrow> send E (mido_req.DeleteBinding host port) tr)"

subsection \<open>Lists\<close>

text \<open>A list that was asked for; nil when anything goes wrong.\<close>

definition GetRouters :: "env \<Rightarrow> string \<Rightarrow> history \<Rightarrow> Router option list option \<times> history" where
  "GetRouters E tenantID tr =
     (if tenantID = [] then (None, tr)
      else
        (case mido_call E (mido_req.GetRouters tenantID) tr of (res, tr) \<Rightarrow>
           case res of
             Inr (status, BodyRouters rs) \<Rightarrow> (if ok_status status then rs else None, tr)
           | _ \<Rightarrow> (None, tr)))"

definition ports_of :: "mido_answer \<Rightarrow> RouterPort option list option" where
  "ports_of res =
     (case res of Inr (status, BodyPorts ps) \<Rightarrow> if ok_status status then ps else None | _ \<Rightarrow> None)"

definition GetPortByRouter :: "env \<Rightarrow> UUID \<Rightarrow> history \<Rightarrow> RouterPort option list option \<times> history" where
  "GetPortByRouter E routerID tr =
     (case mido_call E (GetRouterPorts routerID) tr of (res, tr) \<Rightarrow> (ports_of res, tr))"

definition GetPeerPortByRouter :: "env \<Rightarrow> UUID \<Rightarrow> history \<Rightarrow> RouterPort option list option \<times> history" where
  "GetPeerPortByRouter E routerID tr =
     (case mido_call E (GetRouterPeerPorts routerID) tr of (res, tr) \<Rightarrow> (ports_of res, tr))"

text \<open>
  \<open>GetRouterIPsByTenant\<close>: the addresses of the ports whose type is \<open>InteriorRouter\<close>. A router
  or port that is nil, or a router without an identifier, is a panic.
\<close>

fun port_addresses :: "RouterPort option list \<Rightarrow> string list outcome" where
  "port_addresses [] = Ok []"
| "port_addresses (None # ps) = Panic"
| "port_addresses (Some p # ps) =
     (case port_addresses ps of
        Ok as \<Rightarrow>
          Ok (if po_Type p = ''InteriorRouter''
              then (rp_PortAddress p @ ''/'' @ itoa_int (rp_NetworkLength p)) # as else as)
      | Err e \<Rightarrow> Err e
      | Panic \<Rightarrow> Panic)"

fun router_addresses :: "env \<Rightarrow> Router option list \<Rightarrow> string list \<Rightarrow> history \<Rightarrow> string list outcome \<times> history" where
  "router_addresses E [] as tr = (Ok as, tr)"
| "router_addresses E (r # rs) as tr =
     (case Option.bind r ro_ID of
        None \<Rightarrow> (Panic, tr)
      | Some u \<Rightarrow>
          (case GetPortByRouter E u tr of (ports, tr) \<Rightarrow>
             case GetPeerPortByRouter E u tr of (peers, tr) \<Rightarrow>
               case (ports, peers) of
                 (Some ps, Some qs) \<Rightarrow>
                   (case port_addresses (ps @ qs) of
                      Ok bs \<Rightarrow> router_addresses E rs (as @ bs) tr
                    | Err e \<Rightarrow> (Err e, tr)
                    | Panic \<Rightarrow> (Panic, tr))
               | _ \<Rightarrow> router_addresses E rs as tr))"

definition GetRouterIPsByTenant :: "env \<Rightarrow> string \<Rightarrow> history \<Rightarrow> string list outcome \<times> history" where
  "GetRouterIPsByTenant E tenantID tr =
     (case GetRouters E tenantID tr of (rs, tr) \<Rightarrow>
        case rs of None \<Rightarrow> (Ok [], tr) | Some rs \<Rightarrow> router_addresses E rs [] tr)"

end
