(* ===== verification/IpUtil.thy ===== *)
theory IpUtil
  imports GoNet
begin

text \<open>
  \<open>pkg/util\<close>: the conversions between addresses and numbers (\<open>ip_util.go\<close>) and the
  ranges of addresses of a network (\<open>cidr_util.go\<close>). The lemmas describe every function
  on the texts of IPv4 networks, and show which texts are accepted, that the enumeration
  of a range ends and gives each address of the network once, and what the next network is.
\<close>

subsection \<open>ip\_util.go\<close>

text \<open>\<open>IP2Long\<close> indexes bytes 12 to 15: it panics on a shorter slice, nil included.\<close>

definition IP2Long :: "IP \<Rightarrow> uint outcome" where
  "IP2Long ip =
     (if length ip < 16 then Panic
      else Ok (push_bit 24 (ucast (ip ! 12)) + push_bit 16 (ucast (ip ! 13))
               + push_bit 8 (ucast (ip ! 14)) + ucast (ip ! 15)))"

definition Long2IP :: "uint \<Rightarrow> IP" where
  "Long2IP long =
     IPv4 (ucast (drop_bit 24 long)) (ucast (drop_bit 16 long)) (ucast (drop_bit 8 long)) (ucast long)"

definition IsPrivate :: "IP \<Rightarrow> bool outcome" where
  "IsPrivate ip =
     (if ip = [] then Panic
      else if ip ! 0 = 10 then Ok True
      else if ip ! 0 = 172 \<and> length ip < 2 then Panic
      else if ip ! 0 = 172 \<and> ip ! 1 \<ge> 16 \<and> ip ! 1 < 32 then Ok True
      else if ip ! 0 = 192 \<and> length ip < 2 then Panic
      else if ip ! 0 = 192 \<and> ip ! 1 = 168 then Ok True
      else Ok False)"

subsection \<open>cidr\_util.go\<close>

record Range =
  rg_ipnet :: IPNet
  rg_ip :: IP
  rg_iplong :: uint
  rg_lastiplong :: uint
  rg_stepprefix :: string
  rg_stepsuffix :: string
  rg_step :: uint

text \<open>
  \<open>1 << uint(k)\<close> for an \<open>int\<close> \<open>k\<close>: a negative \<open>k\<close> converts to a shift count far
  above 64, and Go's shifts by 64 or more give 0.
\<close>

definition one_shl :: "int \<Rightarrow> uint" where
  "one_shl k = (if 0 \<le> k \<and> k < 64 then push_bit (nat k) 1 else 0)"

text \<open>The mask length read from the text after the last slash (32 without a slash).\<close>

definition range_mask :: "string \<Rightarrow> go_error + int" where
  "range_mask iprange =
     (case after_last iprange (CHR ''/'') of
        None \<Rightarrow> Inr 32
      | Some t \<Rightarrow>
          (case atoi t of
             None \<Rightarrow> Inl (OtherError (''strconv.Atoi: parsing '' @ t))
           | Some m \<Rightarrow> Inr m))"

definition NewRangeWithBlockSize :: "string \<Rightarrow> int \<Rightarrow> Range outcome" where
  "NewRangeWithBlockSize iprange blockSize =
     (case ParseCIDR iprange of
        Inl err \<Rightarrow> Err err
      | Inr (ip, ipnet) \<Rightarrow>
          if \<not> IP_Equal ip (IPNet_IP ipnet) then Err (ErrorString ''Invalid cidr'')
          else
            (case range_mask iprange of
               Inl err \<Rightarrow> Err err
             | Inr iprangeMask \<Rightarrow>
                 if iprangeMask > blockSize \<or> blockSize > 32 then
                   Err (ErrorString ''Invalid block size'')
                 else
                   (case IP2Long ip of
                      Ok iplong \<Rightarrow>
                        Ok \<lparr>rg_ipnet = ipnet, rg_ip = ip, rg_iplong = iplong,
                            rg_lastiplong = iplong + one_shl (32 - iprangeMask) - 1,
                            rg_stepprefix = ''/'' @ itoa_int blockSize,
                            rg_stepsuffix = ''/'' @ itoa_int iprangeMask,
                            rg_step = one_shl (32 - blockSize)\<rparr>
                    | Err e \<Rightarrow> Err e
                    | Panic \<Rightarrow> Panic)))"

definition NewRange :: "string \<Rightarrow> Range outcome" where
  "NewRange iprange =
     (if iprange = [] then Err (ErrorString ''iprange can not be empty'')
      else NewRangeWithBlockSize iprange 32)"

definition Range_Next :: "Range \<Rightarrow> bool \<times> Range" where
  "Range_Next r =
     (let r1 = r\<lparr>rg_iplong := rg_iplong r + rg_step r\<rparr>;
          r2 = r1\<lparr>rg_ip := Long2IP (rg_iplong r1)\<rparr>
      in (rg_iplong r2 \<le> rg_lastiplong r2, r2))"

definition Range_String :: "Range \<Rightarrow> string" where
  "Range_String r = IP_String (rg_ip r)"

definition Range_StringPrefix :: "Range \<Rightarrow> string" where
  "Range_StringPrefix r = IP_String (rg_ip r) @ rg_stepprefix r"

definition Range_StringSuffix :: "Range \<Rightarrow> string" where
  "Range_StringSuffix r = IP_String (rg_ip r) @ rg_stepsuffix r"

text \<open>The loop of \<open>List\<close>; \<open>None\<close> would be a loop that does not end.\<close>

partial_function (option) List_loop :: "Range \<Rightarrow> string list \<Rightarrow> string list option" where
  "List_loop r ips =
     (let ips' = ips @ [Range_String r]; nx = Range_Next r
      in if \<not> fst nx then Some ips' else List_loop (snd nx) ips')"

declare List_loop.simps [code]

definition List :: "string \<Rightarrow> string list outcome option" where
  "List iprange =
     (case NewRange iprange of
        Err err \<Rightarrow> Some (Err err)
      | Panic \<Rightarrow> Some Panic
      | Ok r \<Rightarrow> map_option Ok (List_loop r []))"

definition RangeLength :: "string \<Rightarrow> nat outcome option" where
  "RangeLength iprange =
     (case List iprange of
        None \<Rightarrow> None
      | Some (Err err) \<Rightarrow> Some (Ok 0)
      | Some Panic \<Rightarrow> Some Panic
      | Some (Ok ips) \<Rightarrow> Some (Ok (length ips)))"

definition GetNextCIDR :: "string \<Rightarrow> string outcome" where
  "GetNextCIDR iprange =
     (case ParseCIDR iprange of
        Inl err \<Rightarrow> Err err
      | Inr (ip, ipnet) \<Rightarrow>
          if \<not> IP_Equal ip (IPNet_IP ipnet) then Err (ErrorString ''Invalid cidr'')
          else
            (case range_mask iprange of
               Inl err \<Rightarrow> Err err
             | Inr iprangeMask \<Rightarrow>
                 (case IP2Long ip of
                    Ok long \<Rightarrow>
                      Ok (IP_String (Long2IP (long + one_shl (32 - iprangeMask)))
                          @ ''/'' @ itoa_int iprangeMask)
                  | Err e \<Rightarrow> Err e
                  | Panic \<Rightarrow> Panic)))"

subsection \<open>Numbers and addresses\<close>

lemma ucast_drop_byte: "(ucast (drop_bit j (of_nat n :: uint)) :: byte) = of_nat (n div 2 ^ j)"
  if "n < 2 ^ 64"
proof (rule word_unat_eq_iff [THEN iffD2])
  have "unat (drop_bit j (of_nat n :: uint)) = n div 2 ^ j"
    using that by (simp only: unat_drop_bit_eq) (simp add: drop_bit_eq_div unat_of_nat take_bit_eq_mod)
  then show "unat (ucast (drop_bit j (of_nat n :: uint)) :: byte) = unat (of_nat (n div 2 ^ j) :: byte)"
    by (simp add: unsigned_ucast_eq unat_of_nat take_bit_eq_mod)
qed

lemma Long2IP_of_nat [go_simps]:
  "n < 2 ^ 64 \<Longrightarrow> Long2IP (of_nat n) = v4InV6Prefix @ bytes4 n"
  using ucast_drop_byte [of n 24] ucast_drop_byte [of n 16] ucast_drop_byte [of n 8]
    ucast_drop_byte [of n 0]
  by (simp add: Long2IP_def IPv4_def bytes4_def)

lemma IP2Long_prefixed [go_simps]:
  "length b = 4 \<Longrightarrow> IP2Long (v4InV6Prefix @ b) = Ok (of_nat (val4 b))"
proof -
  assume "length b = 4"
  then obtain w x y z where b: "b = [w, x, y, z]" by (auto simp: length_4_conv)
  show ?thesis
    unfolding b IP2Long_def val4_def
    by (simp add: nth_append del: of_nat_unat) (simp only: push_bit_eq_mult, simp)
qed

subsection \<open>A range over an IPv4 network, at offset \<open>k\<close>\<close>

definition v4_range :: "bytes \<Rightarrow> nat \<Rightarrow> nat \<Rightarrow> Range" where
  "v4_range b n k = \<lparr>rg_ipnet = v4_net b n, rg_ip = v4InV6Prefix @ bytes4 (val4 b + k),
     rg_iplong = of_nat (val4 b + k), rg_lastiplong = of_nat (val4 b + 2 ^ (32 - n) - 1),
     rg_stepprefix = ''/32'', rg_stepsuffix = ''/'' @ itoa n, rg_step = 1\<rparr>"

text \<open>A network: four bytes, a mask length, and no bit set behind the mask.\<close>

definition is_network :: "bytes \<Rightarrow> nat \<Rightarrow> bool" where
  "is_network b n \<longleftrightarrow> length b = 4 \<and> n \<le> 32 \<and> 2 ^ (32 - n) dvd val4 b"

lemma is_networkD:
  assumes "is_network b n"
  shows "length b = 4" and "n \<le> 32" and "2 ^ (32 - n) dvd val4 b"
  using assms by (simp_all add: is_network_def)

lemma size_le: "(2::nat) ^ (32 - n) \<le> 2 ^ 32"
  by (rule power_increasing) auto

lemma network_end: "is_network b n \<Longrightarrow> val4 b + 2 ^ (32 - n) \<le> 2 ^ 32"
proof -
  assume nw: "is_network b n"
  then obtain q where q: "val4 b = 2 ^ (32 - n) * q" by (auto simp: is_network_def)
  have "(2::nat) ^ 32 = 2 ^ (32 - n) * 2 ^ n"
    using nw by (simp add: is_network_def flip: power_add)
  moreover have "val4 b < 2 ^ 32" using nw by (intro val4_less) (simp add: is_network_def)
  ultimately have "q < 2 ^ n" using q by (metis mult_less_cancel1)
  then have "Suc q \<le> 2 ^ n" by simp
  then have "2 ^ (32 - n) * Suc q \<le> 2 ^ (32 - n) * 2 ^ n" by (rule mult_le_mono2)
  with q \<open>2 ^ 32 = 2 ^ (32 - n) * 2 ^ n\<close> show ?thesis by simp
qed

lemma range_mask_text [go_simps]: "n \<le> 32 \<Longrightarrow> range_mask (cidr_text b n) = Inr (int n)"
  by (simp add: range_mask_def cidr_text_def after_last_append slash_notin_itoa atoi_itoa)

lemma one_shl_nat: "n \<le> 32 \<Longrightarrow> one_shl (32 - int n) = of_nat (2 ^ (32 - n))"
proof -
  assume "n \<le> 32"
  then have "nat (32 - int n) = 32 - n" by simp
  with \<open>n \<le> 32\<close> show ?thesis by (simp add: one_shl_def push_bit_eq_mult)
qed

lemma itoa_int_nat [simp]: "itoa_int (int n) = itoa n"
  by (simp add: itoa_int_def)

lemma itoa_32: "itoa 32 = ''32''"
  by code_simp

lemma IP_Equal_v4_net [go_simps]:
  "length b = 4 \<Longrightarrow> n \<le> 32 \<Longrightarrow>
   IP_Equal (v4InV6Prefix @ b) (IPNet_IP (v4_net b n)) \<longleftrightarrow> is_network b n"
  using IP_Equal_v4 [OF _ length_masked] masked_eq_iff [of b n]
  by (auto simp: v4_net_def is_network_def)

text \<open>A network text is accepted and gives the range at offset 0; any other IPv4 CIDR text is not.\<close>

lemma NewRange_network [go_simps]:
  assumes "is_network b n"
  shows "NewRange (cidr_text b n) = Ok (v4_range b n 0)"
proof -
  note nw = is_networkD [OF assms]
  have "1 \<le> val4 b + 2 ^ (32 - n)" by (simp add: Suc_le_eq)
  then have "(of_nat (val4 b + 2 ^ (32 - n) - 1) :: uint) = of_nat (val4 b) + 2 ^ (32 - n) - 1"
    by (subst of_nat_diff) simp_all
  moreover have "one_shl (32 - 32) = 1" by (simp add: one_shl_def)
  moreover have "itoa_int 32 = ''32''" using itoa_int_nat [of 32] itoa_32 by simp
  moreover have "cidr_text b n \<noteq> []" by (simp add: cidr_text_def)
  ultimately show ?thesis
    using nw assms by (simp add: NewRange_def NewRangeWithBlockSize_def go_simps one_shl_nat v4_range_def bytes4_val4)
qed

lemma NewRange_not_network:
  assumes "length b = 4" "n \<le> 32" "\<not> is_network b n"
  shows "NewRange (cidr_text b n) = Err (ErrorString ''Invalid cidr'')"
proof -
  have "cidr_text b n \<noteq> []" by (simp add: cidr_text_def)
  then show ?thesis
    using assms by (simp add: NewRange_def NewRangeWithBlockSize_def go_simps)
qed

lemma of_nat_le_uint: "a < 2 ^ 64 \<Longrightarrow> b < 2 ^ 64 \<Longrightarrow> (of_nat a :: uint) \<le> of_nat b \<longleftrightarrow> a \<le> b"
  by (simp add: word_le_nat_alt unat_of_nat take_bit_eq_mod)

lemma Range_Next_v4 [go_simps]:
  assumes "is_network b n" and "k < 2 ^ 33"
  shows "Range_Next (v4_range b n k) = (Suc k < 2 ^ (32 - n), v4_range b n (Suc k))"
proof -
  have lt: "val4 b < 2 ^ 32" by (rule val4_less) (rule is_networkD [OF assms(1)])
  have "(of_nat (Suc (val4 b + k)) :: uint) \<le> of_nat (val4 b + 2 ^ (32 - n) - 1)
      \<longleftrightarrow> Suc (val4 b + k) \<le> val4 b + 2 ^ (32 - n) - 1"
    using lt assms(2) size_le [of n] by (intro of_nat_le_uint) simp_all
  also have "\<dots> \<longleftrightarrow> Suc k < 2 ^ (32 - n)" by auto
  finally have "(of_nat (val4 b + k) + 1 :: uint) \<le> of_nat (val4 b + 2 ^ (32 - n) - 1) \<longleftrightarrow> Suc k < 2 ^ (32 - n)"
    by (simp add: add.commute)
  moreover have "Long2IP (of_nat (val4 b + Suc k)) = v4InV6Prefix @ bytes4 (val4 b + Suc k)"
    using lt assms(2) by (intro Long2IP_of_nat) simp
  ultimately show ?thesis
    by (simp add: Range_Next_def v4_range_def add.commute add.left_commute)
qed

lemma Range_String_v4 [go_simps]: "Range_String (v4_range b n k) = dotted (bytes4 (val4 b + k))"
  by (simp add: Range_String_def v4_range_def go_simps)

lemma Range_StringSuffix_v4 [go_simps]:
  "Range_StringSuffix (v4_range b n k) = cidr_text (bytes4 (val4 b + k)) n"
  by (simp add: Range_StringSuffix_def v4_range_def go_simps cidr_text_def)

lemma Range_StringPrefix_v4 [go_simps]:
  "Range_StringPrefix (v4_range b n k) = dotted (bytes4 (val4 b + k)) @ ''/32''"
  by (simp add: Range_StringPrefix_def v4_range_def go_simps)

lemma List_loop_v4:
  assumes nw: "is_network b n" and "k < 2 ^ (32 - n)"
  shows "List_loop (v4_range b n k) ips
    = Some (ips @ List.map (\<lambda>i. dotted (bytes4 (val4 b + i))) [k..<2 ^ (32 - n)])"
  using assms(2)
proof (induction "2 ^ (32 - n) - k" arbitrary: k ips)
  case 0
  then show ?case by simp
next
  case (Suc m)
  have k: "k < 2 ^ 33" using Suc.prems size_le [of n] by simp
  have up: "[k..<2 ^ (32 - n)] = k # [Suc k..<2 ^ (32 - n)]"
    using Suc.prems by (rule upt_conv_Cons)
  show ?case
  proof (cases "Suc k < 2 ^ (32 - n)")
    case True
    with Suc k nw show ?thesis
      by (subst List_loop.simps) (simp add: go_simps up Let_def)
  next
    case False
    with k nw show ?thesis
      by (subst List_loop.simps) (simp add: go_simps up Let_def)
  qed
qed


text \<open>
  \<open>List\<close> on a network: every address of the network, in order.
\<close>

definition network_ips :: "bytes \<Rightarrow> nat \<Rightarrow> string list" where
  "network_ips b n = List.map (\<lambda>i. dotted (bytes4 (val4 b + i))) [0..<2 ^ (32 - n)]"

lemma List_network: "is_network b n \<Longrightarrow> List (cidr_text b n) = Some (Ok (network_ips b n))"
  using List_loop_v4 [of b n 0 "[]"]
  by (simp add: List_def go_simps network_ips_def)

lemma length_network_ips [simp]: "length (network_ips b n) = 2 ^ (32 - n)"
  by (simp add: network_ips_def)

lemma RangeLength_network: "is_network b n \<Longrightarrow> RangeLength (cidr_text b n) = Some (Ok (2 ^ (32 - n)))"
  by (simp add: RangeLength_def List_network)

lemma dotted_bytes4_inject:
  "i < 2 ^ 32 \<Longrightarrow> j < 2 ^ 32 \<Longrightarrow> dotted (bytes4 i) = dotted (bytes4 j) \<longleftrightarrow> i = j"
  using ipv4.enc_inject [of "bytes4 i" "bytes4 j"] val4_bytes4 [of i] val4_bytes4 [of j]
  by (metis length_bytes4 mod_less)

lemma distinct_network_ips: "is_network b n \<Longrightarrow> distinct (network_ips b n)"
  using network_end [of b n]
  by (auto simp: network_ips_def distinct_map inj_on_def dotted_bytes4_inject)

text \<open>The next network: the addresses after the last one, around 2 to the 32 at the top.\<close>

definition next_net :: "bytes \<Rightarrow> nat \<Rightarrow> bytes" where
  "next_net b n = bytes4 (val4 b + 2 ^ (32 - n))"

lemma val4_next_net: "val4 (next_net b n) = (val4 b + 2 ^ (32 - n)) mod 2 ^ 32"
  by (simp add: next_net_def val4_bytes4)

lemma is_network_next_net: "is_network b n \<Longrightarrow> is_network (next_net b n) n"
proof -
  assume nw: "is_network b n"
  have "(2::nat) ^ (32 - n) dvd 2 ^ 32" by (rule le_imp_power_dvd) simp
  then have "2 ^ (32 - n) dvd (val4 b + 2 ^ (32 - n)) mod 2 ^ 32"
    using nw by (intro dvd_mod dvd_add) (auto simp: is_network_def)
  then show ?thesis
    using nw by (simp only: is_network_def val4_next_net) (simp add: next_net_def)
qed

lemma GetNextCIDR_network:
  assumes "is_network b n"
  shows "GetNextCIDR (cidr_text b n) = Ok (cidr_text (next_net b n) n)"
proof -
  note nw = is_networkD [OF assms]
  have "val4 b + 2 ^ (32 - n) < 2 ^ 64"
    using network_end [OF assms] by simp
  then have "Long2IP (of_nat (val4 b) + of_nat (2 ^ (32 - n))) = v4InV6Prefix @ next_net b n"
    using Long2IP_of_nat [of "val4 b + 2 ^ (32 - n)"] by (simp add: next_net_def)
  then show ?thesis
    using nw assms
    by (simp add: GetNextCIDR_def go_simps one_shl_nat next_net_def) (simp add: cidr_text_def)
qed

subsection \<open>Every range ends\<close>

lemma IP2Long_long: "16 \<le> length ip \<Longrightarrow> IP2Long ip = Ok (of_nat (val4 [ip ! 12, ip ! 13, ip ! 14, ip ! 15]))"
  using IP2Long_prefixed [of "[ip ! 12, ip ! 13, ip ! 14, ip ! 15]"]
  by (simp add: IP2Long_def nth_append)

lemma IP2Long_bound: "IP2Long ip = Ok x \<Longrightarrow> unat x < 2 ^ 32"
proof -
  assume x: "IP2Long ip = Ok x"
  then have "16 \<le> length ip" by (simp add: IP2Long_def split: if_splits)
  with x have "x = of_nat (val4 [ip ! 12, ip ! 13, ip ! 14, ip ! 15])" by (simp add: IP2Long_long)
  moreover have "val4 [ip ! 12, ip ! 13, ip ! 14, ip ! 15] < 2 ^ 32" by (rule val4_less) simp
  ultimately show ?thesis by (simp add: unat_of_nat take_bit_eq_mod)
qed

lemma unat_Suc_small: "unat (x :: uint) < 2 ^ 63 \<Longrightarrow> unat (x + 1) = Suc (unat x)"
  by (simp add: unat_word_ariths)

lemma List_loop_ends:
  assumes "rg_step r = 1" and "unat (rg_lastiplong r) < 2 ^ 62" and "unat (rg_iplong r) < 2 ^ 62"
  shows "List_loop r ips \<noteq> None"
  using assms
proof (induction "2 ^ 62 - unat (rg_iplong r)" arbitrary: r ips rule: less_induct)
  case less
  let ?r = "snd (Range_Next r)"
  have nx: "unat (rg_iplong ?r) = Suc (unat (rg_iplong r))"
    and keep: "rg_step ?r = 1" "rg_lastiplong ?r = rg_lastiplong r"
    using less.prems unat_Suc_small [of "rg_iplong r"] by (simp_all add: Range_Next_def Let_def)
  show ?case
  proof (cases "fst (Range_Next r)")
    case True
    then have "rg_iplong ?r \<le> rg_lastiplong r" by (simp add: Range_Next_def Let_def)
    then have "unat (rg_iplong ?r) < 2 ^ 62"
      using less.prems(2) by (simp add: word_le_nat_alt)
    with less nx keep have "List_loop ?r (ips @ [Range_String r]) \<noteq> None"
      by (intro less.hyps) simp_all
    with True show ?thesis by (subst List_loop.simps) (simp add: Let_def)
  next
    case False
    then show ?thesis by (subst List_loop.simps) (simp add: Let_def)
  qed
qed

lemma unat_one_shl_le: "0 \<le> m \<Longrightarrow> unat (one_shl (32 - m)) \<le> 2 ^ 32"
proof (cases "m \<le> 32")
  case True
  assume "0 \<le> m"
  with True one_shl_nat [of "nat m"] have "one_shl (32 - m) = of_nat (2 ^ (32 - nat m))" by simp
  moreover have "(2::nat) ^ (32 - nat m) \<le> 2 ^ 32" by (rule size_le)
  ultimately show ?thesis by (simp only: unat_of_nat take_bit_eq_mod) (simp add: order_trans [OF mod_less_eq_dividend])
next
  case False
  then show ?thesis by (simp add: one_shl_def)
qed


lemma dtoi_loop_count: "dtoi_loop s n i = (n', j, ok) \<Longrightarrow> i \<le> j \<and> j \<le> i + length s"
  by (induction s n i rule: dtoi_loop.induct) (auto simp: Let_def split: if_splits)

lemma dtoi_loop_all: "dtoi_loop s n i = (n', i + length s, ok) \<Longrightarrow> list_all is_digit s"
proof (induction s n i rule: dtoi_loop.induct)
  case (2 c cs n i)
  then show ?case
    using dtoi_loop_count [of cs "n * 10 + digit_val c" "Suc i"]
    by (auto simp: Let_def split: if_splits)
qed simp

lemma dtoi_all: "dtoi s = (n, length s, True) \<Longrightarrow> list_all is_digit s \<and> s \<noteq> []"
  using dtoi_loop_all [of s 0 0] by (auto simp: dtoi_def split: prod.splits if_splits)

lemma split_byte_Some: "split_byte s c = Some (a, b) \<Longrightarrow> s = a @ c # b"
  by (induction s arbitrary: a) (auto split: if_splits option.splits)

lemma atoi_digits: "list_all is_digit s \<Longrightarrow> atoi s = Some m \<Longrightarrow> 0 \<le> m"
  by (cases s) (auto simp: atoi_def Let_def is_digit_def split: if_splits option.splits)

text \<open>The mask length of a text that \<open>ParseCIDR\<close> accepts is not negative.\<close>

lemma range_mask_nonneg:
  assumes "ParseCIDR s = Inr r" and "range_mask s = Inr m"
  shows "0 \<le> m"
proof -
  from assms(1) obtain a msk n where sp: "split_byte s (CHR ''/'') = Some (a, msk)"
    and "dtoi msk = (n, length msk, True)"
    by (auto simp: ParseCIDR_def Let_def split: option.splits prod.splits if_splits)
  then have d: "list_all is_digit msk" using dtoi_all by blast
  then have "CHR ''/'' \<notin> set msk" by (auto simp: list_all_iff is_digit_def)
  then have "after_last s (CHR ''/'') = Some msk"
    using split_byte_Some [OF sp] by (simp add: after_last_append)
  with assms(2) have "atoi msk = Some m" by (simp add: range_mask_def split: option.splits)
  with d show ?thesis by (rule atoi_digits)
qed

lemma NewRange_bounds:
  assumes "NewRange s = Ok r"
  shows "rg_step r = 1" and "unat (rg_iplong r) < 2 ^ 62" and "unat (rg_lastiplong r) < 2 ^ 62"
proof -
  from assms obtain ip net m x where p: "ParseCIDR s = Inr (ip, net)" and m: "range_mask s = Inr m"
    and le: "m \<le> 32" and x: "IP2Long ip = Ok x"
    and r: "rg_iplong r = x" "rg_lastiplong r = x + one_shl (32 - m) - 1" "rg_step r = one_shl (32 - 32)"
    by (auto simp: NewRange_def NewRangeWithBlockSize_def split: if_splits sum.splits prod.splits outcome.splits)
  show "rg_step r = 1" by (simp add: r one_shl_def)
  have bx: "unat x < 2 ^ 32" using x by (rule IP2Long_bound)
  then show "unat (rg_iplong r) < 2 ^ 62" by (simp add: r)
  have m0: "0 \<le> m" using p m by (rule range_mask_nonneg)
  then have sh: "one_shl (32 - m) = of_nat (2 ^ (32 - nat m))"
    using le one_shl_nat [of "nat m"] by simp
  have x': "x = of_nat (unat x)" by simp
  have "x + one_shl (32 - m) - 1 = of_nat (unat x + 2 ^ (32 - nat m) - 1)"
    by (subst of_nat_diff) (simp_all add: sh Suc_le_eq)
  then have "unat (rg_lastiplong r) = unat x + 2 ^ (32 - nat m) - 1"
    using bx size_le [of "nat m"] by (simp add: r(2) unat_of_nat take_bit_eq_mod)
  with bx size_le [of "nat m"] show "unat (rg_lastiplong r) < 2 ^ 62" by simp
qed

lemma List_loop_NewRange: "NewRange s = Ok r \<Longrightarrow> List_loop r ips \<noteq> None"
  by (intro List_loop_ends NewRange_bounds)

text \<open>\<open>ParseCIDR\<close> gives a 16-byte address, so nothing here panics.\<close>

lemma parse_octets_length: "parse_octets k s p = Some q \<Longrightarrow> length q = length p + k"
  by (induction k s p arbitrary: q rule: parse_octets.induct)
     (auto simp: Let_def split: if_splits prod.splits)

lemma parseIPv4_length: "parseIPv4 s \<noteq> [] \<Longrightarrow> length (parseIPv4 s) = 16"
  by (auto simp: parseIPv4_def dest: parse_octets_length split: option.splits)

lemma parse_groups_length:
  "parse_groups k s acc el = Some (r, acc', el') \<Longrightarrow> length acc + 2 * k \<le> 16 \<Longrightarrow> length acc' \<le> 16"
proof (induction k arbitrary: s acc el r acc' el')
  case (Suc k)
  have v4: "length (drop 12 (parseIPv4 s)) = 4" if "parseIPv4 s \<noteq> []"
    using parseIPv4_length [OF that] by simp
  have IH: "length acc' \<le> 16" if "parse_groups k t (acc @ [x, y]) e = Some (r, acc', el')" for t x y e
    using Suc.prems(2) by (intro Suc.IH [OF that]) simp
  show ?case
    using Suc.prems v4 by (auto simp: Let_def split: prod.splits if_splits dest: IH)
qed simp

lemma parseIPv6_length: "parseIPv6 s \<noteq> [] \<Longrightarrow> length (parseIPv6 s) = 16"
proof -
  assume ne: "parseIPv6 s \<noteq> []"
  obtain el :: "nat option" and s1 where e: "(if take 2 s = ''::'' then (Some 0, drop 2 s) else (None, s)) = (el, s1)"
    by (meson surj_pair)
  show ?thesis
  proof (cases "parse_groups 8 s1 [] el")
    case None
    with ne e show ?thesis by (auto simp: parseIPv6_def split: if_splits)
  next
    case (Some p)
    then obtain r acc el' where p: "parse_groups 8 s1 [] el = Some (r, acc, el')" by (cases p) auto
    then have "length acc \<le> 16" by (rule parse_groups_length) simp
    with p ne e show ?thesis by (auto simp: parseIPv6_def split: if_splits option.splits)
  qed
qed

lemma ParseCIDR_length: "ParseCIDR s = Inr (ip, net) \<Longrightarrow> length ip = 16"
  by (auto simp: ParseCIDR_def Let_def parseIPv4_length parseIPv6_length split: option.splits prod.splits if_splits)

lemma NewRange_no_panic: "NewRange s \<noteq> Panic"
  by (auto simp: NewRange_def NewRangeWithBlockSize_def IP2Long_def dest: ParseCIDR_length split: sum.splits outcome.splits)

lemma GetNextCIDR_no_panic: "GetNextCIDR s \<noteq> Panic"
  by (auto simp: GetNextCIDR_def IP2Long_def dest: ParseCIDR_length split: sum.splits outcome.splits)

lemma network_ips_next_disjoint:
  assumes nw: "is_network b n" and "0 < n"
  shows "set (network_ips b n) \<inter> set (network_ips (next_net b n) n) = {}"
proof -
  let ?s = "2 ^ (32 - n) :: nat"
  have s: "2 * ?s \<le> 2 ^ 32"
    using power_increasing [of "Suc (32 - n)" 32 "2::nat"] \<open>0 < n\<close> is_networkD(2) [OF nw] by simp
  have e: "val4 b + ?s \<le> 2 ^ 32" and e': "val4 (next_net b n) + ?s \<le> 2 ^ 32"
    using network_end nw is_network_next_net by blast+
  have "val4 (next_net b n) = val4 b + ?s \<or> val4 b + ?s = 2 ^ 32 \<and> val4 (next_net b n) = 0"
    using e by (cases "val4 b + ?s = 2 ^ 32") (simp_all add: val4_next_net)
  then have "val4 b + i \<noteq> val4 (next_net b n) + j" if "i < ?s" "j < ?s" for i j
    using that s by auto
  then show ?thesis
    using e e' by (fastforce simp: network_ips_def dotted_bytes4_inject)
qed

subsection \<open>Properties\<close>

text \<open>
  \<open>Long2IP\<close> and \<open>IP2Long\<close> are inverse to each other up to the width of an
  address: the number read back is the low 32 bits of the one written.
\<close>

theorem IP2Long_Long2IP: "IP2Long (Long2IP x) = Ok (take_bit 32 x)"
proof -
  have "Long2IP x = v4InV6Prefix @ bytes4 (unat x)"
    using Long2IP_of_nat [of "unat x"] unsigned_less [of x, where 'a = nat] by simp
  then have "IP2Long (Long2IP x) = Ok (of_nat (unat x mod 2 ^ 32))"
    by (simp only: IP2Long_prefixed length_bytes4 val4_bytes4)
  also have "(of_nat (unat x mod 2 ^ 32) :: uint) = take_bit 32 x"
    by (metis unat_take_bit of_nat_unat ucast_id)
  finally show ?thesis .
qed

text \<open>
  \<open>NewRange\<close> accepts a CIDR text of an IPv4 address exactly when the address is the
  network address, that is when no bit behind the mask is set.
\<close>

theorem NewRange_accepts_networks:
  assumes "length b = 4" and "n \<le> 32"
  shows "(\<exists>r. NewRange (cidr_text b n) = Ok r) \<longleftrightarrow> 2 ^ (32 - n) dvd val4 b"
proof (cases "is_network b n")
  case True
  then show ?thesis using NewRange_network [of b n] by (simp add: is_network_def)
next
  case False
  then show ?thesis using NewRange_not_network [OF assms] assms by (simp add: is_network_def)
qed

theorem NewRange_accepts_networks_witness:
  "(\<exists>r. NewRange (cidr_text [192, 168, 0, 0] 24) = Ok r) \<longleftrightarrow> (2::nat) ^ (32 - 24) dvd val4 [192, 168, 0, 0]"
  by (rule NewRange_accepts_networks) simp_all

text \<open>
  C10: \<open>List\<close> on the text of an IPv4 network returns, and returns every address of the
  network once, in order: \<open>2 ^ (32 - n)\<close> addresses starting at the network address.
\<close>

theorem List_enumerates:
  assumes "length b = 4" and "n \<le> 32" and "2 ^ (32 - n) dvd val4 b"
  shows "\<exists>ips. List (cidr_text b n) = Some (Ok ips) \<and> length ips = 2 ^ (32 - n) \<and> distinct ips
    \<and> (\<forall>i < 2 ^ (32 - n). ips ! i = dotted (bytes4 (val4 b + i)))"
proof -
  have nw: "is_network b n" using assms by (simp add: is_network_def)
  then show ?thesis
    using List_network [OF nw] distinct_network_ips [OF nw] by (auto simp: network_ips_def)
qed

theorem List_enumerates_witness:
  "\<exists>ips. List (cidr_text [10, 1, 2, 0] 24) = Some (Ok ips) \<and> length ips = 2 ^ (32 - 24) \<and> distinct ips
    \<and> (\<forall>i < 2 ^ (32 - 24). ips ! i = dotted (bytes4 (val4 [10, 1, 2, 0] + i)))"
  by (rule List_enumerates) (simp_all add: val4_def)

text \<open>
  \<open>List\<close> returns on every text, IPv6 and malformed texts included, and never panics;
  so does \<open>RangeLength\<close>, which is 0 where \<open>List\<close> gives an error.
\<close>

theorem List_RangeLength_return:
  "(\<exists>ips. List s = Some (Ok ips) \<and> RangeLength s = Some (Ok (length ips)))
   \<or> (\<exists>e. List s = Some (Err e) \<and> RangeLength s = Some (Ok 0))"
proof (cases "NewRange s")
  case (Ok r)
  then obtain ips where "List_loop r [] = Some ips" using List_loop_NewRange [of s r "[]"] by auto
  with Ok show ?thesis by (simp add: List_def RangeLength_def)
next
  case (Err e)
  then show ?thesis by (simp add: List_def RangeLength_def)
next
  case Panic
  then show ?thesis using NewRange_no_panic by blast
qed

lemma val4_prefixes:
  "length b = 4 \<Longrightarrow> val4 b div 2 ^ 24 = unat (b ! 0)"
  "length b = 4 \<Longrightarrow> val4 b div 2 ^ 16 = unat (b ! 0) * 256 + unat (b ! 1)"
  "length b = 4 \<Longrightarrow> val4 b div 2 ^ 20 = unat (b ! 0) * 16 + unat (b ! 1) div 16"
proof -
  have "val4 b div 256 div 256 = unat (b ! 0) * 256 + unat (b ! 1)"
    by (simp only: val4_horner horner_div byte_less_256)
  then have d16: "val4 b div 2 ^ 16 = unat (b ! 0) * 256 + unat (b ! 1)"
    using div_mult2_eq [of "val4 b" 256 256] by simp
  then show "val4 b div 2 ^ 16 = unat (b ! 0) * 256 + unat (b ! 1)" .
  show "val4 b div 2 ^ 24 = unat (b ! 0)"
    using div_mult2_eq [of "val4 b" "2 ^ 16" 256] d16 byte_less_256 [of "b ! 1"] by simp
  show "val4 b div 2 ^ 20 = unat (b ! 0) * 16 + unat (b ! 1) div 16"
    using div_mult2_eq [of "val4 b" "2 ^ 16" 16] d16 by simp
qed

text \<open>
  C20: \<open>GetNextCIDR\<close> of a network is the network of the same size whose first address
  follows the last one; the two share no address, except for the network of all addresses.
\<close>

theorem GetNextCIDR_adjacent:
  assumes "length b = 4" and "0 < n" and "n \<le> 32" and "2 ^ (32 - n) dvd val4 b"
  shows "\<exists>c. GetNextCIDR (cidr_text b n) = Ok (cidr_text c n)
    \<and> val4 c = (val4 b + 2 ^ (32 - n)) mod 2 ^ 32
    \<and> (\<exists>ips ips'. List (cidr_text b n) = Some (Ok ips) \<and> List (cidr_text c n) = Some (Ok ips')
        \<and> set ips \<inter> set ips' = {})"
proof -
  have nw: "is_network b n" using assms by (simp add: is_network_def)
  then have nw': "is_network (next_net b n) n" by (rule is_network_next_net)
  have disj: "set (network_ips b n) \<inter> set (network_ips (next_net b n) n) = {}"
    using network_ips_next_disjoint [OF nw assms(2)] .
  show ?thesis
    using GetNextCIDR_network [OF nw] val4_next_net [of b n] List_network [OF nw] List_network [OF nw'] disj
    by blast
qed

theorem GetNextCIDR_adjacent_witness:
  "\<exists>c. GetNextCIDR (cidr_text [172, 168, 0, 0] 24) = Ok (cidr_text c 24)
    \<and> val4 c = (val4 [172, 168, 0, 0] + 2 ^ (32 - 24)) mod 2 ^ 32
    \<and> (\<exists>ips ips'. List (cidr_text [172, 168, 0, 0] 24) = Some (Ok ips)
        \<and> List (cidr_text c 24) = Some (Ok ips') \<and> set ips \<inter> set ips' = {})"
  by (rule GetNextCIDR_adjacent) (simp_all add: val4_def)

text \<open>
  On a four-byte address \<open>IsPrivate\<close> is membership in one of 10.0.0.0/8,
  172.16.0.0/12 and 192.168.0.0/16; on the 16-byte form, the one \<open>net.ParseIP\<close> and
  \<open>Long2IP\<close> produce, it is false for every IPv4 address.
\<close>

theorem IsPrivate_forms:
  assumes "length b = 4"
  shows "IsPrivate b = Ok (val4 b div 2 ^ 24 = 10 \<or> val4 b div 2 ^ 20 = 172 * 16 + 1
      \<or> val4 b div 2 ^ 16 = 192 * 256 + 168)
    \<and> IsPrivate (v4InV6Prefix @ b) = Ok False"
proof -
  from assms obtain w x y z where b: "b = [w, x, y, z]" by (auto simp: length_4_conv)
  have n: "w = of_nat k \<longleftrightarrow> unat w = k" if "k < 256" for k and w :: byte
    using that by (metis unat_of_nat_byte mod_less of_nat_unat ucast_id)
  have q: "unat x div 16 < 16" "unat x div 16 = 1 \<longleftrightarrow> 16 \<le> unat x \<and> unat x < 32"
    using byte_less_256 [of x] by auto
  have "unat w * 16 + q = 172 * 16 + 1 \<longleftrightarrow> unat w = 172 \<and> q = 1" if "q < 16" for q :: nat
    using that by presburger
  from this [OF q(1)] q(2) have "unat w * 16 + unat x div 16 = 172 * 16 + 1 \<longleftrightarrow> unat w = 172 \<and> 16 \<le> unat x \<and> unat x < 32"
    by simp
  moreover have "unat w * 256 + unat x = 192 * 256 + 168 \<longleftrightarrow> unat w = 192 \<and> unat x = 168"
    if "unat x < 256" for x :: byte
    using that by presburger
  from this [OF byte_less_256] have "unat w * 256 + unat x = 192 * 256 + 168 \<longleftrightarrow> unat w = 192 \<and> unat x = 168" .
  ultimately have "IsPrivate b = Ok (val4 b div 2 ^ 24 = 10 \<or> val4 b div 2 ^ 20 = 172 * 16 + 1
      \<or> val4 b div 2 ^ 16 = 192 * 256 + 168)"
    using n [of 10 w] n [of 172 w] n [of 192 w] n [of 168 x] val4_prefixes [OF assms, unfolded b]
    by (simp add: b IsPrivate_def word_le_nat_alt word_less_nat_alt)
  moreover have "IsPrivate (v4InV6Prefix @ b) = Ok False"
    by (simp add: IsPrivate_def v4InV6Prefix_def)
  ultimately show ?thesis by simp
qed

theorem IsPrivate_forms_witness:
  "IsPrivate [172, 20, 1, 1] = Ok (val4 [172, 20, 1, 1] div 2 ^ 24 = 10
      \<or> val4 [172, 20, 1, 1] div 2 ^ 20 = 172 * 16 + 1
      \<or> val4 [172, 20, 1, 1] div 2 ^ 16 = 192 * 256 + 168)
    \<and> IsPrivate (v4InV6Prefix @ [172, 20, 1, 1]) = Ok False"
  by (rule IsPrivate_forms) simp

end
