(* ===== verification/Config.thy ===== *)
theory Config
  imports Records IpUtil World
begin

text \<open>
  \<open>pkg/types/config.go\<close>: the options of the plugin, read from the JSON the container runtime
  writes to its standard input, and \<open>Default\<close>, which completes them from files of the host
  and from etcd. \<open>SetLog\<close> only sets up logging and is not modelled.
\<close>

subsection \<open>Options\<close>

record RouteConf =
  rc_Net :: string
  rc_NetMask :: string
  rc_GW :: string

record IPAM =
  im_Type :: string
  im_IPV4 :: bool
  im_IPV6 :: bool
  im_ReginNetAPI :: string
  im_ReginToken :: string
  im_Route :: "RouteConf option list"

record Options =
  op_Name :: string
  op_Type :: string
  op_LogLevel :: string
  op_LogPath :: string
  op_MidoNetHostUUID :: string
  op_MidoNetRouterCIDR :: string
  op_MidoNetBridgeCIDR :: string
  op_IPAM :: IPAM
  op_MTU :: int
  op_VethCtrlType :: string
  op_MidoNetAPIConf :: MidoNetAPIConf
  op_ETCDConf :: ETCDConf

subsection \<open>Reading them\<close>

definition as_struct :: "'a field list \<Rightarrow> ('r \<Rightarrow> 'a) \<Rightarrow> ('a \<Rightarrow> 'r \<Rightarrow> 'r) \<Rightarrow> json \<Rightarrow> 'r \<Rightarrow> 'r option" where
  "as_struct fs get put v r = map_option (\<lambda>a. put a r) (set_struct fs v (get r))"

text \<open>The elements of an array, each filled from an empty value.\<close>

fun each_value :: "(json \<Rightarrow> 'a option) \<Rightarrow> json list \<Rightarrow> 'a list option" where
  "each_value f [] = Some []"
| "each_value f (v # vs) = (case f v of None \<Rightarrow> None | Some x \<Rightarrow> map_option (Cons x) (each_value f vs))"

definition as_list :: "(json \<Rightarrow> 'a option) \<Rightarrow> ('a list \<Rightarrow> 'r \<Rightarrow> 'r) \<Rightarrow> json \<Rightarrow> 'r \<Rightarrow> 'r option" where
  "as_list f put v r =
     (case v of JArr vs \<Rightarrow> map_option (\<lambda>xs. put xs r) (each_value f vs) | JNull \<Rightarrow> Some (put [] r) | _ \<Rightarrow> None)"

definition string_value :: "json \<Rightarrow> string option" where
  "string_value v = as_string (\<lambda>s _. s) v []"

definition RouteConf_zero :: RouteConf where
  "RouteConf_zero = \<lparr>rc_Net = [], rc_NetMask = [], rc_GW = []\<rparr>"

definition RouteConf_fields :: "RouteConf field list" where
  "RouteConf_fields =
     [(''net'', as_string (\<lambda>s r. r\<lparr>rc_Net := s\<rparr>)), (''netmask'', as_string (\<lambda>s r. r\<lparr>rc_NetMask := s\<rparr>)),
      (''gw'', as_string (\<lambda>s r. r\<lparr>rc_GW := s\<rparr>))]"

text \<open>An element of \<open>[]*Route\<close>: \<open>null\<close> is a nil pointer.\<close>

definition route_value :: "json \<Rightarrow> RouteConf option option" where
  "route_value v =
     (case v of JNull \<Rightarrow> Some None | _ \<Rightarrow> map_option Some (set_struct RouteConf_fields v RouteConf_zero))"

definition Routes_Unmarshal :: "string \<Rightarrow> RouteConf option list option" where
  "Routes_Unmarshal s = Option.bind (json_parse s) (\<lambda>v. as_list route_value (\<lambda>xs _. xs) v [])"

definition IPAM_fields :: "IPAM field list" where
  "IPAM_fields =
     [(''type'', as_string (\<lambda>s i. i\<lparr>im_Type := s\<rparr>)), (''ipv4'', as_bool (\<lambda>b i. i\<lparr>im_IPV4 := b\<rparr>)),
      (''ipv6'', as_bool (\<lambda>b i. i\<lparr>im_IPV6 := b\<rparr>)),
      (''region_net_api'', as_string (\<lambda>s i. i\<lparr>im_ReginNetAPI := s\<rparr>)),
      (''region_token'', as_string (\<lambda>s i. i\<lparr>im_ReginToken := s\<rparr>)),
      (''route'', as_list route_value (\<lambda>rs i. i\<lparr>im_Route := rs\<rparr>))]"

definition MidoNetAPIConf_fields :: "MidoNetAPIConf field list" where
  "MidoNetAPIConf_fields =
     [(''url'', as_list string_value (\<lambda>us c. c\<lparr>mc_URL := us\<rparr>)),
      (''user_name'', as_string (\<lambda>s c. c\<lparr>mc_UserName := s\<rparr>)),
      (''password'', as_string (\<lambda>s c. c\<lparr>mc_PassWord := s\<rparr>)),
      (''project_id'', as_string (\<lambda>s c. c\<lparr>mc_ProjectID := s\<rparr>)),
      (''provider_router_id'', as_string (\<lambda>s c. c\<lparr>mc_ProviderRouterID := s\<rparr>)),
      (''version'', as_int (\<lambda>i c. c\<lparr>mc_Version := i\<rparr>))]"

definition ETCDConf_fields :: "ETCDConf field list" where
  "ETCDConf_fields =
     [(''urls'', as_list string_value (\<lambda>us c. c\<lparr>ec_URLs := us\<rparr>)),
      (''username'', as_string (\<lambda>s c. c\<lparr>ec_Username := s\<rparr>)),
      (''password'', as_string (\<lambda>s c. c\<lparr>ec_Password := s\<rparr>)),
      (''timeout'', as_string (\<lambda>s c. c\<lparr>ec_PeerTimeOut := s\<rparr>))]"

definition Options_zero :: Options where
  "Options_zero =
     \<lparr>op_Name = [], op_Type = [], op_LogLevel = [], op_LogPath = [], op_MidoNetHostUUID = [],
      op_MidoNetRouterCIDR = [], op_MidoNetBridgeCIDR = [],
      op_IPAM = \<lparr>im_Type = [], im_IPV4 = False, im_IPV6 = False, im_ReginNetAPI = [], im_ReginToken = [],
                 im_Route = []\<rparr>,
      op_MTU = 0, op_VethCtrlType = [],
      op_MidoNetAPIConf = \<lparr>mc_URL = [], mc_UserName = [], mc_PassWord = [], mc_ProjectID = [],
                           mc_ProviderRouterID = [], mc_Version = 0\<rparr>,
      op_ETCDConf = \<lparr>ec_URLs = [], ec_Username = [], ec_Password = [], ec_PeerTimeOut = []\<rparr>\<rparr>"

definition Options_fields :: "Options field list" where
  "Options_fields =
     [(''name'', as_string (\<lambda>s c. c\<lparr>op_Name := s\<rparr>)), (''type'', as_string (\<lambda>s c. c\<lparr>op_Type := s\<rparr>)),
      (''log_level'', as_string (\<lambda>s c. c\<lparr>op_LogLevel := s\<rparr>)), (''log_path'', as_string (\<lambda>s c. c\<lparr>op_LogPath := s\<rparr>)),
      (''midonet_host_uuid'', as_string (\<lambda>s c. c\<lparr>op_MidoNetHostUUID := s\<rparr>)),
      (''midonet_router_cidr'', as_string (\<lambda>s c. c\<lparr>op_MidoNetRouterCIDR := s\<rparr>)),
      (''midonet_bridge_cidr'', as_string (\<lambda>s c. c\<lparr>op_MidoNetBridgeCIDR := s\<rparr>)),
      (''ipam'', as_struct IPAM_fields op_IPAM (\<lambda>i c. c\<lparr>op_IPAM := i\<rparr>)),
      (''mtu'', as_int (\<lambda>i c. c\<lparr>op_MTU := i\<rparr>)),
      (''veth_ctrl_type'', as_string (\<lambda>s c. c\<lparr>op_VethCtrlType := s\<rparr>)),
      (''midonet_api'', as_struct MidoNetAPIConf_fields op_MidoNetAPIConf (\<lambda>m c. c\<lparr>op_MidoNetAPIConf := m\<rparr>)),
      (''etcd_conf'', as_struct ETCDConf_fields op_ETCDConf (\<lambda>e c. c\<lparr>op_ETCDConf := e\<rparr>))]"

definition Options_Unmarshal :: "string \<Rightarrow> Options option" where
  "Options_Unmarshal s = Unmarshal Options_fields Options_zero s"

subsection \<open>\<open>Default\<close>\<close>

text \<open>A network that is not configured, or is too small, is replaced.\<close>

definition default_cidr :: "string \<Rightarrow> nat \<Rightarrow> string \<Rightarrow> string outcome option" where
  "default_cidr cidr smallest dflt =
     (if cidr = [] then Some (Ok dflt)
      else do {
        len \<leftarrow> RangeLength cidr;
        Some (case len of
            Ok k \<Rightarrow> Ok (if k < smallest then dflt else cidr)
          | Err e \<Rightarrow> Err e
          | Panic \<Rightarrow> Panic)
      })"

text \<open>The contents of the first of the two files that can be read.\<close>

definition read_host_uuid :: "env \<Rightarrow> history \<Rightarrow> (go_error + string) \<times> history" where
  "read_host_uuid E tr =
     (let second = (\<lambda>tr.
        case host_call E (Stat ''/etc/midonet_host_id.properties'') tr of (st, tr) \<Rightarrow>
          case st of
            Inl err \<Rightarrow> (Inl err, tr)
          | Inr _ \<Rightarrow> host_call E (ReadFile ''/etc/midonet_host_id.properties'') tr)
      in case host_call E (Stat ''/etc/midolman/host_uuid.properties'') tr of (st, tr) \<Rightarrow>
        case st of
          Inl _ \<Rightarrow> second tr
        | Inr _ \<Rightarrow>
            (case host_call E (ReadFile ''/etc/midolman/host_uuid.properties'') tr of (data, tr) \<Rightarrow>
               case data of Inl _ \<Rightarrow> second tr | Inr d \<Rightarrow> (Inr d, tr)))"

text \<open>
  The host's identifier: \<open>Inl err\<close> is a return from \<open>Default\<close>. When the file does not have
  one equals sign, \<open>Default\<close> returns its variable \<open>err\<close>, which is nil there.
\<close>

definition host_uuid :: "env \<Rightarrow> Options \<Rightarrow> history \<Rightarrow> (go_error option + Options) \<times> history" where
  "host_uuid E c tr =
     (if op_MidoNetHostUUID c \<noteq> [] then (Inr c, tr)
      else
        (case read_host_uuid E tr of (data, tr) \<Rightarrow>
           case data of
             Inl err \<Rightarrow> (Inl (Some err), tr)
           | Inr data \<Rightarrow>
               (let datas = go_split data (CHR ''='')
                in if length datas = 2 then (Inr (c\<lparr>op_MidoNetHostUUID := datas ! 1\<rparr>), tr)
                   else (Inl None, tr))))"

definition getEndpoint :: "env \<Rightarrow> ETCDConf \<Rightarrow> history \<Rightarrow> string list \<times> history" where
  "getEndpoint E conf tr =
     (case CreateETCDV3Client E conf of
        Some _ \<Rightarrow> ([], tr)
      | None \<Rightarrow>
          (let a = v3_srv E tr ''/traefik/backends/rbd_midonet_api/servers'';
               tr = tr @ [V3Ev ''/traefik/backends/rbd_midonet_api/servers'' a]
           in case a of
                Inl _ \<Rightarrow> ([], tr)
              | Inr kvs \<Rightarrow>
                  (List.map snd (filter (\<lambda>(k, v). has_suffix k ''/url'' \<and> 2 < length (go_split k (CHR ''/''))) kvs), tr)))"

text \<open>
  The custom routes, from etcd when the configuration has none. (The text of a JSON error is
  left out of the message.)
\<close>

definition default_routes :: "env \<Rightarrow> Options \<Rightarrow> history \<Rightarrow> (Options outcome) \<times> history" where
  "default_routes E c tr =
     (if im_Route (op_IPAM c) \<noteq> [] then (Ok c, tr)
      else
        (case createETCDClient E (op_ETCDConf c) of
           Some err \<Rightarrow> (Err err, tr)
         | None \<Rightarrow>
             (case Keys_Get E ''/midonet-cni/config/route'' False tr of (res, tr) \<Rightarrow>
                case res of
                  Inl err \<Rightarrow> (Err (ErrorString (''Find midonet api config from etcd error.'' @ error_text err)), tr)
                | Inr res \<Rightarrow>
                    (case re_Node res of
                       None \<Rightarrow> (Panic, tr)
                     | Some n \<Rightarrow>
                         (case Routes_Unmarshal (node_Value n) of
                            None \<Rightarrow> (Err (ErrorString ''Find midonet api config from etcd error.''), tr)
                          | Some routes \<Rightarrow> (Ok (c\<lparr>op_IPAM := (op_IPAM c)\<lparr>im_Route := routes\<rparr>\<rparr>), tr))))))"

text \<open>
  \<open>Default\<close> updates the options in place, also when it returns an error, which \<open>cmdDel\<close>
  does not look at: the result is the error and the options as they are left.
\<close>

definition Default :: "env \<Rightarrow> Options \<Rightarrow> history \<Rightarrow> ((unit outcome \<times> Options) \<times> history) option" where
  "Default E c tr =
     (if ec_URLs (op_ETCDConf c) = [] then Some ((Err (ErrorString ''Please config etcd ''), c), tr)
      else do {
        rc \<leftarrow> default_cidr (op_MidoNetRouterCIDR c) 5 ''172.16.0.0/24'';
        bc \<leftarrow> default_cidr (op_MidoNetBridgeCIDR c) 4 ''192.168.0.0/24'';
        (case (rc, bc) of
           (Ok rc, Ok bc) \<Rightarrow>
             (let c = c\<lparr>op_MidoNetRouterCIDR := rc, op_MidoNetBridgeCIDR := bc,
                        op_MTU := (if op_MTU c = 0 then 1454 else op_MTU c)\<rparr>
              in case host_uuid E c tr of (h, tr) \<Rightarrow>
                case h of
                  Inl None \<Rightarrow> Some ((Ok (), c), tr)
                | Inl (Some err) \<Rightarrow> Some ((Err err, c), tr)
                | Inr c \<Rightarrow>
                    (case getEndpoint E (op_ETCDConf c) tr of (endpoints, tr) \<Rightarrow>
                       (let c = (if endpoints \<noteq> []
                                 then c\<lparr>op_MidoNetAPIConf := (op_MidoNetAPIConf c)\<lparr>mc_URL := endpoints\<rparr>\<rparr> else c)
                        in case default_routes E c tr of (r, tr) \<Rightarrow>
                          case r of
                            Ok c \<Rightarrow> Some ((Ok (), c), tr)
                          | Err e \<Rightarrow> Some ((Err e, c), tr)
                          | Panic \<Rightarrow> Some ((Panic, c), tr))))
         | _ \<Rightarrow> Some ((Panic, c), tr))
      })"

text \<open>
  \<open>SetLog\<close>: the directory of the log is made when it is missing, and the log file is opened. The
  level, the format and where the log goes are not part of the model.
\<close>

definition SetLog :: "env \<Rightarrow> Options \<Rightarrow> history \<Rightarrow> Options \<times> history" where
  "SetLog E c tr =
     (let c = (if op_LogPath c = [] then c\<lparr>op_LogPath := ''/var/log/midonet-cni''\<rparr> else c)
      in case host_call E (Stat (op_LogPath c)) tr of (st, tr) \<Rightarrow>
           let tr = (case st of
                       Inl e \<Rightarrow> if IsNotExist e then snd (host_call E (Mkdir (op_LogPath c)) tr) else tr
                     | Inr _ \<Rightarrow> tr)
           in (c, snd (host_call E (OpenLog (op_LogPath c)) tr)))"

subsection \<open>What \<open>Default\<close> establishes\<close>

lemma default_cidr_Ok:
  assumes "default_cidr cidr k dflt = Some (Ok x)" and "RangeLength dflt = Some (Ok d)" and "k \<le> d"
  shows "\<exists>n. RangeLength x = Some (Ok n) \<and> k \<le> n"
  using assms by (auto simp: default_cidr_def split: if_splits bind_splits outcome.splits)

lemma default_networks:
  "RangeLength ''172.16.0.0/24'' = Some (Ok 256)" "RangeLength ''192.168.0.0/24'' = Some (Ok 256)"
proof -
  have "cidr_text [172, 16, 0, 0] 24 = ''172.16.0.0/24''" "cidr_text [192, 168, 0, 0] 24 = ''192.168.0.0/24''"
    by code_simp+
  then show "RangeLength ''172.16.0.0/24'' = Some (Ok 256)" "RangeLength ''192.168.0.0/24'' = Some (Ok 256)"
    using RangeLength_network [of "[172, 16, 0, 0]" 24] RangeLength_network [of "[192, 168, 0, 0]" 24]
    by (simp_all add: is_network_def val4_def)
qed

text \<open>The steps from the host's identifier on change only that identifier, the addresses and the routes.\<close>

definition same_networks :: "Options \<Rightarrow> Options \<Rightarrow> bool" where
  "same_networks c c' \<longleftrightarrow> op_MidoNetRouterCIDR c' = op_MidoNetRouterCIDR c \<and> op_MidoNetBridgeCIDR c' = op_MidoNetBridgeCIDR c
     \<and> op_MTU c' = op_MTU c \<and> op_ETCDConf c' = op_ETCDConf c \<and> im_Type (op_IPAM c') = im_Type (op_IPAM c)"

lemma host_uuid_same: "host_uuid E c tr = (Inr c', tr') \<Longrightarrow> same_networks c c'"
  by (auto simp: host_uuid_def same_networks_def Let_def split: if_splits prod.splits sum.splits)

lemma default_routes_same: "default_routes E c tr = (Ok c', tr') \<Longrightarrow> same_networks c c'"
  by (auto simp: default_routes_def same_networks_def split: if_splits option.splits sum.splits prod.splits)

lemma Default_cases:
  assumes "Default E c tr = Some ((res, c'), tr')" and "res \<noteq> Panic" and "ec_URLs (op_ETCDConf c) \<noteq> []"
  shows "\<exists>rc bc. default_cidr (op_MidoNetRouterCIDR c) 5 ''172.16.0.0/24'' = Some (Ok rc)
    \<and> default_cidr (op_MidoNetBridgeCIDR c) 4 ''192.168.0.0/24'' = Some (Ok bc)
    \<and> same_networks (c\<lparr>op_MidoNetRouterCIDR := rc, op_MidoNetBridgeCIDR := bc,
        op_MTU := (if op_MTU c = 0 then 1454 else op_MTU c)\<rparr>) c'"
proof -
  from assms obtain rc bc where r: "default_cidr (op_MidoNetRouterCIDR c) 5 ''172.16.0.0/24'' = Some (Ok rc)"
    and b: "default_cidr (op_MidoNetBridgeCIDR c) 4 ''192.168.0.0/24'' = Some (Ok bc)"
    by (auto simp: Default_def split: if_splits bind_splits outcome.splits)
  let ?c = "c\<lparr>op_MidoNetRouterCIDR := rc, op_MidoNetBridgeCIDR := bc, op_MTU := (if op_MTU c = 0 then 1454 else op_MTU c)\<rparr>"
  have refl: "same_networks ?c ?c" by (simp add: same_networks_def)
  have trans: "same_networks a d \<Longrightarrow> same_networks d e \<Longrightarrow> same_networks a e" for a d e by (simp add: same_networks_def)
  have url: "same_networks a (if es \<noteq> [] then a\<lparr>op_MidoNetAPIConf := x\<rparr> else a)" for a es x by (simp add: same_networks_def)
  obtain h t1 where h: "host_uuid E ?c tr = (h, t1)" by fastforce
  have "same_networks ?c c'"
  proof (cases h)
    case (Inl e)
    with assms(1,3) r b h refl show ?thesis by (auto simp: Default_def Let_def split: option.splits)
  next
    case (Inr c1)
    with h have s: "same_networks ?c c1" by (simp add: host_uuid_same)
    obtain es t2 where g: "getEndpoint E (op_ETCDConf c1) t1 = (es, t2)" by fastforce
    let ?c2 = "if es \<noteq> [] then c1\<lparr>op_MidoNetAPIConf := (op_MidoNetAPIConf c1)\<lparr>mc_URL := es\<rparr>\<rparr> else c1"
    obtain x t3 where d: "default_routes E ?c2 t2 = (x, t3)" by fastforce
    from assms(1,3) r b h Inr g d have "(\<exists>c3. x = Ok c3 \<and> c' = c3) \<or> c' = ?c2"
      by (cases x) (simp_all add: Default_def Let_def)
    then have "same_networks ?c2 c'"
    proof
      assume "\<exists>c3. x = Ok c3 \<and> c' = c3"
      with d have "default_routes E ?c2 t2 = (Ok c', t3)" by blast
      then show ?thesis by (rule default_routes_same)
    qed (simp add: same_networks_def)
    from trans [OF trans [OF s url [of c1 es]] this] show ?thesis .
  qed
  with r b show ?thesis by blast
qed

text \<open>
  C33: when \<open>Default\<close> returns on a configuration with an etcd address, with an error or
  without, the options it leaves have the networks the rest of the program needs: one of at
  least five addresses for the links of the routers and one of at least four for the bridges;
  the MTU is not zero; and neither the connection to etcd nor the type of the address manager
  was changed.
\<close>

theorem Default_networks:
  assumes "Default E c tr = Some ((res, c'), tr')" and "res \<noteq> Panic" and "ec_URLs (op_ETCDConf c) \<noteq> []"
  shows "(\<exists>n. RangeLength (op_MidoNetRouterCIDR c') = Some (Ok n) \<and> 5 \<le> n)
    \<and> (\<exists>n. RangeLength (op_MidoNetBridgeCIDR c') = Some (Ok n) \<and> 4 \<le> n)
    \<and> op_MTU c' \<noteq> 0 \<and> op_ETCDConf c' = op_ETCDConf c \<and> im_Type (op_IPAM c') = im_Type (op_IPAM c)"
proof -
  from Default_cases [OF assms] obtain rc bc where
    r: "default_cidr (op_MidoNetRouterCIDR c) 5 ''172.16.0.0/24'' = Some (Ok rc)"
    and b: "default_cidr (op_MidoNetBridgeCIDR c) 4 ''192.168.0.0/24'' = Some (Ok bc)"
    and s: "same_networks (c\<lparr>op_MidoNetRouterCIDR := rc, op_MidoNetBridgeCIDR := bc,
        op_MTU := (if op_MTU c = 0 then 1454 else op_MTU c)\<rparr>) c'" by blast
  from default_cidr_Ok [OF r default_networks(1)] default_cidr_Ok [OF b default_networks(2)] s show ?thesis
    by (simp add: same_networks_def)
qed

text \<open>
  C32: which timeouts the etcd clients get, in nanoseconds: none when it is not configured; always
  one that fits into 64 bits; the seconds that are written with their unit, up to 9223372036; and one second
  for a number without a unit, other than 0, or too many seconds, as for every text that is not a duration.
\<close>

theorem peer_timeout_reads:
  "peer_timeout [] = 0 \<and> \<bar>peer_timeout s\<bar> < 2 ^ 63
    \<and> peer_timeout (itoa n @ ''s'') = (if n \<le> 9223372036 then int n * 1000000000 else 1000000000)
    \<and> peer_timeout (itoa n) = (if n = 0 then 0 else 1000000000)"
proof -
  have "\<bar>peer_timeout s\<bar> < 2 ^ 63" using ParseDuration_bound [of s] by (auto simp: peer_timeout_def split: option.split)
  then show ?thesis by (simp add: peer_timeout_def ParseDuration_seconds ParseDuration_bare)
qed

text \<open>A configuration with the address of an etcd and an identifier of the host.\<close>

definition plain_options :: Options where
  "plain_options = Options_zero\<lparr>op_MidoNetHostUUID := ''h'', op_ETCDConf := (op_ETCDConf Options_zero)\<lparr>ec_URLs := [''http://e:2379'']\<rparr>\<rparr>"

definition no_services :: env where
  "no_services = \<lparr>etcd_srv = (\<lambda>_ _. Inl (OtherError ''connection refused'')),
     etcd_new = (\<lambda>_. None), v3_srv = (\<lambda>_ _. Inl (OtherError ''connection refused'')), v3_new = (\<lambda>_. None),
     mido_srv = (\<lambda>_ _. Inl (OtherError ''connection refused'')),
     host_srv = (\<lambda>_ _. Inl (OtherError ''no such file or directory'')), random_srv = (\<lambda>_. []),
     hostname_srv = None, stamp_srv = (\<lambda>_. []), region_srv = (\<lambda>_ _. Inl (OtherError ''connection refused''))\<rparr>"

theorem Default_networks_witness:
  "\<exists>e c' tr'. Default no_services plain_options [] = Some ((Err e, c'), tr') \<and>
   ((\<exists>n. RangeLength (op_MidoNetRouterCIDR c') = Some (Ok n) \<and> 5 \<le> n)
    \<and> (\<exists>n. RangeLength (op_MidoNetBridgeCIDR c') = Some (Ok n) \<and> 4 \<le> n)
    \<and> op_MTU c' \<noteq> 0 \<and> op_ETCDConf c' = op_ETCDConf plain_options \<and> im_Type (op_IPAM c') = im_Type (op_IPAM plain_options))"
proof -
  have "\<exists>e c' tr'. Default no_services plain_options [] = Some ((Err e, c'), tr')"
    by (simp add: Default_def default_cidr_def host_uuid_def getEndpoint_def CreateETCDV3Client_def createETCDClient_def default_routes_def etcd_call_eq Let_def
        no_services_def plain_options_def Options_zero_def)
  then obtain e c' tr' where run: "Default no_services plain_options [] = Some ((Err e, c'), tr')" by blast
  have "ec_URLs (op_ETCDConf plain_options) \<noteq> []" by (simp add: plain_options_def)
  from run Default_networks [OF run _ this] show ?thesis by blast
qed

end
