(* ===== verification/EtcdLock.thy ===== *)
theory EtcdLock
  imports World
begin

text \<open>
  \<open>pkg/etcd/etcd_util.go\<close>: the distributed mutex on an etcd key, and \<open>HandleError\<close>.
  The lemmas say which requests \<open>Lock\<close> and \<open>Unlock\<close> make and when they return.
\<close>

subsection \<open>The mutex\<close>

record Mutex =
  mx_key :: string
  mx_id :: string
  mx_ttl :: nat
  mx_mutex :: bool

definition defaultTTL :: int where "defaultTTL = 60"
definition defaultTry :: nat where "defaultTry = 3"
definition deleteAction :: string where "deleteAction = ''delete''"
definition expireAction :: string where "expireAction = ''expire''"

text \<open>
  \<open>New\<close>: nil when the host has no name or the key is empty. The identity of the caller is
  made of the host name, the process id and the time.
\<close>

definition Mutex_New :: "env \<Rightarrow> string \<Rightarrow> int \<Rightarrow> history \<Rightarrow> Mutex option" where
  "Mutex_New E key ttl tr =
     (case hostname_srv E of
        None \<Rightarrow> None
      | Some hostname \<Rightarrow>
          if key = [] then None
          else Some \<lparr>mx_key = (if hd key \<noteq> CHR ''/'' then CHR ''/'' # key else key),
                     mx_id = hostname @ ''-'' @ stamp_srv E tr,
                     mx_ttl = nat (if ttl < 1 then defaultTTL else ttl),
                     mx_mutex = False\<rparr>)"

text \<open>The loop at the end of \<open>lock\<close>, waiting for the key to go away.\<close>

partial_function (option) watch_loop ::
    "env \<Rightarrow> string \<Rightarrow> nat \<Rightarrow> history \<Rightarrow> (go_error option \<times> history) option" where
  "watch_loop E key idx tr =
     (case etcd_call E (WatchNext key idx) tr of (resp, tr) \<Rightarrow>
        case resp of
          Inl err \<Rightarrow> Some (Some err, tr)
        | Inr r \<Rightarrow>
            if re_Action r = deleteAction \<or> re_Action r = expireAction then Some (None, tr)
            else watch_loop E key idx tr)"

declare watch_loop.simps [code]

definition lock :: "env \<Rightarrow> Mutex \<Rightarrow> history \<Rightarrow> (go_error option \<times> history) option" where
  "lock E m tr =
     (case etcd_call E (KeysSet (mx_key m) (mx_id m) True (mx_ttl m)) tr of (resp, tr) \<Rightarrow>
        case resp of
          Inr _ \<Rightarrow> Some (None, tr)
        | Inl err \<Rightarrow>
            (case client_error_code err of
               None \<Rightarrow> Some (Some err, tr)
             | Some code \<Rightarrow>
                 if code \<noteq> ErrorCodeNodeExist then Some (Some err, tr)
                 else
                   (case Keys_Get E (mx_key m) False tr of (resp, tr) \<Rightarrow>
                      case resp of
                        Inl err \<Rightarrow> Some (Some err, tr)
                      | Inr r \<Rightarrow> watch_loop E (mx_key m) (re_Index r) tr)))"

text \<open>
  \<open>Lock\<close>: the loop has \<open>n\<close> attempts left; \<open>err\<close> is the function's named result, which
  starts as nil and which the body does not assign.
\<close>

fun Lock_loop ::
    "env \<Rightarrow> Mutex \<Rightarrow> nat \<Rightarrow> go_error option \<Rightarrow> history \<Rightarrow> (go_error option \<times> history) option" where
  "Lock_loop E m 0 err tr = Some (err, tr)"
| "Lock_loop E m (Suc n) err tr = do {
     (e, tr) \<leftarrow> lock E m tr;
     (if e = None then Some (None, tr) else Lock_loop E m n err tr)
   }"

text \<open>
  \<open>m.mutex\<close> is a mutex of this process. Locking it twice blocks for ever, unlocking it when
  it is not locked kills the process: both are \<open>None\<close>.
\<close>

definition Lock :: "env \<Rightarrow> Mutex \<Rightarrow> history \<Rightarrow> ((go_error option \<times> Mutex) \<times> history) option" where
  "Lock E m tr =
     (if mx_mutex m then None
      else do {
        (err, tr) \<leftarrow> Lock_loop E m defaultTry None tr;
        Some ((err, m\<lparr>mx_mutex := True\<rparr>), tr)
      })"

fun Unlock_loop :: "env \<Rightarrow> Mutex \<Rightarrow> nat \<Rightarrow> go_error option \<Rightarrow> history \<Rightarrow> go_error option \<times> history" where
  "Unlock_loop E m 0 err tr = (err, tr)"
| "Unlock_loop E m (Suc n) err tr =
     (case Keys_Delete E (mx_key m) tr of (resp, tr) \<Rightarrow>
        case resp of
          Inr _ \<Rightarrow> (None, tr)
        | Inl e \<Rightarrow> if IsKeyNotFound e then (None, tr) else Unlock_loop E m n (Some e) tr)"

definition Unlock :: "env \<Rightarrow> Mutex \<Rightarrow> history \<Rightarrow> ((go_error option \<times> Mutex) \<times> history) option" where
  "Unlock E m tr =
     (if \<not> mx_mutex m then None
      else (case Unlock_loop E m defaultTry None tr of
              (err, tr) \<Rightarrow> Some ((err, m\<lparr>mx_mutex := False\<rparr>), tr)))"

text \<open>
  \<open>HandleError\<close> logs which kind of error it was given and returns it. (For a nil error the
  last return gives nil back.)
\<close>

definition HandleError :: "go_error option \<Rightarrow> go_error option" where
  "HandleError err =
     (case err of
        Some CtxCanceled \<Rightarrow> err
      | Some CtxDeadlineExceeded \<Rightarrow> err
      | Some (ClusterError cerr) \<Rightarrow> Some (ClusterError cerr)
      | _ \<Rightarrow> err)"

text \<open>
  The way every operation uses the mutex: make it, fail when it is nil, lock it, fail when
  that gives an error, run the body, and unlock when the body is left, by a return or by a
  panic (a deferred function whose result the operations drop).
\<close>

definition with_lock ::
    "env \<Rightarrow> string \<Rightarrow> string \<Rightarrow> string \<Rightarrow> (history \<Rightarrow> ('a outcome \<times> history) option)
     \<Rightarrow> history \<Rightarrow> ('a outcome \<times> history) option" where
  "with_lock E key new_failed lock_failed body tr =
     (case Mutex_New E key 20 tr of
        None \<Rightarrow> Some (Err (ErrorString new_failed), tr)
      | Some m \<Rightarrow> do {
          ((err, m), tr) \<leftarrow> Lock E m tr;
          (if err \<noteq> None then Some (Err (ErrorString lock_failed), tr)
           else do {
             (res, tr) \<leftarrow> body tr;
             ((_, m), tr) \<leftarrow> Unlock E m tr;
             Some (res, tr)
           })
        })"

subsection \<open>When the waiting loop ends\<close>

definition is_gone :: "Response \<Rightarrow> bool" where
  "is_gone r \<longleftrightarrow> re_Action r = deleteAction \<or> re_Action r = expireAction"

text \<open>
  The watcher of \<open>key\<close> eventually fails or reports that the key is gone: what etcd promises
  for a key with a time to live.
\<close>

inductive watch_ends :: "env \<Rightarrow> string \<Rightarrow> nat \<Rightarrow> history \<Rightarrow> bool" for E key idx where
  watch_fails: "etcd_srv E tr (WatchNext key idx) = Inl e \<Longrightarrow> watch_ends E key idx tr"
| watch_gone: "etcd_srv E tr (WatchNext key idx) = Inr r \<Longrightarrow> is_gone r \<Longrightarrow> watch_ends E key idx tr"
| watch_goes_on: "etcd_srv E tr (WatchNext key idx) = Inr r \<Longrightarrow> \<not> is_gone r \<Longrightarrow>
    watch_ends E key idx (tr @ [EtcdEv (WatchNext key idx) (Inr r)]) \<Longrightarrow> watch_ends E key idx tr"

lemma watch_loop_unfold:
  "watch_loop E key idx tr =
     (case etcd_srv E tr (WatchNext key idx) of
        Inl err \<Rightarrow> Some (Some err, tr @ [EtcdEv (WatchNext key idx) (Inl err)])
      | Inr r \<Rightarrow> if is_gone r then Some (None, tr @ [EtcdEv (WatchNext key idx) (Inr r)])
               else watch_loop E key idx (tr @ [EtcdEv (WatchNext key idx) (Inr r)]))"
  by (subst watch_loop.simps) (simp add: etcd_call_eq is_gone_def split: sum.split)

lemma watch_ends_returns: "watch_ends E key idx tr \<Longrightarrow> watch_loop E key idx tr \<noteq> None"
  by (induction rule: watch_ends.induct) (simp_all add: watch_loop_unfold)

lemma watch_loop_induct [consumes 1, case_names fail gone on]:
  assumes ret: "watch_loop E key idx tr = Some (r, tr')"
    and fail: "\<And>tr err. etcd_srv E tr (WatchNext key idx) = Inl err \<Longrightarrow>
      P tr (Some err) (tr @ [EtcdEv (WatchNext key idx) (Inl err)])"
    and gone: "\<And>tr a. etcd_srv E tr (WatchNext key idx) = Inr a \<Longrightarrow> is_gone a \<Longrightarrow>
      P tr None (tr @ [EtcdEv (WatchNext key idx) (Inr a)])"
    and on: "\<And>tr a r tr'. etcd_srv E tr (WatchNext key idx) = Inr a \<Longrightarrow> \<not> is_gone a \<Longrightarrow>
      P (tr @ [EtcdEv (WatchNext key idx) (Inr a)]) r tr' \<Longrightarrow> P tr r tr'"
  shows "P tr r tr'"
proof -
  have "E = E \<longrightarrow> key = key \<longrightarrow> idx = idx \<longrightarrow> P tr (fst (r, tr')) (snd (r, tr'))"
  proof (rule watch_loop.raw_induct [where P = "\<lambda>F k i t q. F = E \<longrightarrow> k = key \<longrightarrow> i = idx \<longrightarrow> P t (fst q) (snd q)",
        OF _ ret])
    fix f F k i t q
    assume IH: "\<And>F k i t q. f F k i t = Some q \<Longrightarrow>
        F = E \<longrightarrow> k = key \<longrightarrow> i = idx \<longrightarrow> P t (fst q) (snd q)"
      and eq: "(case etcd_call F (WatchNext k i) t of (resp, tr) \<Rightarrow>
        case resp of Inl err \<Rightarrow> Some (Some err, tr)
        | Inr r \<Rightarrow> if re_Action r = deleteAction \<or> re_Action r = expireAction then Some (None, tr)
            else f F k i tr) = Some q"
    then show "F = E \<longrightarrow> k = key \<longrightarrow> i = idx \<longrightarrow> P t (fst q) (snd q)"
      using fail gone by (auto simp: etcd_call_eq is_gone_def split: sum.splits if_splits intro: on)
  qed
  then show ?thesis by simp
qed

lemma watch_loop_ends: "watch_loop E key idx tr = Some (r, tr') \<Longrightarrow> watch_ends E key idx tr"
  by (induction rule: watch_loop_induct) (auto intro: watch_ends.intros)

text \<open>The loop only waits: every request it makes is a \<open>Next\<close> of the watcher of the key.\<close>

definition is_watch :: "string \<Rightarrow> event \<Rightarrow> bool" where
  "is_watch key e = (case e of EtcdEv (WatchNext k _) _ \<Rightarrow> k = key | _ \<Rightarrow> False)"

definition is_unlock :: "string \<Rightarrow> event \<Rightarrow> bool" where
  "is_unlock key e = (case e of EtcdEv (KeysDelete k False False) _ \<Rightarrow> k = key | _ \<Rightarrow> False)"

text \<open>The traffic of a mutex on its key.\<close>

definition lock_event :: "string \<Rightarrow> event \<Rightarrow> bool" where
  "lock_event key e =
     (case e of
        EtcdEv (KeysSet k _ True _) _ \<Rightarrow> k = key
      | EtcdEv (KeysGet k False) _ \<Rightarrow> k = key
      | EtcdEv (WatchNext k _) _ \<Rightarrow> k = key
      | EtcdEv (KeysDelete k False False) _ \<Rightarrow> k = key
      | _ \<Rightarrow> False)"

lemma is_watch_lock_event: "is_watch key e \<Longrightarrow> lock_event key e"
  and is_unlock_lock_event: "is_unlock key e \<Longrightarrow> lock_event key e"
  by (auto simp: is_watch_def is_unlock_def lock_event_def split: event.splits etcd_req.splits bool.splits)

lemma lock_event_simps [simp]:
  "lock_event key (EtcdEv (KeysSet k v p t) a) \<longleftrightarrow> p \<and> k = key"
  "lock_event key (EtcdEv (KeysGet k rec) a) \<longleftrightarrow> \<not> rec \<and> k = key"
  "lock_event key (EtcdEv (WatchNext k i) a) \<longleftrightarrow> k = key"
  "lock_event key (EtcdEv (KeysDelete k d rec) a) \<longleftrightarrow> \<not> d \<and> \<not> rec \<and> k = key"
  "\<not> lock_event key (EtcdEv (KeysUpdate k v) a)"
  "\<not> lock_event key (MidoEv q b)" "\<not> lock_event key (UuidEv u)"
  "\<not> lock_event key (HostEv h c)" "\<not> lock_event key (V3Ev pre kvs)"
  by (simp_all add: lock_event_def split: bool.split)

lemma is_watch_simps [simp]: "is_watch key (EtcdEv (WatchNext k i) a) \<longleftrightarrow> k = key"
  by (simp add: is_watch_def)

lemma is_unlock_simps [simp]:
  "is_unlock key (EtcdEv (KeysDelete k d rec) a) \<longleftrightarrow> \<not> d \<and> \<not> rec \<and> k = key"
  by (simp add: is_unlock_def split: bool.split)

lemma watch_loop_shape:
  "watch_loop E key idx tr = Some (r, tr') \<Longrightarrow>
   \<exists>ws. tr' = tr @ ws \<and> ws \<noteq> [] \<and> list_all (is_watch key) ws"
proof (induction rule: watch_loop_induct)
  case (on tr a r tr')
  then obtain ws where "tr' = (tr @ [EtcdEv (WatchNext key idx) (Inr a)]) @ ws" "list_all (is_watch key) ws"
    by blast
  then show ?case
    by (intro exI [of _ "EtcdEv (WatchNext key idx) (Inr a) # ws"]) simp
qed auto

lemma watch_loop_lock_events:
  "watch_loop E key idx tr = Some (r, tr') \<Longrightarrow> \<exists>ws. tr' = tr @ ws \<and> list_all (lock_event key) ws"
  using watch_loop_shape [of E key idx tr r tr'] is_watch_lock_event [of key]
  by (auto simp: list_all_iff)

subsection \<open>What locking does\<close>

text \<open>
  Success of one attempt: either the key was created, or it existed and the watcher said it
  was gone. In the second case no request creates it.
\<close>

lemma lock_success_cases:
  assumes "lock E m tr = Some (None, tr')"
  obtains
    (created) a where "tr' = tr @ [EtcdEv (KeysSet (mx_key m) (mx_id m) True (mx_ttl m)) (Inr a)]"
  | (waited) msg g ws where "tr' = tr @ [EtcdEv (KeysSet (mx_key m) (mx_id m) True (mx_ttl m))
        (Inl (EtcdError ErrorCodeNodeExist msg)), EtcdEv (KeysGet (mx_key m) False) (Inr g)] @ ws"
      "ws \<noteq> []" "list_all (is_watch (mx_key m)) ws"
proof -
  let ?s = "KeysSet (mx_key m) (mx_id m) True (mx_ttl m)"
  show thesis
  proof (cases "etcd_srv E tr ?s")
    case (Inr a)
    with assms have "tr' = tr @ [EtcdEv ?s (Inr a)]" by (simp add: lock_def etcd_call_eq)
    then show thesis by (rule created)
  next
    case (Inl err)
    with assms obtain msg g where "err = EtcdError ErrorCodeNodeExist msg"
      and "etcd_srv E (tr @ [EtcdEv ?s (Inl err)]) (KeysGet (mx_key m) False) = Inr g"
      and "watch_loop E (mx_key m) (re_Index g)
        (tr @ [EtcdEv ?s (Inl err)] @ [EtcdEv (KeysGet (mx_key m) False) (Inr g)]) = Some (None, tr')"
      by (cases err) (auto simp: lock_def etcd_call_eq split: sum.splits if_splits)
    with watch_loop_shape [OF this(3)] show thesis by (auto intro: waited)
  qed
qed

lemma lock_extends:
  "lock E m tr = Some (r, tr') \<Longrightarrow> \<exists>evs. tr' = tr @ evs \<and> evs \<noteq> [] \<and> list_all (lock_event (mx_key m)) evs"
  by (auto simp: lock_def etcd_call_eq dest!: watch_loop_lock_events
      split: sum.splits option.splits if_splits)

lemma Lock_loop_result: "Lock_loop E m n err tr = Some (r, tr') \<Longrightarrow> r = None \<or> r = err"
  by (induction E m n err tr rule: Lock_loop.induct) (auto split: if_splits bind_splits)

lemma Lock_loop_extends:
  "Lock_loop E m n err tr = Some (r, tr') \<Longrightarrow> \<exists>evs. tr' = tr @ evs \<and> list_all (lock_event (mx_key m)) evs"
proof (induction n arbitrary: tr)
  case (Suc n)
  then show ?case
    by (auto split: if_splits bind_splits dest!: lock_extends Suc.IH)
qed simp

lemma Lock_result:
  "Lock E m tr = Some ((err, m'), tr') \<Longrightarrow> err = None \<and> m' = m\<lparr>mx_mutex := True\<rparr> \<and> \<not> mx_mutex m"
  by (auto simp: Lock_def split: if_splits bind_splits dest: Lock_loop_result)

lemma Lock_extends:
  "Lock E m tr = Some ((err, m'), tr') \<Longrightarrow> \<exists>evs. tr' = tr @ evs \<and> list_all (lock_event (mx_key m)) evs"
  by (auto simp: Lock_def split: if_splits bind_splits dest: Lock_loop_extends)

text \<open>Attempts end when waiting ends, so locking does.\<close>

lemma lock_returns: "(\<And>idx t. watch_ends E (mx_key m) idx t) \<Longrightarrow> lock E m tr \<noteq> None"
  using watch_ends_returns by (auto simp: lock_def etcd_call_eq split: sum.splits option.splits)

lemma Lock_loop_returns: "(\<And>idx t. watch_ends E (mx_key m) idx t) \<Longrightarrow> Lock_loop E m n err tr \<noteq> None"
proof (induction n arbitrary: tr)
  case (Suc n)
  then obtain e t where "lock E m tr = Some (e, t)" using lock_returns [of E m tr] by fastforce
  with Suc show ?case by auto
qed simp

lemma Unlock_loop_extends:
  "Unlock_loop E m n err tr = (r, tr') \<Longrightarrow>
   \<exists>evs. tr' = tr @ evs \<and> list_all (is_unlock (mx_key m)) evs \<and> length evs \<le> n \<and> (0 < n \<longrightarrow> evs \<noteq> [])"
proof (induction n arbitrary: err tr)
  case (Suc n)
  show ?case
  proof (cases "etcd_srv E tr (KeysDelete (mx_key m) False False)")
    case (Inr a)
    with Suc.prems show ?thesis by (auto simp: etcd_call_eq)
  next
    case (Inl e)
    with Suc.prems show ?thesis
      by (auto simp: etcd_call_eq split: if_splits dest!: Suc.IH)
  qed
qed simp

lemma Unlock_extends:
  "Unlock E m tr = Some ((r, m'), tr') \<Longrightarrow>
   \<exists>evs. tr' = tr @ evs \<and> evs \<noteq> [] \<and> list_all (is_unlock (mx_key m)) evs"
  by (auto simp: Unlock_def defaultTry_def split: if_splits prod.splits dest: Unlock_loop_extends)

lemma Unlock_locked: "mx_mutex m \<Longrightarrow> \<exists>r m' tr'. Unlock E m tr = Some ((r, m'), tr')"
  by (auto simp: Unlock_def split: prod.split)

subsection \<open>Sections guarded by the mutex\<close>

text \<open>The key a mutex is made for, with the leading slash \<open>New\<close> adds.\<close>

definition lock_key :: "string \<Rightarrow> string" where
  "lock_key key = (if hd key \<noteq> CHR ''/'' then CHR ''/'' # key else key)"

lemma Mutex_New_Some:
  "Mutex_New E key ttl tr = Some m \<Longrightarrow> mx_key m = lock_key key \<and> \<not> mx_mutex m"
  by (auto simp: Mutex_New_def lock_key_def split: option.splits if_splits)

lemma with_lock_cases:
  assumes "with_lock E key nf lf body tr = Some (res, tr')"
  obtains (refused) "hostname_srv E = None \<or> key = []" "res = Err (ErrorString nf)" "tr' = tr"
  | (ran) pre t post where "list_all (lock_event (lock_key key)) pre" "body (tr @ pre) = Some (res, t)"
      "tr' = t @ post" "post \<noteq> []" "list_all (is_unlock (lock_key key)) post"
proof (cases "Mutex_New E key 20 tr")
  case None
  then have "hostname_srv E = None \<or> key = []"
    by (auto simp: Mutex_New_def split: option.splits if_splits)
  with None assms show thesis by (intro refused) (simp_all add: with_lock_def)
next
  case (Some m)
  note m = Mutex_New_Some [OF this]
  from Some assms obtain err m1 t1 where L: "Lock E m tr = Some ((err, m1), t1)"
    by (auto simp: with_lock_def split: bind_splits)
  note r = Lock_result [OF L]
  obtain pre where pre: "t1 = tr @ pre" "list_all (lock_event (mx_key m)) pre"
    using Lock_extends [OF L] by blast
  from Some assms L r obtain t r' m2 where b: "body t1 = Some (res, t)"
    and U: "Unlock E m1 t = Some ((r', m2), tr')"
    by (auto simp: with_lock_def split: bind_splits)
  obtain post where "tr' = t @ post" "post \<noteq> []" "list_all (is_unlock (mx_key m1)) post"
    using Unlock_extends [OF U] by blast
  with pre b m r show thesis by (intro ran) auto
qed

lemma with_lock_returns:
  assumes "hostname_srv E = Some h" and "key \<noteq> []" and "\<And>idx t. watch_ends E (lock_key key) idx t"
    and "\<And>t. \<exists>r t'. body t = Some (r, t')"
  shows "\<exists>r t'. with_lock E key nf lf body tr = Some (r, t')"
proof -
  from assms(1,2) obtain m where m: "Mutex_New E key 20 tr = Some m" by (simp add: Mutex_New_def)
  note k = Mutex_New_Some [OF this]
  with assms(3) obtain e t1 where l: "Lock_loop E m defaultTry None tr = Some (e, t1)"
    using Lock_loop_returns [of E m defaultTry None tr] by fastforce
  with Lock_loop_result have "e = None" by fastforce
  with l k have L: "Lock E m tr = Some ((None, m\<lparr>mx_mutex := True\<rparr>), t1)" by (simp add: Lock_def)
  from assms(4) obtain r t2 where b: "body t1 = Some (r, t2)" by blast
  from Unlock_locked [of "m\<lparr>mx_mutex := True\<rparr>" E t2] obtain u m' t3
    where "Unlock E (m\<lparr>mx_mutex := True\<rparr>) t2 = Some ((u, m'), t3)" by auto
  with m L b show ?thesis by (simp add: with_lock_def)
qed

text \<open>
  What the operations rely on: running a body under the guard either is refused before
  anything is done, or runs the body once between events of the guard, whose result it gives.
\<close>

locale guard =
  fixes run :: "(history \<Rightarrow> ('a outcome \<times> history) option) \<Rightarrow> history \<Rightarrow> ('a outcome \<times> history) option"
    and noise :: "event \<Rightarrow> bool"
    and refusal :: "go_error"
  assumes run_cases: "run body tr = Some (res, tr') \<Longrightarrow>
      (res = Err refusal \<and> tr' = tr) \<or>
      (\<exists>pre t post. list_all noise pre \<and> list_all noise post
        \<and> body (tr @ pre) = Some (res, t) \<and> tr' = t @ post)"
begin

text \<open>A property of histories that the guard's events keep, and the body keeps, is kept.\<close>

lemma run_invariant:
  assumes "run body tr = Some (res, tr')" and "Inv tr"
    and quiet: "\<And>t evs. Inv t \<Longrightarrow> list_all noise evs \<Longrightarrow> Inv (t @ evs)"
    and body: "\<And>t r t'. Inv t \<Longrightarrow> body t = Some (r, t') \<Longrightarrow> Inv t'"
  shows "Inv tr'"
  using run_cases [OF assms(1)] assms(2) by (auto intro: quiet body)

text \<open>What the body guarantees of its result, the guarded section does, refusals aside.\<close>

lemma run_result:
  assumes "run body tr = Some (res, tr')" and "\<And>t r t'. body t = Some (r, t') \<Longrightarrow> Q r"
  shows "res = Err refusal \<or> Q res"
  using run_cases [OF assms(1)] assms(2) by blast

lemma run_extends:
  assumes "run body tr = Some (res, tr')"
    and "\<And>t r t'. body t = Some (r, t') \<Longrightarrow> \<exists>evs. t' = t @ evs \<and> list_all P evs"
    and "\<And>e. noise e \<Longrightarrow> P e"
  shows "\<exists>evs. tr' = tr @ evs \<and> list_all P evs"
proof -
  have n: "list_all P evs" if "list_all noise evs" for evs
    using that assms(3) by (auto simp: list_all_iff)
  from run_cases [OF assms(1)] show ?thesis
  proof
    assume "\<exists>pre t post. list_all noise pre \<and> list_all noise post
        \<and> body (tr @ pre) = Some (res, t) \<and> tr' = t @ post"
    then obtain pre t post where p: "list_all noise pre" "list_all noise post"
      "body (tr @ pre) = Some (res, t)" "tr' = t @ post" by blast
    from assms(2) [OF p(3)] obtain evs where "t = (tr @ pre) @ evs" "list_all P evs" by blast
    with p n show ?thesis by (intro exI [of _ "pre @ evs @ post"]) simp
  qed simp
qed

end

lemma list_all_unlock: "list_all (is_unlock key) evs \<Longrightarrow> list_all (lock_event key) evs"
  using is_unlock_lock_event by (auto simp: list_all_iff)

interpretation etcd_guard: guard "with_lock E key nf lf" "lock_event (lock_key key)" "ErrorString nf"
  for E key nf lf
  by unfold_locales (erule with_lock_cases; use list_all_unlock in blast)

subsection \<open>Properties\<close>


definition silent_env :: env where
  "silent_env = \<lparr>etcd_srv = (\<lambda>_ _. Inl (OtherError ''connection refused'')),
     etcd_new = (\<lambda>_. None), v3_srv = (\<lambda>_ _. Inl (OtherError ''connection refused'')), v3_new = (\<lambda>_. None),
     mido_srv = (\<lambda>_ _. Inl (OtherError ''connection refused'')),
     host_srv = (\<lambda>_ _. Inl (OtherError ''no such file'')), random_srv = (\<lambda>_. []),
     hostname_srv = Some ''node1'', stamp_srv = (\<lambda>_. ''1-t''),
     region_srv = (\<lambda>_ _. Inl (OtherError ''connection refused''))\<rparr>"

definition sample_mutex :: Mutex where
  "sample_mutex = \<lparr>mx_key = ''/k'', mx_id = ''node1-1-t'', mx_ttl = 20, mx_mutex = False\<rparr>"



text \<open>An etcd whose key exists, and whose watcher reports its expiry at once.\<close>

definition expiring_env :: env where
  "expiring_env = silent_env\<lparr>etcd_srv := (\<lambda>_ r. case r of
       KeysSet _ _ _ _ \<Rightarrow> Inl (EtcdError 105 ''Key already exists'')
     | WatchNext _ _ \<Rightarrow> Inr \<lparr>re_Action = ''expire'', re_Node = None, re_Index = 8\<rparr>
     | _ \<Rightarrow> Inr \<lparr>re_Action = ''get'', re_Node = None, re_Index = 7\<rparr>)\<rparr>"

lemma expiring_watch: "watch_ends expiring_env k i t"
  by (rule watch_gone [where r = "\<lparr>re_Action = ''expire'', re_Node = None, re_Index = 8\<rparr>"])
     (simp_all add: expiring_env_def is_gone_def expireAction_def)

definition expiring_history :: history where
  "expiring_history = [EtcdEv (KeysSet ''/k'' ''node1-1-t'' True 20) (Inl (EtcdError 105 ''Key already exists'')),
     EtcdEv (KeysGet ''/k'' False) (Inr \<lparr>re_Action = ''get'', re_Node = None, re_Index = 7\<rparr>),
     EtcdEv (WatchNext ''/k'' 7) (Inr \<lparr>re_Action = ''expire'', re_Node = None, re_Index = 8\<rparr>)]"

lemma lock_expiring: "lock expiring_env sample_mutex [] = Some (None, expiring_history)"
  by (simp add: lock_def etcd_call_eq expiring_env_def sample_mutex_def ErrorCodeNodeExist_def
      watch_loop_unfold is_gone_def expireAction_def expiring_history_def)

lemma Lock_expiring:
  "Lock expiring_env sample_mutex [] = Some ((None, sample_mutex\<lparr>mx_mutex := True\<rparr>), expiring_history)"
  using lock_expiring by (simp add: Lock_def sample_mutex_def defaultTry_def numeral_3_eq_3)


text \<open>
  C26: \<open>Lock\<close> returns when the watcher of its key eventually fails or reports the key gone
  (every key has a time to live); and the waiting loop returns only then.
\<close>

theorem Lock_returns:
  assumes "\<not> mx_mutex m" and "\<And>idx t. watch_ends E (mx_key m) idx t"
  shows "(\<exists>evs. Lock E m tr = Some ((None, m\<lparr>mx_mutex := True\<rparr>), tr @ evs))
    \<and> (watch_loop E key i t \<noteq> None \<longleftrightarrow> watch_ends E key i t)"
proof
  obtain r tr' where "Lock_loop E m defaultTry None tr = Some (r, tr')"
    using Lock_loop_returns [of E m defaultTry None tr] assms(2) by fastforce
  moreover from this Lock_loop_result have "r = None" by fastforce
  ultimately show "\<exists>evs. Lock E m tr = Some ((None, m\<lparr>mx_mutex := True\<rparr>), tr @ evs)"
    using assms(1) Lock_loop_extends [of E m defaultTry None tr r tr'] by (auto simp: Lock_def)
  show "watch_loop E key i t \<noteq> None \<longleftrightarrow> watch_ends E key i t"
    using watch_ends_returns watch_loop_ends by fastforce
qed

theorem Lock_returns_witness:
  "(\<exists>evs. Lock expiring_env sample_mutex [] = Some ((None, sample_mutex\<lparr>mx_mutex := True\<rparr>), [] @ evs))
    \<and> (watch_loop expiring_env ''/k'' 7 [] \<noteq> None \<longleftrightarrow> watch_ends expiring_env ''/k'' 7 [])"
  by (rule Lock_returns) (simp_all add: expiring_watch sample_mutex_def)

text \<open>
  C23: a section guarded by the mutex ends with the deletion of the lock's key however its
  body is left, by a result, an error or a panic; nothing follows the deletions.
\<close>

theorem with_lock_unlocks:
  assumes "with_lock E key nf lf body tr = Some (res, tr')" and "res \<noteq> Err (ErrorString nf)"
  shows "\<exists>pre t post. body (tr @ pre) = Some (res, t) \<and> tr' = t @ post \<and> post \<noteq> []
    \<and> list_all (lock_event (lock_key key)) pre \<and> list_all (is_unlock (lock_key key)) post"
  using assms(1)
proof (cases rule: with_lock_cases)
  case refused
  with assms(2) show ?thesis by simp
next
  case (ran pre t post)
  then show ?thesis by blast
qed

theorem with_lock_unlocks_witness:
  "\<exists>pre t post. (\<lambda>t. Some (Panic :: unit outcome, t)) ([] @ pre) = Some (Panic :: unit outcome, t)
    \<and> expiring_history @ [EtcdEv (KeysDelete ''/k'' False False)
        (Inr \<lparr>re_Action = ''get'', re_Node = None, re_Index = 7\<rparr>)] = t @ post \<and> post \<noteq> []
    \<and> list_all (lock_event (lock_key ''/k'')) pre \<and> list_all (is_unlock (lock_key ''/k'')) post"
proof (rule with_lock_unlocks)
  have m: "Mutex_New expiring_env ''/k'' 20 [] = Some sample_mutex"
    by (simp add: Mutex_New_def expiring_env_def silent_env_def sample_mutex_def)
  with Lock_expiring show "with_lock expiring_env ''/k'' ''new'' ''lock'' (\<lambda>t. Some (Panic :: unit outcome, t)) [] =
      Some (Panic, expiring_history @ [EtcdEv (KeysDelete ''/k'' False False)
        (Inr \<lparr>re_Action = ''get'', re_Node = None, re_Index = 7\<rparr>)])"
    by (simp add: with_lock_def Unlock_def defaultTry_def numeral_3_eq_3 etcd_call_eq)
       (simp add: expiring_env_def sample_mutex_def)
qed simp

definition delete_ok :: "event \<Rightarrow> bool" where
  "delete_ok e = (case e of EtcdEv _ (Inr _) \<Rightarrow> True | EtcdEv _ (Inl err) \<Rightarrow> IsKeyNotFound err | _ \<Rightarrow> False)"

lemma Unlock_loop_tries:
  "Unlock_loop E m (Suc n) err tr = (r, tr') \<Longrightarrow>
   \<exists>bad l. tr' = tr @ bad @ [l] \<and> length bad \<le> n \<and> list_all (\<lambda>e. \<not> delete_ok e) bad
     \<and> (if delete_ok l then r = None else r \<noteq> None \<and> length bad = n)"
proof (induction n arbitrary: err tr)
  case 0
  then show ?case by (auto simp: etcd_call_eq delete_ok_def split: sum.splits if_splits)
next
  case (Suc n)
  let ?e = "EtcdEv (KeysDelete (mx_key m) False False) (etcd_srv E tr (KeysDelete (mx_key m) False False))"
  show ?case
  proof (cases "delete_ok ?e")
    case True
    with Suc.prems have "tr' = tr @ [] @ [?e] \<and> r = None"
      by (auto simp: etcd_call_eq delete_ok_def split: sum.splits if_splits)
    with True show ?thesis by (intro exI [of _ "[]"] exI [of _ ?e]) simp
  next
    case False
    then obtain e where "Unlock_loop E m (Suc n) (Some e) (tr @ [?e]) = (r, tr')"
      using Suc.prems by (auto simp: etcd_call_eq delete_ok_def split: sum.splits if_splits)
    from Suc.IH [OF this] obtain bad l where "tr' = (tr @ [?e]) @ bad @ [l]" "length bad \<le> n"
      "list_all (\<lambda>e. \<not> delete_ok e) bad" "if delete_ok l then r = None else r \<noteq> None \<and> length bad = n"
      by blast
    with False show ?thesis by (intro exI [of _ "?e # bad"] exI [of _ l]) simp
  qed
qed

text \<open>
  \<open>Unlock\<close> makes one to three requests, all deleting the key: it stops with nil at the
  first that succeeds or says that the key does not exist, and gives an error when three
  fail otherwise.
\<close>

theorem Unlock_tries:
  assumes "Unlock E m tr = Some ((r, m'), tr')"
  shows "\<exists>bad l. tr' = tr @ bad @ [l] \<and> length bad \<le> 2 \<and> list_all (is_unlock (mx_key m)) (bad @ [l])
    \<and> list_all (\<lambda>e. \<not> delete_ok e) bad \<and> (if delete_ok l then r = None else r \<noteq> None \<and> length bad = 2)"
proof -
  from assms have l: "Unlock_loop E m (Suc 2) None tr = (r, tr')"
    by (auto simp: Unlock_def defaultTry_def eval_nat_numeral split: if_splits prod.splits)
  from Unlock_loop_tries [OF this] Unlock_loop_extends [OF l] show ?thesis by fastforce
qed

lemma Unlock_tries_witness:
  "\<exists>bad l. [EtcdEv (KeysDelete ''/k'' False False) (Inl (OtherError ''connection refused'')),
      EtcdEv (KeysDelete ''/k'' False False) (Inl (OtherError ''connection refused'')),
      EtcdEv (KeysDelete ''/k'' False False) (Inl (OtherError ''connection refused''))] = [] @ bad @ [l]
    \<and> length bad \<le> 2 \<and> list_all (is_unlock (mx_key (sample_mutex\<lparr>mx_mutex := True\<rparr>))) (bad @ [l])
    \<and> list_all (\<lambda>e. \<not> delete_ok e) bad
    \<and> (if delete_ok l then Some (OtherError ''connection refused'') = None
       else Some (OtherError ''connection refused'') \<noteq> None \<and> length bad = 2)"
  by (rule Unlock_tries [of silent_env _ _ _ sample_mutex])
     (simp add: Unlock_def sample_mutex_def defaultTry_def numeral_3_eq_3 etcd_call_eq silent_env_def
       IsKeyNotFound_def)

end
