(* ===== verification/Ipam.thy ===== *)
theory Ipam
  imports Config EtcdLock
begin

text \<open>
  \<open>pkg/ipam/etcd\_ipam.go\<close>: the addresses that are still available are keys of an etcd
  directory, one directory for the pairs that link tenant routers to the provider router,
  and one per tenant for its containers. An allocation lists the directory and deletes keys
  of it; a release creates one.
\<close>

text \<open>An \<open>EtcdIpam\<close> is its configuration; making one makes the etcd client, which may fail.\<close>

definition CreateEtcdIpam :: "env \<Rightarrow> Options \<Rightarrow> go_error + Options" where
  "CreateEtcdIpam E conf =
     (case CreateETCDClient E (op_ETCDConf conf) of Some err \<Rightarrow> Inl err | None \<Rightarrow> Inr conf)"

subsection \<open>Filling a pool\<close>

text \<open>
  Storing the network of a pool: an etcd error other than \<open>NodeExist\<close> is passed over, any
  other error ends the operation.
\<close>

definition set_iprange :: "env \<Rightarrow> string \<Rightarrow> string \<Rightarrow> history \<Rightarrow> go_error option \<times> history" where
  "set_iprange E key iprange tr =
     (case Keys_Set E key iprange tr of (res, tr) \<Rightarrow>
        case res of
          Inr _ \<Rightarrow> (None, tr)
        | Inl err \<Rightarrow>
            (case client_error_code err of
               None \<Rightarrow> (Some err, tr)
             | Some code \<Rightarrow>
                 if code = ErrorCodeNodeExist then (None, snd (etcd_call E (KeysUpdate key iprange) tr))
                 else (None, tr)))"

text \<open>\<open>n\<close> calls of \<open>Next\<close>, each of which must succeed.\<close>

fun discard :: "nat \<Rightarrow> Range \<Rightarrow> Range option" where
  "discard 0 r = Some r"
| "discard (Suc n) r = (case Range_Next r of (ok, r) \<Rightarrow> if ok then discard n r else None)"

text \<open>
  The loop that puts the addresses of a range into a pool, up to the last but one; with
  \<open>skip\<close>, without those that end in \<open>.254\<close>. Errors of \<open>Set\<close> are ignored.
\<close>

partial_function (option) fill_pool :: "env \<Rightarrow> string \<Rightarrow> bool \<Rightarrow> Range \<Rightarrow> history \<Rightarrow> history option" where
  "fill_pool E dir skip r tr =
     (case Range_Next r of (ok, nx) \<Rightarrow>
        if \<not> ok then Some tr
        else if skip \<and> has_suffix (Range_String r) ''.254'' then fill_pool E dir skip nx tr
        else fill_pool E dir skip nx (snd (Keys_Set E (dir @ Range_String r) (Range_StringSuffix r) tr)))"

declare fill_pool.simps [code]

text \<open>The two addresses \<open>refreshRouterAvailable\<close> returns; \<open>Inl\<close> when the range ends there.\<close>

fun take_pair :: "nat \<Rightarrow> Range \<Rightarrow> string list \<Rightarrow> (string list outcome) + (Range \<times> string list)" where
  "take_pair 0 r ips = Inr (r, ips)"
| "take_pair (Suc n) r ips =
     (let ips = ips @ [Range_StringSuffix r]
      in case Range_Next r of (ok, r) \<Rightarrow>
           if ok then take_pair n r ips
           else if length ips = 2 then Inl (Ok ips)
           else Inl (Err (ErrorString ''Available Router IP shortage'')))"

definition refreshRouterAvailable :: "env \<Rightarrow> string \<Rightarrow> history \<Rightarrow> (string list outcome \<times> history) option" where
  "refreshRouterAvailable E iprange tr =
     (case set_iprange E ''/midonet-cni/ip/router/available/iprange'' iprange tr of (err, tr) \<Rightarrow>
        case err of
          Some err \<Rightarrow> Some (Err err, tr)
        | None \<Rightarrow>
            (case NewRange iprange of
               Err err \<Rightarrow> Some (Err err, tr)
             | Panic \<Rightarrow> Some (Panic, tr)
             | Ok r \<Rightarrow>
                 (case discard 2 r of
                    None \<Rightarrow> Some (Err (ErrorString ''Available Router IP shortage''), tr)
                  | Some r \<Rightarrow>
                      (case take_pair 2 r [] of
                         Inl res \<Rightarrow> Some (res, tr)
                       | Inr (r, ips) \<Rightarrow> do {
                           tr \<leftarrow> fill_pool E ''/midonet-cni/ip/router/available/'' False r tr;
                           Some (Ok ips, tr)
                         }))))"

definition createRouterAvailable :: "env \<Rightarrow> Options \<Rightarrow> history \<Rightarrow> (string list outcome \<times> history) option" where
  "createRouterAvailable E conf tr = refreshRouterAvailable E (op_MidoNetRouterCIDR conf) tr"

subsection \<open>\<open>GetRouterIP\<close>\<close>

text \<open>The loop that deletes keys of the pool until it has two addresses.\<close>

fun grab_pair :: "env \<Rightarrow> Node list \<Rightarrow> string list \<Rightarrow> history \<Rightarrow> string list \<times> history" where
  "grab_pair E [] ips tr = (ips, tr)"
| "grab_pair E (node # nodes) ips tr =
     (if has_suffix (node_Key node) ''/iprange'' then grab_pair E nodes ips tr
      else
        (case Keys_Delete E (node_Key node) tr of (res, tr) \<Rightarrow>
           case res of
             Inl _ \<Rightarrow> grab_pair E nodes ips tr
           | Inr _ \<Rightarrow>
               (let ips = ips @ [node_Value node]
                in if length ips = 2 then (ips, tr) else grab_pair E nodes ips tr)))"

definition router_ip_body :: "env \<Rightarrow> Options \<Rightarrow> history \<Rightarrow> (string list outcome \<times> history) option" where
  "router_ip_body E conf tr =
     (case Keys_Get E ''/midonet-cni/ip/router/available'' True tr of (res, tr) \<Rightarrow>
        case res of
          Inl err \<Rightarrow>
            (case client_error_code err of
               None \<Rightarrow> Some (Err err, tr)
             | Some code \<Rightarrow>
                 if code = ErrorCodeKeyNotFound then createRouterAvailable E conf tr
                 else Some (Panic, tr))
        | Inr res \<Rightarrow>
            (case re_Node res of
               None \<Rightarrow> createRouterAvailable E conf tr
             | Some node \<Rightarrow>
                 if \<not> node_Dir node then createRouterAvailable E conf tr
                 else if length (node_Nodes node) < 3 then
                   (case Keys_Get E ''/midonet-cni/ip/router/available/iprange'' False tr of (res, tr) \<Rightarrow>
                      case res of
                        Inl err \<Rightarrow> Some (Err err, tr)
                      | Inr res \<Rightarrow>
                          (case re_Node res of
                             None \<Rightarrow> Some (Panic, tr)
                           | Some n \<Rightarrow>
                               (case GetNextCIDR (node_Value n) of
                                  Ok new \<Rightarrow> refreshRouterAvailable E new tr
                                | Err e \<Rightarrow> Some (Err e, tr)
                                | Panic \<Rightarrow> Some (Panic, tr))))
                 else
                   (case grab_pair E (node_Nodes node) [] tr of (ips, tr) \<Rightarrow> Some (Ok ips, tr))))"

definition GetRouterIP :: "env \<Rightarrow> Options \<Rightarrow> history \<Rightarrow> (string list outcome \<times> history) option" where
  "GetRouterIP E conf tr =
     with_lock E ''/midonet-cni/router_ip'' ''etcdsync.NewMutex failed'' ''etcdsync.Lock failed''
       (router_ip_body E conf) tr"

subsection \<open>\<open>CreateIPsForTenantBridge\<close>\<close>

definition pod_available :: "string \<Rightarrow> string" where
  "pod_available tenantID = ''/midonet-cni/ip/pod/'' @ tenantID @ ''/available''"

definition pod_key :: "string \<Rightarrow> string \<Rightarrow> string" where
  "pod_key tenantID containerID = ''/midonet-cni/ip/pod/'' @ tenantID @ ''/'' @ containerID"

definition CreateIPsForTenantBridge :: "env \<Rightarrow> Tenant \<Rightarrow> string \<Rightarrow> history \<Rightarrow> (unit outcome \<times> history) option" where
  "CreateIPsForTenantBridge E tenant iprange tr =
     (case set_iprange E (pod_available (tn_ID tenant) @ ''/iprange'') iprange tr of (err, tr) \<Rightarrow>
        case err of
          Some err \<Rightarrow> Some (Err err, tr)
        | None \<Rightarrow> do {
            len \<leftarrow> RangeLength iprange;
            (case len of
               Err e \<Rightarrow> Some (Err e, tr)
             | Panic \<Rightarrow> Some (Panic, tr)
             | Ok len \<Rightarrow>
                 if len < 4 then
                   Some (Err (ErrorString (''This ip range ('' @ iprange @ '') not have available ip '')), tr)
                 else
                   (case NewRange iprange of
                      Err err \<Rightarrow> Some (Err err, tr)
                    | Panic \<Rightarrow> Some (Panic, tr)
                    | Ok r \<Rightarrow>
                        (case discard 2 r of
                           None \<Rightarrow> Some (Err (ErrorString ''Available Bridge IP shortage''), tr)
                         | Some r \<Rightarrow> do {
                             tr \<leftarrow> fill_pool E (pod_available (tn_ID tenant) @ ''/'') True r tr;
                             Some (Ok (), tr)
                           })))
          })"

subsection \<open>\<open>GetNewIP\<close>\<close>

text \<open>
  The loop that deletes keys of the pool until one deletion succeeds on an address that does
  not end in \<open>.254\<close>: the value of that key, or the empty text.
\<close>

fun grab_ip :: "env \<Rightarrow> Node list \<Rightarrow> history \<Rightarrow> string \<times> history" where
  "grab_ip E [] tr = ([], tr)"
| "grab_ip E (node # nodes) tr =
     (if has_suffix (node_Key node) ''/iprange'' then grab_ip E nodes tr
      else
        (case Keys_Delete E (node_Key node) tr of (res, tr) \<Rightarrow>
           case res of
             Inl _ \<Rightarrow> grab_ip E nodes tr
           | Inr _ \<Rightarrow>
               if has_suffix (node_Key node) ''.254'' then grab_ip E nodes tr
               else (node_Value node, tr)))"

text \<open>The gateway of a network: the address 254 places after its first one.\<close>

definition gateway :: "IPNet \<Rightarrow> IP outcome" where
  "gateway ipn =
     (case IP2Long (ParseIP (IP_String (IPNet_IP ipn))) of
        Ok long \<Rightarrow> Ok (Long2IP (long + 254))
      | Err e \<Rightarrow> Err e
      | Panic \<Rightarrow> Panic)"

definition allocate_ip :: "env \<Rightarrow> string \<Rightarrow> string \<Rightarrow> history \<Rightarrow> IPInfo outcome \<times> history" where
  "allocate_ip E tenantID containerID tr =
     (case Keys_Get E (pod_available tenantID) True tr of (res, tr) \<Rightarrow>
        case res of
          Inl err \<Rightarrow> (Err (case err of EtcdError _ msg \<Rightarrow> ErrorString msg | _ \<Rightarrow> err), tr)
        | Inr res \<Rightarrow>
            (case re_Node res of
               None \<Rightarrow> (Err (ErrorString ''Initialize the filling the bridge available IP pool because available node''), tr)
             | Some node \<Rightarrow>
                 if \<not> node_Dir node then
                   (Err (ErrorString ''Initialize the filling the bridge available IP pool because available node''), tr)
                 else if length (node_Nodes node) < 2 then (Err (ErrorString ''CreateNewBridge''), tr)
                 else
                   (case grab_ip E (node_Nodes node) tr of (ipData, tr) \<Rightarrow>
                      case ParseCIDR ipData of
                        Inl err \<Rightarrow> (Err err, tr)
                      | Inr (ip, ipn) \<Rightarrow>
                          (case gateway ipn of
                             Err e \<Rightarrow> (Err e, tr)
                           | Panic \<Rightarrow> (Panic, tr)
                           | Ok getway \<Rightarrow>
                               (case Keys_Set E (pod_key tenantID containerID) ipData tr of (_, tr) \<Rightarrow>
                                  (Ok \<lparr>ii_ContainerID = containerID,
                                       ii_IPNet = \<lparr>IPNet_IP = ip, IPNet_Mask = IPNet_Mask ipn\<rparr>,
                                       ii_Getway = getway\<rparr>, tr))))))"

definition GetNewIP :: "env \<Rightarrow> Tenant \<Rightarrow> string \<Rightarrow> history \<Rightarrow> IPInfo outcome \<times> history" where
  "GetNewIP E tenant containerID tr =
     (case Keys_Get E (pod_key (tn_ID tenant) containerID) False tr of (res, tr) \<Rightarrow>
        case res of
          Inl _ \<Rightarrow> allocate_ip E (tn_ID tenant) containerID tr
        | Inr res \<Rightarrow>
            (case re_Node res of
               None \<Rightarrow> (Panic, tr)
             | Some n \<Rightarrow>
                 (case Unmarshal IPInfo_fields IPInfo_zero (node_Value n) of
                    Some info \<Rightarrow> (Ok info, tr)
                  | None \<Rightarrow> allocate_ip E (tn_ID tenant) containerID tr)))"

subsection \<open>Releasing addresses\<close>

definition same_network :: "IPNet \<Rightarrow> IPNet \<Rightarrow> bool" where
  "same_network a b \<longleftrightarrow> IP_String (IPNet_IP a) = IP_String (IPNet_IP b)
     \<and> Mask_String (IPNet_Mask a) = Mask_String (IPNet_Mask b)"

text \<open>The network a pool hands out at the moment, read from its key.\<close>

definition current_net :: "env \<Rightarrow> string \<Rightarrow> history \<Rightarrow> IPNet outcome \<times> history" where
  "current_net E key tr =
     (case Keys_Get E key False tr of (res, tr) \<Rightarrow>
        case res of
          Inl err \<Rightarrow> (Err err, tr)
        | Inr res \<Rightarrow>
            (case re_Node res of
               None \<Rightarrow> (Panic, tr)
             | Some n \<Rightarrow>
                 (case ParseCIDR (node_Value n) of Inl err \<Rightarrow> (Err err, tr) | Inr (_, ipnet) \<Rightarrow> (Ok ipnet, tr))))"

definition ReleaseIP :: "env \<Rightarrow> string \<Rightarrow> string \<Rightarrow> history \<Rightarrow> (unit outcome \<times> history) option" where
  "ReleaseIP E tenantID oldIP tr =
     (case current_net E (pod_available tenantID @ ''/iprange'') tr of (net, tr) \<Rightarrow>
        case net of
          Err e \<Rightarrow> Some (Err e, tr)
        | Panic \<Rightarrow> Some (Panic, tr)
        | Ok ipnet \<Rightarrow>
            (case ParseCIDR oldIP of
               Inl err \<Rightarrow> Some (Err err, tr)
             | Inr (ip, oldIPNet) \<Rightarrow>
                 if same_network ipnet oldIPNet then
                   with_lock E (''/midonet-cni/tenant/'' @ tenantID @ ''/bridge/create'')
                     ''etcdsync.NewMutex failed when release old ip'' ''etcdsync.Lock failed when release old ip''
                     (\<lambda>tr. Some (Ok (), snd (Keys_Set E (pod_available tenantID @ ''/'' @ IP_String ip) oldIP tr))) tr
                 else Some (Ok (), tr)))"

text \<open>
  The loop of \<open>ReleaseRouterIP\<close>: every address gets a mutex of its own, whose \<open>Unlock\<close> is
  deferred to the end of the function. The loop gives its result and the mutexes it locked,
  the last one first, the order in which the deferred calls run.
\<close>

fun release_loop ::
    "env \<Rightarrow> IPNet \<Rightarrow> string list \<Rightarrow> Mutex list \<Rightarrow> history \<Rightarrow> ((unit outcome \<times> Mutex list) \<times> history) option" where
  "release_loop E ipnet [] ms tr = Some ((Ok (), ms), tr)"
| "release_loop E ipnet (oldIP # ips) ms tr =
     (case ParseCIDR oldIP of
        Inl err \<Rightarrow> Some ((Err err, ms), tr)
      | Inr (ip, oldIPNet) \<Rightarrow>
          if same_network ipnet oldIPNet then
            (case Mutex_New E ''/midonet-cni/router_ip'' 20 tr of
               None \<Rightarrow> Some ((Err (ErrorString ''etcdsync.NewMutex failed when release old ip''), ms), tr)
             | Some m \<Rightarrow> do {
                 ((err, m), tr) \<leftarrow> Lock E m tr;
                 (if err \<noteq> None
                  then Some ((Err (ErrorString ''etcdsync.Lock failed when release old ip''), ms), tr)
                  else release_loop E ipnet ips (m # ms)
                    (snd (Keys_Set E (''/midonet-cni/ip/router/available/'' @ IP_String ip) oldIP tr)))
               })
          else release_loop E ipnet ips ms tr)"

fun unlock_all :: "env \<Rightarrow> Mutex list \<Rightarrow> history \<Rightarrow> history option" where
  "unlock_all E [] tr = Some tr"
| "unlock_all E (m # ms) tr = do { (_, tr) \<leftarrow> Unlock E m tr; unlock_all E ms tr }"

definition ReleaseRouterIP :: "env \<Rightarrow> string list \<Rightarrow> history \<Rightarrow> (unit outcome \<times> history) option" where
  "ReleaseRouterIP E ips tr =
     (case current_net E ''/midonet-cni/ip/router/available/iprange'' tr of (net, tr) \<Rightarrow>
        case net of
          Err e \<Rightarrow> Some (Err e, tr)
        | Panic \<Rightarrow> Some (Panic, tr)
        | Ok ipnet \<Rightarrow> do {
            ((res, ms), tr) \<leftarrow> release_loop E ipnet ips [] tr;
            tr \<leftarrow> unlock_all E ms tr;
            Some (res, tr)
          })"

subsection \<open>What filling a pool writes\<close>

lemma has_suffix_254: "length x = 4 \<Longrightarrow> has_suffix (dotted x) ''.254'' \<longleftrightarrow> x ! 3 = 254"
proof -
  assume "length x = 4"
  have d: "\<And>n. CHR ''.'' \<notin> set (itoa n)" by (simp add: itoa_no_char go_simps)
  have i: "itoa 254 = ''254''" by code_simp
  define p where "p = itoa (unat (x ! 0)) @ ''.'' @ itoa (unat (x ! 1)) @ ''.'' @ itoa (unat (x ! 2))"
  have x: "dotted x = p @ CHR ''.'' # itoa (unat (x ! 3))" by (simp add: dotted_def p_def)
  have "suffix ''.254'' (dotted x) \<longleftrightarrow> itoa (unat (x ! 3)) = ''254''"
  proof
    assume "suffix ''.254'' (dotted x)"
    then obtain q where "dotted x = q @ CHR ''.'' # ''254''" by (auto simp: suffix_def)
    then have "after_last (dotted x) CHR ''.'' = Some ''254''" by (simp add: after_last_append)
    then show "itoa (unat (x ! 3)) = ''254''" using d by (simp add: x after_last_append)
  qed (simp add: x suffix_def)
  also have "\<dots> \<longleftrightarrow> unat (x ! 3) = 254"
    using decimal.enc_inject [of "unat (x ! 3)" 254] byte_less_256 [of "x ! 3"] by (simp add: i)
  also have "\<dots> \<longleftrightarrow> x ! 3 = 254" by (simp add: word_unat_eq_iff)
  finally show ?thesis by (simp add: has_suffix_iff_suffix)
qed

lemma bytes4_last: "bytes4 m ! 3 = 254 \<longleftrightarrow> m mod 256 = 254"
  by (simp add: bytes4_def word_unat_eq_iff unat_of_nat_byte)

text \<open>The places of a network that go into a pool, from place \<open>lo\<close> on.\<close>

definition pool_places :: "bytes \<Rightarrow> nat \<Rightarrow> bool \<Rightarrow> nat \<Rightarrow> nat list" where
  "pool_places b n skip lo =
     filter (\<lambda>k. \<not> (skip \<and> (val4 b + k) mod 256 = 254)) [lo..<2 ^ (32 - n) - 1]"

definition place_text :: "bytes \<Rightarrow> nat \<Rightarrow> string" where
  "place_text b k = dotted (bytes4 (val4 b + k))"

definition place_set :: "string \<Rightarrow> bytes \<Rightarrow> nat \<Rightarrow> nat \<Rightarrow> etcd_req" where
  "place_set dir b n k = KeysSet (dir @ place_text b k) (cidr_text (bytes4 (val4 b + k)) n) False 0"

lemma fill_pool_v4:
  assumes nw: "is_network b n" and "lo < 2 ^ (32 - n)"
  shows "\<exists>evs. fill_pool E dir skip (v4_range b n lo) tr = Some (tr @ evs)
    \<and> requests evs (List.map (place_set dir b n) (pool_places b n skip lo))"
  using assms(2)
proof (induction "2 ^ (32 - n) - lo" arbitrary: lo tr)
  case (Suc m)
  have k: "lo < 2 ^ 33" using Suc.prems size_le [of n] by simp
  show ?case
  proof (cases "Suc lo < 2 ^ (32 - n)")
    case True
    let ?q = "place_set dir b n lo"
    have up: "[lo..<2 ^ (32 - n) - 1] = lo # [Suc lo..<2 ^ (32 - n) - 1]"
      using True by (intro upt_conv_Cons) simp
    have suf: "has_suffix (dotted (bytes4 (val4 b + lo))) ''.254'' \<longleftrightarrow> (val4 b + lo) mod 256 = 254"
      by (simp add: has_suffix_254 bytes4_last)
    have IH: "\<exists>evs. fill_pool E dir skip (v4_range b n (Suc lo)) t = Some (t @ evs)
        \<and> requests evs (List.map (place_set dir b n) (pool_places b n skip (Suc lo)))" for t
      by (rule Suc.hyps(1)) (use Suc.hyps(2) True in auto)
    show ?thesis
    proof (cases "skip \<and> (val4 b + lo) mod 256 = 254")
      case True
      with IH [of tr] \<open>Suc lo < _\<close> k nw suf show ?thesis
        by (subst fill_pool.simps) (simp add: go_simps pool_places_def up [simplified])
    next
      case False
      from IH [of "tr @ [EtcdEv ?q (etcd_srv E tr ?q)]"] obtain evs where
        "fill_pool E dir skip (v4_range b n (Suc lo)) (tr @ [EtcdEv ?q (etcd_srv E tr ?q)])
           = Some ((tr @ [EtcdEv ?q (etcd_srv E tr ?q)]) @ evs)"
        "requests evs (List.map (place_set dir b n) (pool_places b n skip (Suc lo)))" by blast
      with False \<open>Suc lo < _\<close> k nw suf show ?thesis
        by (subst fill_pool.simps)
           (auto simp: go_simps pool_places_def up [simplified] place_set_def place_text_def)
    qed
  next
    case False
    then have "[lo..<2 ^ (32 - n) - 1] = []" by simp
    with False k nw show ?thesis
      by (subst fill_pool.simps) (simp add: go_simps pool_places_def)
  qed
qed simp

text \<open>\<open>n\<close> steps into a network.\<close>

lemma discard_v4:
  "is_network b n \<Longrightarrow> k + j < 2 ^ (32 - n) \<Longrightarrow> discard j (v4_range b n k) = Some (v4_range b n (k + j))"
proof (induction j arbitrary: k)
  case (Suc j)
  have "k < 2 ^ 33" using Suc.prems size_le [of n] by simp
  with Suc show ?case by (simp add: go_simps)
qed simp

lemma network_size: "n \<le> 30 \<Longrightarrow> (4::nat) \<le> 2 ^ (32 - n)"
proof -
  assume "n \<le> 30"
  then have "(2::nat) ^ 2 \<le> 2 ^ (32 - n)" by (intro power_increasing) simp_all
  then show ?thesis by simp
qed

lemma take_pair_v4:
  assumes nw: "is_network b n" and n: "n \<le> 30"
  shows "take_pair 2 (v4_range b n 2) [] =
    (let ips = [cidr_text (bytes4 (val4 b + 2)) n, cidr_text (bytes4 (val4 b + 3)) n]
     in if n = 30 then Inl (Ok ips) else Inr (v4_range b n 4, ips))"
proof -
  have s: "3 < (2::nat) ^ (32 - n)" using network_size [OF n] by simp
  have "(4::nat) < 2 ^ (32 - n) \<longleftrightarrow> n \<noteq> 30"
  proof (cases "n = 30")
    case False
    with n have "(2::nat) ^ 3 \<le> 2 ^ (32 - n)" by (intro power_increasing) simp_all
    with False show ?thesis by simp
  qed simp
  moreover have "Range_Next (v4_range b n 2) = (True, v4_range b n 3)"
    using Range_Next_v4 [OF nw, of 2] s by simp
  moreover have "Range_Next (v4_range b n 3) = (4 < (2::nat) ^ (32 - n), v4_range b n 4)"
    using Range_Next_v4 [OF nw, of 3] by simp
  moreover have "take_pair 2 r ips = take_pair (Suc (Suc 0)) r ips" for r ips
    by (simp add: numeral_2_eq_2)
  ultimately show ?thesis by (simp add: go_simps Let_def)
qed

lemma set_iprange_ok:
  "etcd_srv E tr (KeysSet key r False 0) = Inr a \<Longrightarrow>
   set_iprange E key r tr = (None, tr @ [EtcdEv (KeysSet key r False 0) (Inr a)])"
  by (simp add: set_iprange_def etcd_call_eq)

lemma refresh_network:
  assumes nw: "is_network b n" and n: "n \<le> 30"
    and ok: "etcd_srv E tr (KeysSet ''/midonet-cni/ip/router/available/iprange'' (cidr_text b n) False 0) = Inr a"
  shows "\<exists>evs. refreshRouterAvailable E (cidr_text b n) tr =
      Some (Ok [cidr_text (bytes4 (val4 b + 2)) n, cidr_text (bytes4 (val4 b + 3)) n], tr @ evs)
    \<and> requests evs (KeysSet ''/midonet-cni/ip/router/available/iprange'' (cidr_text b n) False 0
        # List.map (place_set ''/midonet-cni/ip/router/available/'' b n) (pool_places b n False 4))"
proof -
  let ?e = "EtcdEv (KeysSet ''/midonet-cni/ip/router/available/iprange'' (cidr_text b n) False 0) (Inr a)"
  have d: "discard 2 (v4_range b n 0) = Some (v4_range b n 2)"
    using discard_v4 [OF nw, of 0 2] network_size [OF n] by (simp del: add_2_eq_Suc')
  show ?thesis
  proof (cases "n = 30")
    case True
    with nw n ok d take_pair_v4 [OF nw n] show ?thesis
      by (simp add: refreshRouterAvailable_def set_iprange_ok NewRange_network pool_places_def Let_def)
  next
    case False
    with n have "(2::nat) ^ 3 \<le> 2 ^ (32 - n)" by (intro power_increasing) simp_all
    then have "4 < (2::nat) ^ (32 - n)" by simp
    from fill_pool_v4 [OF nw this] obtain evs where
      "fill_pool E ''/midonet-cni/ip/router/available/'' False (v4_range b n 4) (tr @ [?e]) = Some ((tr @ [?e]) @ evs)"
      "requests evs (List.map (place_set ''/midonet-cni/ip/router/available/'' b n) (pool_places b n False 4))"
      by blast
    with nw n ok d False take_pair_v4 [OF nw n] show ?thesis
      by (auto simp: refreshRouterAvailable_def set_iprange_ok NewRange_network Let_def)
  qed
qed

lemma CreateIPs_network:
  assumes nw: "is_network b n" and n: "n \<le> 30"
    and ok: "etcd_srv E tr (KeysSet (pod_available (tn_ID t) @ ''/iprange'') (cidr_text b n) False 0) = Inr a"
  shows "\<exists>evs. CreateIPsForTenantBridge E t (cidr_text b n) tr = Some (Ok (), tr @ evs)
    \<and> requests evs (KeysSet (pod_available (tn_ID t) @ ''/iprange'') (cidr_text b n) False 0
        # List.map (place_set (pod_available (tn_ID t) @ ''/'') b n) (pool_places b n True 2))"
proof -
  let ?e = "EtcdEv (KeysSet (pod_available (tn_ID t) @ ''/iprange'') (cidr_text b n) False 0) (Inr a)"
  have s: "\<not> (2::nat) ^ (32 - n) < 4" "2 < (2::nat) ^ (32 - n)" using network_size [OF n] by simp_all
  have d: "discard 2 (v4_range b n 0) = Some (v4_range b n 2)"
    using discard_v4 [OF nw, of 0 2] s(2) by (simp del: add_2_eq_Suc')
  from fill_pool_v4 [OF nw s(2)] obtain evs where
    "fill_pool E (pod_available (tn_ID t) @ ''/'') True (v4_range b n 2) (tr @ [?e]) = Some ((tr @ [?e]) @ evs)"
    "requests evs (List.map (place_set (pod_available (tn_ID t) @ ''/'') b n) (pool_places b n True 2))" by blast
  with nw s d ok show ?thesis
    by (auto simp: CreateIPsForTenantBridge_def set_iprange_ok NewRange_network RangeLength_network)
qed

lemma place_bound: "is_network b n \<Longrightarrow> k < 2 ^ (32 - n) \<Longrightarrow> val4 b + k < 2 ^ 32"
  using network_end [of b n] by simp

lemma distinct_places:
  assumes "is_network b n" and "\<And>k. k \<in> set ks \<Longrightarrow> k < 2 ^ (32 - n)" and "distinct ks"
  shows "distinct (List.map (place_text b) ks)"
  using assms place_bound [OF assms(1)]
  by (auto simp: distinct_map inj_on_def place_text_def dotted_bytes4_inject)

text \<open>The gateway the code computes for the network of an address.\<close>

lemma gateway_v4:
  assumes "length a = 4" and "n \<le> 32"
  shows "gateway (v4_net a n) = Ok (v4InV6Prefix @ bytes4 (clear (32 - n) (val4 a) + 254))"
proof -
  let ?c = "clear (32 - n) (val4 a)"
  have c: "?c < 2 ^ 32" using val4_less [OF assms(1)] by (simp add: clear_def)
  have "IPNet_IP (v4_net a n) = bytes4 ?c" using assms by (simp add: v4_net_def masked_bytes4)
  then have "gateway (v4_net a n) = Ok (Long2IP (of_nat ?c + 254))"
    using c by (simp add: gateway_def IP_String_v4 ParseIP_dotted IP2Long_prefixed val4_bytes4 del: ParseIP.simps)
  also have "Long2IP (of_nat ?c + 254) = Long2IP (of_nat (?c + 254))" by simp
  also have "\<dots> = v4InV6Prefix @ bytes4 (?c + 254)" using c by (intro Long2IP_of_nat) simp
  finally show ?thesis .
qed

subsection \<open>What allocating does\<close>

text \<open>A key an allocation tried to take and did not use.\<close>

definition passed :: "Node list \<Rightarrow> event \<Rightarrow> bool" where
  "passed nodes e \<longleftrightarrow> (\<exists>node \<in> set nodes. \<not> has_suffix (node_Key node) ''/iprange'' \<and>
     (\<exists>a. e = EtcdEv (KeysDelete (node_Key node) False False) a
        \<and> ((\<exists>err. a = Inl err) \<or> has_suffix (node_Key node) ''.254'')))"

lemma passed_mono: "passed nodes e \<Longrightarrow> set nodes \<subseteq> set nodes' \<Longrightarrow> passed nodes' e"
  unfolding passed_def by blast

lemma grab_ip_cases:
  "grab_ip E nodes tr = (v, tr') \<Longrightarrow>
   \<exists>pre. list_all (passed nodes) pre \<and>
     ((v = [] \<and> tr' = tr @ pre) \<or>
      (\<exists>node \<in> set nodes. \<exists>a. \<not> has_suffix (node_Key node) ''/iprange'' \<and> \<not> has_suffix (node_Key node) ''.254''
         \<and> v = node_Value node \<and> tr' = tr @ pre @ [EtcdEv (KeysDelete (node_Key node) False False) (Inr a)]))"
proof (induction nodes arbitrary: tr)
  case (Cons node nodes)
  let ?q = "KeysDelete (node_Key node) False False"
  have mono: "list_all (passed nodes) pre \<Longrightarrow> list_all (passed (node # nodes)) pre" for pre
    by (auto simp: list_all_iff intro: passed_mono)
  show ?case
  proof (cases "has_suffix (node_Key node) ''/iprange''")
    case True
    with Cons.prems have "grab_ip E nodes tr = (v, tr')" by simp
    from Cons.IH [OF this] obtain pre where "list_all (passed nodes) pre"
      "(v = [] \<and> tr' = tr @ pre) \<or>
       (\<exists>node \<in> set nodes. \<exists>a. \<not> has_suffix (node_Key node) ''/iprange'' \<and> \<not> has_suffix (node_Key node) ''.254''
          \<and> v = node_Value node \<and> tr' = tr @ pre @ [EtcdEv (KeysDelete (node_Key node) False False) (Inr a)])"
      by blast
    with mono show ?thesis by (intro exI [of _ pre]) auto
  next
    case False
    note ip = this
    show ?thesis
    proof (cases "(\<exists>err. etcd_srv E tr ?q = Inl err) \<or> has_suffix (node_Key node) ''.254''")
      case True
      let ?e = "EtcdEv ?q (etcd_srv E tr ?q)"
      from True ip Cons.prems have "grab_ip E nodes (tr @ [?e]) = (v, tr')"
        by (auto simp: etcd_call_eq split: sum.splits)
      from Cons.IH [OF this] obtain pre where pre: "list_all (passed nodes) pre"
        "(v = [] \<and> tr' = (tr @ [?e]) @ pre) \<or>
         (\<exists>node \<in> set nodes. \<exists>a. \<not> has_suffix (node_Key node) ''/iprange'' \<and> \<not> has_suffix (node_Key node) ''.254''
            \<and> v = node_Value node \<and> tr' = (tr @ [?e]) @ pre @ [EtcdEv (KeysDelete (node_Key node) False False) (Inr a)])"
        by blast
      have "passed (node # nodes) ?e" using True ip by (auto simp: passed_def)
      with pre mono show ?thesis by (intro exI [of _ "?e # pre"]) auto
    next
      case False
      then obtain a where a: "etcd_srv E tr ?q = Inr a" "\<not> has_suffix (node_Key node) ''.254''"
        by (cases "etcd_srv E tr ?q") auto
      with ip Cons.prems have "v = node_Value node" "tr' = tr @ [EtcdEv ?q (Inr a)]"
        by (auto simp: etcd_call_eq)
      with a ip show ?thesis by (intro exI [of _ "[]"]) auto
    qed
  qed
qed simp

lemma ParseCIDR_Nil: "\<exists>e. ParseCIDR [] = Inl e"
  by (simp add: ParseCIDR_def)

lemma allocate_ip_runs:
  assumes "allocate_ip E t c tr = (Ok info, tr')"
  obtains res dir node pre a sa ip ipn gw where
    "re_Node res = Some dir" "node_Dir dir" "node \<in> set (node_Nodes dir)"
    "\<not> has_suffix (node_Key node) ''/iprange''" "\<not> has_suffix (node_Key node) ''.254''"
    "ParseCIDR (node_Value node) = Inr (ip, ipn)" "gateway ipn = Ok gw"
    "info = \<lparr>ii_ContainerID = c, ii_IPNet = \<lparr>IPNet_IP = ip, IPNet_Mask = IPNet_Mask ipn\<rparr>, ii_Getway = gw\<rparr>"
    "list_all (passed (node_Nodes dir)) pre"
    "tr' = tr @ EtcdEv (KeysGet (pod_available t) True) (Inr res) # pre
       @ [EtcdEv (KeysDelete (node_Key node) False False) (Inr a),
          EtcdEv (KeysSet (pod_key t c) (node_Value node) False 0) sa]"
    "etcd_srv E tr (KeysGet (pod_available t) True) = Inr res"
    "sa = etcd_srv E (tr @ EtcdEv (KeysGet (pod_available t) True) (Inr res) # pre
       @ [EtcdEv (KeysDelete (node_Key node) False False) (Inr a)]) (KeysSet (pod_key t c) (node_Value node) False 0)"
proof -
  from assms obtain res dir where res: "etcd_srv E tr (KeysGet (pod_available t) True) = Inr res"
    and dir: "re_Node res = Some dir" "node_Dir dir"
    by (auto simp: allocate_ip_def etcd_call_eq split: sum.splits option.splits if_splits)
  let ?t = "tr @ [EtcdEv (KeysGet (pod_available t) True) (Inr res)]"
  obtain v t1 where g: "grab_ip E (node_Nodes dir) ?t = (v, t1)" by force
  from assms res dir g obtain ip ipn gw where p: "ParseCIDR v = Inr (ip, ipn)" "gateway ipn = Ok gw"
    and i: "info = \<lparr>ii_ContainerID = c, ii_IPNet = \<lparr>IPNet_IP = ip, IPNet_Mask = IPNet_Mask ipn\<rparr>, ii_Getway = gw\<rparr>"
    and tr': "tr' = t1 @ [EtcdEv (KeysSet (pod_key t c) v False 0) (etcd_srv E t1 (KeysSet (pod_key t c) v False 0))]"
    by (auto simp: allocate_ip_def etcd_call_eq split: if_splits sum.splits outcome.splits)
  have "v \<noteq> []" using p(1) ParseCIDR_Nil by auto
  with grab_ip_cases [OF g] obtain pre node a where "list_all (passed (node_Nodes dir)) pre"
    "node \<in> set (node_Nodes dir)" "\<not> has_suffix (node_Key node) ''/iprange''" "\<not> has_suffix (node_Key node) ''.254''"
    "v = node_Value node" "t1 = ?t @ pre @ [EtcdEv (KeysDelete (node_Key node) False False) (Inr a)]"
    by blast
  with p i tr' dir res show thesis by (intro that [of res dir node ip ipn gw pre a]) simp_all
qed

lemma allocate_ip_Ok:
  assumes "allocate_ip E t c tr = (Ok info, tr')"
  obtains res dir node pre a sa ip ipn gw where
    "re_Node res = Some dir" "node_Dir dir" "node \<in> set (node_Nodes dir)"
    "\<not> has_suffix (node_Key node) ''/iprange''" "\<not> has_suffix (node_Key node) ''.254''"
    "ParseCIDR (node_Value node) = Inr (ip, ipn)" "gateway ipn = Ok gw"
    "info = \<lparr>ii_ContainerID = c, ii_IPNet = \<lparr>IPNet_IP = ip, IPNet_Mask = IPNet_Mask ipn\<rparr>, ii_Getway = gw\<rparr>"
    "list_all (passed (node_Nodes dir)) pre"
    "tr' = tr @ EtcdEv (KeysGet (pod_available t) True) (Inr res) # pre
       @ [EtcdEv (KeysDelete (node_Key node) False False) (Inr a),
          EtcdEv (KeysSet (pod_key t c) (node_Value node) False 0) sa]"
  by (rule allocate_ip_runs [OF assms]) (rule that)

subsection \<open>Properties\<close>

text \<open>
  \<open>CreateIPsForTenantBridge\<close> on an IPv4 network of at least four addresses stores the
  network and then one key per address from the third to the last but one, leaving out those
  that end in .254; the value of a key is its address with the mask, and no key is written
  twice.
\<close>

theorem CreateIPs_pool:
  assumes "is_network b n" and "n \<le> 30"
    and "etcd_srv E tr (KeysSet (pod_available (tn_ID t) @ ''/iprange'') (cidr_text b n) False 0) = Inr a"
  shows "\<exists>evs ks. CreateIPsForTenantBridge E t (cidr_text b n) tr = Some (Ok (), tr @ evs)
    \<and> ks = filter (\<lambda>k. (val4 b + k) mod 256 \<noteq> 254) [2..<2 ^ (32 - n) - 1]
    \<and> requests evs (KeysSet (pod_available (tn_ID t) @ ''/iprange'') (cidr_text b n) False 0
        # List.map (\<lambda>k. KeysSet (pod_available (tn_ID t) @ ''/'' @ dotted (bytes4 (val4 b + k)))
            (cidr_text (bytes4 (val4 b + k)) n) False 0) ks)
    \<and> distinct (List.map (\<lambda>k. dotted (bytes4 (val4 b + k))) ks)"
proof -
  let ?ks = "filter (\<lambda>k. (val4 b + k) mod 256 \<noteq> 254) [2..<2 ^ (32 - n) - 1]"
  from CreateIPs_network [OF assms] obtain evs where
    "CreateIPsForTenantBridge E t (cidr_text b n) tr = Some (Ok (), tr @ evs)"
    "requests evs (KeysSet (pod_available (tn_ID t) @ ''/iprange'') (cidr_text b n) False 0
      # List.map (place_set (pod_available (tn_ID t) @ ''/'') b n) (pool_places b n True 2))" by blast
  moreover have "distinct (List.map (place_text b) ?ks)"
    by (rule distinct_places [OF assms(1)]) auto
  ultimately show ?thesis
    by (intro exI [of _ evs] exI [of _ ?ks]) (simp add: pool_places_def place_set_def [abs_def] place_text_def [abs_def])
qed

definition granting_env :: env where
  "granting_env = silent_env\<lparr>etcd_srv := \<lambda>_ _. Inr \<lparr>re_Action = ''set'', re_Node = None, re_Index = 1\<rparr>\<rparr>"

definition sample_tenant :: Tenant where
  "sample_tenant = \<lparr>tn_Name = ''t1'', tn_Enabled = True, tn_ID = ''t1'', tn_Description = []\<rparr>"

theorem CreateIPs_pool_witness:
  "\<exists>evs ks. CreateIPsForTenantBridge granting_env sample_tenant (cidr_text [192, 168, 0, 0] 24) [] = Some (Ok (), [] @ evs)
    \<and> ks = filter (\<lambda>k. (val4 [192, 168, 0, 0] + k) mod 256 \<noteq> 254) [2..<2 ^ (32 - 24) - 1]
    \<and> requests evs (KeysSet (pod_available (tn_ID sample_tenant) @ ''/iprange'') (cidr_text [192, 168, 0, 0] 24) False 0
        # List.map (\<lambda>k. KeysSet (pod_available (tn_ID sample_tenant) @ ''/'' @ dotted (bytes4 (val4 [192, 168, 0, 0] + k)))
            (cidr_text (bytes4 (val4 [192, 168, 0, 0] + k)) 24) False 0) ks)
    \<and> distinct (List.map (\<lambda>k. dotted (bytes4 (val4 [192, 168, 0, 0] + k))) ks)"
  by (rule CreateIPs_pool) (simp_all add: is_network_def val4_def granting_env_def)

lemma wide_network: "n \<le> 24 \<longleftrightarrow> 254 < (2::nat) ^ (32 - n)"
proof
  assume "n \<le> 24"
  then have "(2::nat) ^ 8 \<le> 2 ^ (32 - n)" by (intro power_increasing) simp_all
  then show "254 < (2::nat) ^ (32 - n)" by simp
next
  show "n \<le> 24" if "254 < (2::nat) ^ (32 - n)"
  proof (rule ccontr)
    assume "\<not> n \<le> 24"
    then have "(2::nat) ^ (32 - n) \<le> 2 ^ 7" by (intro power_increasing) simp_all
    with that show False by simp
  qed
qed

lemma pool_without_gateway:
  assumes "is_network b n" and "n \<le> 24"
  shows "dotted (bytes4 (val4 b + 254)) \<notin> set (List.map (place_text b) (pool_places b n True 2))"
proof
  assume "dotted (bytes4 (val4 b + 254)) \<in> set (List.map (place_text b) (pool_places b n True 2))"
  then obtain k where "k \<in> set (pool_places b n True 2)" "dotted (bytes4 (val4 b + 254)) = place_text b k" by auto
  then have k: "k < 2 ^ (32 - n)" "(val4 b + k) mod 256 \<noteq> 254"
    "dotted (bytes4 (val4 b + 254)) = dotted (bytes4 (val4 b + k))"
    by (auto simp: pool_places_def place_text_def)
  have "val4 b + k < 2 ^ 32" "val4 b + 254 < 2 ^ 32"
    using k(1) assms(2) wide_network [of n] place_bound [OF assms(1)] by auto
  with k(3) have "k = 254" by (simp add: dotted_bytes4_inject)
  moreover have "(2::nat) ^ 8 dvd 2 ^ (32 - n)" using assms(2) by (intro le_imp_power_dvd) simp
  then have "256 dvd val4 b" using is_networkD(3) [OF assms(1)] by (auto intro: dvd_trans)
  ultimately show False using k(2) by (simp add: mod_add_eq [symmetric])
qed

text \<open>
  C28: the gateway computed for a container of a network is the address 254 places into it,
  which no key of the pool holds. It lies in the network exactly when the mask is at most 24
  bits long: with a longer mask, which the configuration accepts, the containers' gateway is
  outside of their network.
\<close>

theorem gateway_of_network:
  assumes "is_network b n" and "n \<le> 30"
  shows "\<exists>g. gateway (v4_net b n) = Ok (v4InV6Prefix @ g) \<and> val4 g = (val4 b + 254) mod 2 ^ 32
    \<and> (val4 b \<le> val4 g \<and> val4 g < val4 b + 2 ^ (32 - n) \<longleftrightarrow> n \<le> 24)
    \<and> (n \<le> 24 \<longrightarrow> dotted g \<notin> set (List.map (place_text b) (pool_places b n True 2)))"
proof (intro exI conjI impI)
  let ?g = "bytes4 (val4 b + 254)"
  note nw = is_networkD [OF assms(1)]
  have "clear (32 - n) (val4 b) = val4 b" using nw(3) by (simp add: clear_def dvd_eq_mod_eq_0)
  with gateway_v4 [OF nw(1,2)] show "gateway (v4_net b n) = Ok (v4InV6Prefix @ ?g)" by simp
  show g: "val4 ?g = (val4 b + 254) mod 2 ^ 32" by (rule val4_bytes4)
  have lt: "val4 b < 2 ^ 32" using nw(1) by (rule val4_less)
  show "val4 b \<le> val4 ?g \<and> val4 ?g < val4 b + 2 ^ (32 - n) \<longleftrightarrow> n \<le> 24"
  proof (cases "val4 b + 254 < 2 ^ 32")
    case True
    then show ?thesis using g wide_network [of n] by simp
  next
    case False
    with lt have "(val4 b + 254) mod 2 ^ 32 = val4 b + 254 - 2 ^ 32"
      by (subst le_mod_geq) auto
    then have "(val4 b + 254) mod 2 ^ 32 < 254" using lt False by linarith
    moreover have "n \<le> 24 \<Longrightarrow> False" using False wide_network [of n] network_end [OF assms(1)] by simp
    ultimately show ?thesis using g False by auto
  qed
qed (rule pool_without_gateway [OF assms(1)])

theorem gateway_of_network_witness:
  "\<exists>g. gateway (v4_net [192, 168, 0, 128] 25) = Ok (v4InV6Prefix @ g) \<and> val4 g = (val4 [192, 168, 0, 128] + 254) mod 2 ^ 32
    \<and> (val4 [192, 168, 0, 128] \<le> val4 g \<and> val4 g < val4 [192, 168, 0, 128] + 2 ^ (32 - 25) \<longleftrightarrow> 25 \<le> (24 :: nat))
    \<and> (25 \<le> (24 :: nat) \<longrightarrow>
        dotted g \<notin> set (List.map (place_text [192, 168, 0, 128]) (pool_places [192, 168, 0, 128] 25 True 2)))"
  by (rule gateway_of_network) (simp_all add: is_network_def val4_def)

text \<open>
  C9: an address that \<open>GetNewIP\<close> takes from the pool was a listed key, other than the
  network's and not ending in .254, whose deletion succeeded in this very call; the result
  is made of that key's value, which is then stored for the container, and every key tried
  before was either not deleted or ends in .254.
\<close>

theorem GetNewIP_claims:
  assumes "GetNewIP E tenant c tr = (Ok info, tr')"
    and "etcd_srv E tr (KeysGet (pod_key (tn_ID tenant) c) False) = Inl e"
  shows "\<exists>res dir node pre a sa ip ipn gw. re_Node res = Some dir \<and> node \<in> set (node_Nodes dir)
    \<and> \<not> has_suffix (node_Key node) ''/iprange'' \<and> \<not> has_suffix (node_Key node) ''.254''
    \<and> ParseCIDR (node_Value node) = Inr (ip, ipn) \<and> gateway ipn = Ok gw
    \<and> info = \<lparr>ii_ContainerID = c, ii_IPNet = \<lparr>IPNet_IP = ip, IPNet_Mask = IPNet_Mask ipn\<rparr>, ii_Getway = gw\<rparr>
    \<and> list_all (passed (node_Nodes dir)) pre
    \<and> tr' = tr @ [EtcdEv (KeysGet (pod_key (tn_ID tenant) c) False) (Inl e),
         EtcdEv (KeysGet (pod_available (tn_ID tenant)) True) (Inr res)] @ pre
       @ [EtcdEv (KeysDelete (node_Key node) False False) (Inr a),
          EtcdEv (KeysSet (pod_key (tn_ID tenant) c) (node_Value node) False 0) sa]"
proof -
  from assms have "allocate_ip E (tn_ID tenant) c
      (tr @ [EtcdEv (KeysGet (pod_key (tn_ID tenant) c) False) (Inl e)]) = (Ok info, tr')"
    by (simp add: GetNewIP_def etcd_call_eq)
  then show ?thesis by (rule allocate_ip_Ok) (simp, blast)
qed

text \<open>An etcd with two addresses left in the pool of tenant \<open>t1\<close>, and nothing else.\<close>

definition pool_env :: env where
  "pool_env = silent_env\<lparr>etcd_srv := \<lambda>_ q. case q of
       KeysGet k rec \<Rightarrow>
         if rec then Inr \<lparr>re_Action = ''get'', re_Node =
           Some (Node (pod_available ''t1'') [] True
             [Node (pod_available ''t1'' @ ''/10.0.0.2'') (cidr_text [10, 0, 0, 2] 24) False [],
              Node (pod_available ''t1'' @ ''/iprange'') (cidr_text [10, 0, 0, 0] 24) False []]), re_Index = 9\<rparr>
         else Inl (EtcdError 100 ''Key not found'')
     | _ \<Rightarrow> Inr \<lparr>re_Action = ''set'', re_Node = None, re_Index = 9\<rparr>\<rparr>"

lemma GetNewIP_pool_env:
  "GetNewIP pool_env sample_tenant ''c1'' [] =
    (Ok \<lparr>ii_ContainerID = ''c1'', ii_IPNet = \<lparr>IPNet_IP = v4InV6Prefix @ [10, 0, 0, 2], IPNet_Mask = CIDRMask 24 32\<rparr>,
         ii_Getway = v4InV6Prefix @ [10, 0, 0, 254]\<rparr>, snd (GetNewIP pool_env sample_tenant ''c1'' []))"
proof -
  have g: "gateway (v4_net [10, 0, 0, 2] 24) = Ok (v4InV6Prefix @ [10, 0, 0, 254])"
    by (simp add: gateway_v4 clear_def val4_def bytes4_def)
  show ?thesis
    using g by (simp add: GetNewIP_def allocate_ip_def etcd_call_eq pool_env_def has_suffix_def
        pod_available_def sample_tenant_def ParseCIDR_text) (simp add: v4_net_def)
qed

theorem GetNewIP_claims_witness:
  "\<exists>res dir node pre a sa ip ipn gw. re_Node res = Some dir \<and> node \<in> set (node_Nodes dir)
    \<and> \<not> has_suffix (node_Key node) ''/iprange'' \<and> \<not> has_suffix (node_Key node) ''.254''
    \<and> ParseCIDR (node_Value node) = Inr (ip, ipn) \<and> gateway ipn = Ok gw
    \<and> \<lparr>ii_ContainerID = ''c1'', ii_IPNet = \<lparr>IPNet_IP = v4InV6Prefix @ [10, 0, 0, 2], IPNet_Mask = CIDRMask 24 32\<rparr>,
         ii_Getway = v4InV6Prefix @ [10, 0, 0, 254]\<rparr>
      = \<lparr>ii_ContainerID = ''c1'', ii_IPNet = \<lparr>IPNet_IP = ip, IPNet_Mask = IPNet_Mask ipn\<rparr>, ii_Getway = gw\<rparr>
    \<and> list_all (passed (node_Nodes dir)) pre
    \<and> snd (GetNewIP pool_env sample_tenant ''c1'' [])
      = [] @ [EtcdEv (KeysGet (pod_key (tn_ID sample_tenant) ''c1'') False) (Inl (EtcdError 100 ''Key not found'')),
         EtcdEv (KeysGet (pod_available (tn_ID sample_tenant)) True) (Inr res)] @ pre
       @ [EtcdEv (KeysDelete (node_Key node) False False) (Inr a),
          EtcdEv (KeysSet (pod_key (tn_ID sample_tenant) ''c1'') (node_Value node) False 0) sa]"
  by (rule GetNewIP_claims [OF GetNewIP_pool_env]) (simp add: pool_env_def)

text \<open>
  C27: \<open>GetNewIP\<close> is not idempotent, though its comment says so. What it stores for a
  container is the text of a CIDR, which its own \<open>json.Unmarshal\<close> never accepts: with the
  stored value found, it goes on as if there were none and takes another address.
\<close>

theorem GetNewIP_ignores_stored:
  assumes "etcd_srv E tr (KeysGet (pod_key (tn_ID tenant) c) False) = Inr res"
    and "re_Node res = Some node" and "node_Value node = cidr_text b n"
  shows "GetNewIP E tenant c tr =
    allocate_ip E (tn_ID tenant) c (tr @ [EtcdEv (KeysGet (pod_key (tn_ID tenant) c) False) (Inr res)])"
  using assms by (simp add: GetNewIP_def etcd_call_eq Unmarshal_def json_parse_cidr)

theorem GetNewIP_ignores_stored_witness:
  "GetNewIP (silent_env\<lparr>etcd_srv := \<lambda>_ _. Inr \<lparr>re_Action = ''get'', re_Node = Some (Node ''/c'' (cidr_text [10, 0, 0, 2] 24) False []),
       re_Index = 1\<rparr>\<rparr>) sample_tenant ''c1'' [] =
    allocate_ip (silent_env\<lparr>etcd_srv := \<lambda>_ _. Inr \<lparr>re_Action = ''get'', re_Node = Some (Node ''/c'' (cidr_text [10, 0, 0, 2] 24) False []),
       re_Index = 1\<rparr>\<rparr>) (tn_ID sample_tenant) ''c1''
      ([] @ [EtcdEv (KeysGet (pod_key (tn_ID sample_tenant) ''c1'') False)
        (Inr \<lparr>re_Action = ''get'', re_Node = Some (Node ''/c'' (cidr_text [10, 0, 0, 2] 24) False []), re_Index = 1\<rparr>)])"
  by (rule GetNewIP_ignores_stored [where b = "[10, 0, 0, 2]" and n = 24], simp, simp, simp)

text \<open>
  C22: \<open>refreshRouterAvailable\<close> on a network of at least four addresses returns its third and
  fourth address, and fills the pool with all that follow, the last one excepted; so the
  pair it hands out is not in the pool it fills.
\<close>

theorem refreshRouterAvailable_pair:
  assumes "is_network b n" and "n \<le> 30"
    and "etcd_srv E tr (KeysSet ''/midonet-cni/ip/router/available/iprange'' (cidr_text b n) False 0) = Inr a"
  shows "\<exists>evs. refreshRouterAvailable E (cidr_text b n) tr =
      Some (Ok [cidr_text (bytes4 (val4 b + 2)) n, cidr_text (bytes4 (val4 b + 3)) n], tr @ evs)
    \<and> requests evs (KeysSet ''/midonet-cni/ip/router/available/iprange'' (cidr_text b n) False 0
        # List.map (\<lambda>k. KeysSet (''/midonet-cni/ip/router/available/'' @ dotted (bytes4 (val4 b + k)))
            (cidr_text (bytes4 (val4 b + k)) n) False 0) [4..<2 ^ (32 - n) - 1])
    \<and> {dotted (bytes4 (val4 b + 2)), dotted (bytes4 (val4 b + 3))}
        \<inter> set (List.map (\<lambda>k. dotted (bytes4 (val4 b + k))) [4..<2 ^ (32 - n) - 1]) = {}"
proof -
  from refresh_network [OF assms] obtain evs where
    "refreshRouterAvailable E (cidr_text b n) tr =
      Some (Ok [cidr_text (bytes4 (val4 b + 2)) n, cidr_text (bytes4 (val4 b + 3)) n], tr @ evs)"
    "requests evs (KeysSet ''/midonet-cni/ip/router/available/iprange'' (cidr_text b n) False 0
        # List.map (place_set ''/midonet-cni/ip/router/available/'' b n) (pool_places b n False 4))" by blast
  moreover have ne: "dotted (bytes4 (val4 b + i)) \<noteq> dotted (bytes4 (val4 b + k))"
    if "i < 4" "4 \<le> k" "k < 2 ^ (32 - n) - 1" for i k
    using that network_size [OF assms(2)] place_bound [OF assms(1), of i] place_bound [OF assms(1), of k]
    by (simp add: dotted_bytes4_inject)
  have "{dotted (bytes4 (val4 b + 2)), dotted (bytes4 (val4 b + 3))}
      \<inter> set (List.map (\<lambda>k. dotted (bytes4 (val4 b + k))) [4..<2 ^ (32 - n) - 1]) = {}"
    using ne [of 2] ne [of 3] by (simp add: image_iff del: add_2_eq_Suc')
  ultimately show ?thesis
    by (intro exI [of _ evs]) (simp add: pool_places_def place_set_def [abs_def] place_text_def [abs_def])
qed

theorem refreshRouterAvailable_pair_witness:
  "\<exists>evs. refreshRouterAvailable granting_env (cidr_text [172, 16, 0, 0] 24) [] =
      Some (Ok [cidr_text (bytes4 (val4 [172, 16, 0, 0] + 2)) 24, cidr_text (bytes4 (val4 [172, 16, 0, 0] + 3)) 24], [] @ evs)
    \<and> requests evs (KeysSet ''/midonet-cni/ip/router/available/iprange'' (cidr_text [172, 16, 0, 0] 24) False 0
        # List.map (\<lambda>k. KeysSet (''/midonet-cni/ip/router/available/'' @ dotted (bytes4 (val4 [172, 16, 0, 0] + k)))
            (cidr_text (bytes4 (val4 [172, 16, 0, 0] + k)) 24) False 0) [4..<2 ^ (32 - 24) - 1])
    \<and> {dotted (bytes4 (val4 [172, 16, 0, 0] + 2)), dotted (bytes4 (val4 [172, 16, 0, 0] + 3))}
        \<inter> set (List.map (\<lambda>k. dotted (bytes4 (val4 [172, 16, 0, 0] + k))) [4..<2 ^ (32 - 24) - 1]) = {}"
  by (rule refreshRouterAvailable_pair) (simp_all add: is_network_def val4_def granting_env_def)

text \<open>
  \<open>GetRouterIP\<close> dereferences a nil response: when listing the pool fails with an etcd
  error other than \<open>KeyNotFound\<close>, no result is given and the call panics, after the mutex
  was released.
\<close>

theorem GetRouterIP_panics:
  assumes "GetRouterIP E conf tr = Some (res, tr')" and "hostname_srv E = Some h"
    and "\<And>t. etcd_srv E t (KeysGet ''/midonet-cni/ip/router/available'' True) = Inl (EtcdError c msg)"
    and "c \<noteq> ErrorCodeKeyNotFound"
  shows "res = Panic \<and> (\<exists>t e. tr' = t @ [e] \<and> is_unlock ''/midonet-cni/router_ip'' e)"
  using assms(1) unfolding GetRouterIP_def
proof (cases rule: with_lock_cases)
  case refused
  with assms(2) show ?thesis by simp
next
  case (ran pre t post)
  have k: "lock_key ''/midonet-cni/router_ip'' = ''/midonet-cni/router_ip''" by (simp add: lock_key_def)
  have "res = Panic" using ran(2) assms(3,4) by (simp add: router_ip_body_def etcd_call_eq)
  moreover obtain e post' where "post = post' @ [e]" using ran(4) by (cases post rule: rev_cases) auto
  ultimately show ?thesis using ran k by auto
qed

definition failing_pool_env :: env where
  "failing_pool_env = silent_env\<lparr>etcd_srv := \<lambda>_ q. case q of
       KeysGet _ _ \<Rightarrow> Inl (EtcdError 300 ''Raft Internal Error'')
     | _ \<Rightarrow> Inr \<lparr>re_Action = ''set'', re_Node = None, re_Index = 9\<rparr>\<rparr>"

definition sample_conf :: Options where
  "sample_conf = Options_zero\<lparr>op_MidoNetRouterCIDR := ''172.16.0.0/24'', op_MidoNetBridgeCIDR := ''192.168.0.0/24''\<rparr>"

lemma GetRouterIP_failing: "\<exists>tr'. GetRouterIP failing_pool_env sample_conf [] = Some (Panic, tr')"
  by (simp add: GetRouterIP_def with_lock_def Mutex_New_def Lock_def lock_def Unlock_def defaultTry_def
      numeral_3_eq_3 etcd_call_eq router_ip_body_def failing_pool_env_def silent_env_def ErrorCodeKeyNotFound_def)

theorem GetRouterIP_panics_witness:
  "\<exists>tr'. GetRouterIP failing_pool_env sample_conf [] = Some (Panic, tr')
    \<and> (Panic :: string list outcome) = Panic \<and> (\<exists>t e. tr' = t @ [e] \<and> is_unlock ''/midonet-cni/router_ip'' e)"
proof -
  from GetRouterIP_failing obtain tr' where tr': "GetRouterIP failing_pool_env sample_conf [] = Some (Panic, tr')" by blast
  from GetRouterIP_panics [OF this, of "''node1''" 300 "''Raft Internal Error''"] tr' show ?thesis
    by (auto simp: failing_pool_env_def silent_env_def ErrorCodeKeyNotFound_def)
qed

subsection \<open>Releasing addresses\<close>

lemma hexString_CIDRMask_inject: "n \<le> 32 \<Longrightarrow> m \<le> 32 \<Longrightarrow> Mask_String (CIDRMask n 32) = Mask_String (CIDRMask m 32) \<longleftrightarrow> n = m"
proof -
  assume "n \<le> 32" "m \<le> 32"
  have "distinct (List.map (\<lambda>n. Mask_String (CIDRMask n 32)) [0..<33])" by code_simp
  then have "inj_on (\<lambda>n. Mask_String (CIDRMask n 32)) {0..<33}" by (simp add: distinct_map)
  then show ?thesis using \<open>n \<le> 32\<close> \<open>m \<le> 32\<close> by (auto simp: inj_on_def)
qed

lemma same_network_v4:
  assumes "length b = 4" "n \<le> 32" "length a = 4" "m \<le> 32"
  shows "same_network (v4_net b n) (v4_net a m) \<longleftrightarrow> n = m \<and> clear (32 - n) (val4 b) = clear (32 - n) (val4 a)"
proof -
  have lt: "clear (32 - n) (val4 b) < 2 ^ 32" "clear (32 - m) (val4 a) < 2 ^ 32"
    using val4_less [OF assms(1)] val4_less [OF assms(3)] by (auto simp: clear_def)
  then have "dotted (bytes4 (clear (32 - n) (val4 b))) = dotted (bytes4 (clear (32 - m) (val4 a)))
      \<longleftrightarrow> clear (32 - n) (val4 b) = clear (32 - m) (val4 a)" by (rule dotted_bytes4_inject)
  with assms show ?thesis
    by (auto simp: same_network_def v4_net_def masked_bytes4 IP_String_v4 hexString_CIDRMask_inject)
qed

lemma clear_network:
  assumes "is_network b n"
  shows "clear (32 - n) (val4 b) = clear (32 - n) y \<longleftrightarrow> val4 b \<le> y \<and> y < val4 b + 2 ^ (32 - n)"
proof -
  let ?s = "(2::nat) ^ (32 - n)"
  from assms obtain q where q: "val4 b = ?s * q" by (auto simp: is_network_def)
  have "clear (32 - n) y = ?s * (y div ?s)" by (simp add: clear_def minus_mod_eq_mult_div)
  moreover have "clear (32 - n) (val4 b) = ?s * q" using q by (simp add: clear_def)
  moreover have "q = y div ?s \<longleftrightarrow> ?s * q \<le> y \<and> y < ?s * q + ?s"
  proof
    assume "q = y div ?s"
    then show "?s * q \<le> y \<and> y < ?s * q + ?s"
      using mult_div_mod_eq [of ?s y] mod_less_divisor [of ?s y] by (metis add_le_cancel_left le_add1 nat_add_left_cancel_less zero_less_numeral zero_less_power)
  next
    assume a: "?s * q \<le> y \<and> y < ?s * q + ?s"
    then show "q = y div ?s" by (intro div_nat_eqI [symmetric]) (simp_all add: algebra_simps)
  qed
  ultimately show ?thesis using q by simp
qed

lemma current_net_v4:
  assumes "etcd_srv E tr (KeysGet key False) = Inr res" "re_Node res = Some node"
    and "node_Value node = cidr_text b n" "length b = 4" "n \<le> 32"
  shows "current_net E key tr = (Ok (v4_net b n), tr @ [EtcdEv (KeysGet key False) (Inr res)])"
  using assms by (simp add: current_net_def etcd_call_eq ParseCIDR_text)

lemma ReleaseIP_current:
  assumes "is_network b n" and "length a = 4" and "val4 b \<le> val4 a" and "val4 a < val4 b + 2 ^ (32 - n)"
    and "etcd_srv E tr (KeysGet (pod_available t @ ''/iprange'') False) = Inr res" and "re_Node res = Some node"
    and "node_Value node = cidr_text b n"
  shows "ReleaseIP E t (cidr_text a n) tr = with_lock E (''/midonet-cni/tenant/'' @ t @ ''/bridge/create'')
      ''etcdsync.NewMutex failed when release old ip'' ''etcdsync.Lock failed when release old ip''
      (\<lambda>tr. Some (Ok (), snd (Keys_Set E (pod_available t @ ''/'' @ dotted a) (cidr_text a n) tr)))
      (tr @ [EtcdEv (KeysGet (pod_available t @ ''/iprange'') False) (Inr res)])"
proof -
  note nw = is_networkD [OF assms(1)]
  have "same_network (v4_net b n) (v4_net a n)"
    using same_network_v4 [OF nw(1,2) assms(2) nw(2)] clear_network [OF assms(1)] assms(3,4) by simp
  with assms(2) nw current_net_v4 [OF assms(5-7) nw(1,2)] show ?thesis
    by (simp add: ReleaseIP_def ParseCIDR_text IP_String_prefixed del: snd_etcd_call)
qed


definition release_env :: env where
  "release_env = silent_env\<lparr>etcd_srv := \<lambda>_ q. case q of
       KeysGet _ _ \<Rightarrow> Inr \<lparr>re_Action = ''get'', re_Node = Some (Node ''/r'' (cidr_text [10, 0, 0, 0] 24) False []), re_Index = 9\<rparr>
     | _ \<Rightarrow> Inr \<lparr>re_Action = ''set'', re_Node = None, re_Index = 9\<rparr>\<rparr>"

lemma ReleaseIP_release_env: "\<exists>r tr'. ReleaseIP release_env ''t1'' (cidr_text [10, 0, 0, 7] 24) [] = Some (r, tr')"
  by (simp add: ReleaseIP_def current_net_def with_lock_def Mutex_New_def Lock_def lock_def Unlock_def defaultTry_def
      numeral_3_eq_3 etcd_call_eq release_env_def silent_env_def ParseCIDR_text split: outcome.split)


text \<open>
  An address of another network than the current one is not put back anywhere; the
  release reports success. (After \<open>CreateNewBridge\<close> has moved on to the next network, the
  addresses of the one before are lost.)
\<close>

theorem ReleaseIP_drops_old_networks:
  assumes "is_network b n" and "length a = 4" and "m \<le> 32"
    and "n \<noteq> m \<or> val4 a < val4 b \<or> val4 b + 2 ^ (32 - n) \<le> val4 a"
    and "etcd_srv E tr (KeysGet (pod_available t @ ''/iprange'') False) = Inr res" and "re_Node res = Some node"
    and "node_Value node = cidr_text b n"
  shows "ReleaseIP E t (cidr_text a m) tr =
    Some (Ok (), tr @ [EtcdEv (KeysGet (pod_available t @ ''/iprange'') False) (Inr res)])"
proof -
  note nw = is_networkD [OF assms(1)]
  have "\<not> same_network (v4_net b n) (v4_net a m)"
    unfolding same_network_v4 [OF nw(1,2) assms(2,3)] clear_network [OF assms(1)]
    using assms(4) by linarith
  with assms(2,3) current_net_v4 [OF assms(5-7) nw(1,2)] show ?thesis
    by (simp add: ReleaseIP_def ParseCIDR_text)
qed

theorem ReleaseIP_drops_old_networks_witness:
  "ReleaseIP release_env ''t1'' (cidr_text [10, 0, 1, 7] 24) [] =
    Some (Ok (), [] @ [EtcdEv (KeysGet (pod_available ''t1'' @ ''/iprange'') False)
      (Inr \<lparr>re_Action = ''get'', re_Node = Some (Node ''/r'' (cidr_text [10, 0, 0, 0] 24) False []), re_Index = 9\<rparr>)])"
proof (rule ReleaseIP_drops_old_networks)
  show "is_network [10, 0, 0, 0] 24" by (simp add: is_network_def val4_def)
  show "node_Value (Node ''/r'' (cidr_text [10, 0, 0, 0] 24) False []) = cidr_text [10, 0, 0, 0] 24" by simp
qed (simp_all add: val4_def release_env_def)

text \<open>Taking a mutex deletes nothing: only \<open>Unlock\<close> deletes its key.\<close>

definition acquires :: "string \<Rightarrow> event \<Rightarrow> bool" where
  "acquires key e \<longleftrightarrow> lock_event key e \<and> \<not> is_unlock key e"

lemma is_watch_acquires: "is_watch key e \<Longrightarrow> acquires key e"
  by (auto simp: acquires_def is_watch_def lock_event_def is_unlock_def split: event.splits etcd_req.splits)

lemma acquires_simps [simp]:
  "acquires key (EtcdEv (KeysSet k v p t) a) \<longleftrightarrow> p \<and> k = key"
  "acquires key (EtcdEv (KeysGet k rec) a) \<longleftrightarrow> \<not> rec \<and> k = key"
  by (simp_all add: acquires_def is_unlock_def)

lemma lock_acquires:
  "lock E m tr = Some (r, tr') \<Longrightarrow> \<exists>evs. tr' = tr @ evs \<and> list_all (acquires (mx_key m)) evs"
  using is_watch_acquires [of "mx_key m"]
  by (auto simp: lock_def etcd_call_eq list_all_iff dest!: watch_loop_shape
      split: sum.splits option.splits if_splits)

lemma Lock_loop_acquires:
  "Lock_loop E m n err tr = Some (r, tr') \<Longrightarrow> \<exists>evs. tr' = tr @ evs \<and> list_all (acquires (mx_key m)) evs"
proof (induction n arbitrary: tr)
  case (Suc n)
  then show ?case
    by (auto split: if_splits bind_splits dest!: lock_acquires Suc.IH)
qed simp

lemma Lock_acquires:
  "Lock E m tr = Some ((err, m'), tr') \<Longrightarrow> \<exists>evs. tr' = tr @ evs \<and> list_all (acquires (mx_key m)) evs"
  by (auto simp: Lock_def split: if_splits bind_splits dest: Lock_loop_acquires)

abbreviation router_lock :: string where
  "router_lock \<equiv> ''/midonet-cni/router_ip''"

text \<open>The events of \<open>ReleaseRouterIP\<close> that are not deletions of the mutex's key.\<close>

definition keeps_lock :: "event \<Rightarrow> bool" where
  "keeps_lock e \<longleftrightarrow> \<not> is_unlock router_lock e"

lemma keeps_lock_simps [simp]:
  "keeps_lock (EtcdEv (KeysSet k v p t) a)" "keeps_lock (EtcdEv (KeysGet k rec) a)"
  by (simp_all add: keeps_lock_def is_unlock_def)

lemma release_loop_keeps:
  "release_loop E ipnet ips ms tr = Some ((res, ms'), tr') \<Longrightarrow>
   (\<exists>evs. tr' = tr @ evs \<and> list_all keeps_lock evs)
   \<and> (\<forall>m \<in> set ms'. m \<in> set ms \<or> (mx_key m = router_lock \<and> mx_mutex m))"
proof (induction ips arbitrary: ms tr)
  case (Cons oldIP ips)
  show ?case
  proof (cases "ParseCIDR oldIP")
    case (Inr p)
    obtain ip old where p: "p = (ip, old)" by force
    show ?thesis
    proof (cases "same_network ipnet old")
      case True
      show ?thesis
      proof (cases "Mutex_New E router_lock 20 tr")
        case (Some m)
        note k = Mutex_New_Some [OF Some]
        from Cons.prems Inr p True Some obtain err m1 t1 where L: "Lock E m tr = Some ((err, m1), t1)"
          by (auto split: bind_splits)
        note r = Lock_result [OF L]
        obtain pre where pre: "t1 = tr @ pre" "list_all keeps_lock pre"
          using Lock_acquires [OF L] k by (auto simp: keeps_lock_def acquires_def lock_key_def list_all_iff)
        let ?q = "KeysSet (''/midonet-cni/ip/router/available/'' @ IP_String ip) oldIP False 0"
        from Cons.prems Inr p True Some L r have
          "release_loop E ipnet ips (m1 # ms) (t1 @ [EtcdEv ?q (etcd_srv E t1 ?q)]) = Some ((res, ms'), tr')"
          by simp
        from Cons.IH [OF this] pre k r show ?thesis by (auto simp: lock_key_def)
      qed (use Cons.prems Inr p True in simp)
    next
      case False
      with Cons Inr p show ?thesis by simp
    qed
  qed (use Cons.prems in simp)
qed simp

lemma unlock_all_unlocks:
  "unlock_all E ms tr = Some tr' \<Longrightarrow> \<forall>m \<in> set ms. mx_key m = key \<Longrightarrow>
   \<exists>evs. tr' = tr @ evs \<and> list_all (is_unlock key) evs \<and> (ms \<noteq> [] \<longrightarrow> evs \<noteq> [])"
proof (induction ms arbitrary: tr)
  case (Cons m ms)
  from Cons.prems(1) obtain r m' t where U: "Unlock E m tr = Some ((r, m'), t)" and "unlock_all E ms t = Some tr'"
    by (auto split: bind_splits)
  with Cons show ?case using Unlock_extends [OF U] by fastforce
qed simp


lemma ReleaseRouterIP_release_env:
  "\<exists>res tr'. ReleaseRouterIP release_env [cidr_text [10, 0, 0, 2] 24, cidr_text [10, 0, 0, 3] 24] [] = Some (res, tr')"
proof -
  have s: "same_network (v4_net [10, 0, 0, 0] 24) (v4_net [10, 0, 0, 2] 24)"
    "same_network (v4_net [10, 0, 0, 0] 24) (v4_net [10, 0, 0, 3] 24)"
    by (simp_all add: same_network_v4 clear_def val4_def)
  show ?thesis
    using s by (simp add: ReleaseRouterIP_def current_net_def Mutex_New_def Lock_def lock_def Unlock_def defaultTry_def
        numeral_3_eq_3 etcd_call_eq release_env_def silent_env_def ParseCIDR_text split: outcome.split)
qed


end
