(* ===== verification/Midonet.thy ===== *)
theory Midonet
  imports Client Ipam
begin

text \<open>
  \<open>pkg/midonet/midonet.go\<close>: the manager that builds and removes a tenant's virtual network
  with the MidoNet client, and keeps what it built in etcd. The properties are in
  \<open>MidonetProps\<close>.

  \<open>json.Marshal\<close> does not fail on the structures marshalled here, so the branches for its
  errors are left out.
\<close>

record Manager =
  mg_conf :: Options
  mg_client :: Client

text \<open>The result also has the caller's options, whose list of addresses \<open>NewClient\<close> changes.\<close>

definition NewManager :: "env \<Rightarrow> Options \<Rightarrow> history \<Rightarrow> ((go_error + Manager) \<times> Options) \<times> history" where
  "NewManager E conf tr =
     (case NewClient E (op_MidoNetAPIConf conf) tr of ((r, api), tr) \<Rightarrow>
        let conf = conf\<lparr>op_MidoNetAPIConf := api\<rparr>
        in case r of
             Inl err \<Rightarrow> ((Inl err, conf), tr)
           | Inr c \<Rightarrow>
               (case CreateETCDClient E (op_ETCDConf conf) of
                  Some err \<Rightarrow> ((Inl err, conf), tr)
                | None \<Rightarrow> ((Inr \<lparr>mg_conf = conf, mg_client = c\<rparr>, conf), tr)))"

text \<open>A rollback: the deletions run one after the other, and their errors are only logged.\<close>

definition undo :: "(history \<Rightarrow> go_error option \<times> history) list \<Rightarrow> history \<Rightarrow> history" where
  "undo ops tr = fold (\<lambda>op tr. snd (op tr)) ops tr"

definition tenant_key :: "string \<Rightarrow> string \<Rightarrow> string" where
  "tenant_key tenantID what = ''/midonet-cni/tenant/'' @ tenantID @ what"

subsection \<open>Ports, routes and rules\<close>

definition createRouterPort :: "env \<Rightarrow> string \<Rightarrow> UUID option \<Rightarrow> history \<Rightarrow> (go_error + RouterPort) \<times> history" where
  "createRouterPort E ip routerID tr =
     (case ParseCIDR ip of
        Inl err \<Rightarrow> (Inl err, tr)
      | Inr (remoteIP, remoteIPNet) \<Rightarrow>
          (let p = \<lparr>po_ID = None, po_Type = [], po_DeviceID = routerID, po_PeerID = None,
                    rp_NetworkAddress = IP_String (IPNet_IP remoteIPNet),
                    rp_NetworkLength = int (Mask_Size (IPNet_Mask remoteIPNet)),
                    rp_PortAddress = IP_String remoteIP\<rparr>
           in case CreateRouterPort E p tr of ((err, p), tr) \<Rightarrow>
                (case err of Some e \<Rightarrow> (Inl e, tr) | None \<Rightarrow> (Inr p, tr))))"

definition CreateDefaultRoute ::
    "env \<Rightarrow> Manager \<Rightarrow> RouterPort \<Rightarrow> RouterPort \<Rightarrow> UUID option \<Rightarrow> UUID option \<Rightarrow> string \<Rightarrow> history
     \<Rightarrow> go_error option \<times> history" where
  "CreateDefaultRoute E m localPort remotePort routerID providerRouterID tenantID tr =
     (case CreateUUID E tr of (out_id, tr) \<Rightarrow>
      case CreateUUID E tr of (in_id, tr) \<Rightarrow>
        let outRoute = \<lparr>rt_ID = Some out_id, rt_DstNetworkAddr = ''0.0.0.0'', rt_DstNetworkLength = 0,
                        rt_NextHopGateway = rp_PortAddress remotePort, rt_NextHopPort = po_ID localPort,
                        rt_SrcNetworkAddr = ''0.0.0.0'', rt_SrcNetworkLength = 0, rt_Type = ''Normal'',
                        rt_RouterID = routerID\<rparr>;
            inRoute = \<lparr>rt_ID = Some in_id, rt_DstNetworkAddr = rp_PortAddress localPort, rt_DstNetworkLength = 32,
                       rt_NextHopGateway = [], rt_NextHopPort = po_ID remotePort,
                       rt_SrcNetworkAddr = ''0.0.0.0'', rt_SrcNetworkLength = 0, rt_Type = ''Normal'',
                       rt_RouterID = providerRouterID\<rparr>
        in case CreateRoute E outRoute tr of ((err, outRoute), tr) \<Rightarrow>
           case err of
             Some e \<Rightarrow> (Some e, tr)
           | None \<Rightarrow>
               (case CreateRoute E inRoute tr of ((err, inRoute), tr) \<Rightarrow>
                  case err of
                    Some e \<Rightarrow> (Some e, undo [DeleteRoute E (mg_client m) routerID (rt_ID outRoute)] tr)
                  | None \<Rightarrow>
                      (None, snd (Keys_Set E (''/midonet/tenant/'' @ tenantID @ ''/provider_router_route'')
                                    (UUID_String in_id) tr))))"

text \<open>The rule all three rules start from: the fields the code does not set are zero.\<close>

definition empty_rule :: Rule where
  "empty_rule = \<lparr>ru_ID = None, ru_Type = [], ru_CondInvert = False, ru_FlowAction = [], ru_FragmentPolicy = [],
     ru_InPorts = [], ru_InvInPorts = False, ru_InvNwProto = False, ru_InvOutPorts = False,
     ru_MatchForwardFlow = False, ru_MatchReturnFlow = False, ru_NoVlan = False, ru_OutPorts = [],
     ru_Position = 0, ru_ChainID = None, ru_NatTargets = []\<rparr>"

definition ruleOne :: "Router \<Rightarrow> Rule" where
  "ruleOne router = empty_rule\<lparr>ru_MatchReturnFlow := True, ru_FragmentPolicy := ''any'', ru_Position := 1,
     ru_Type := ''accept'', ru_ChainID := ro_OutboundFilterID router\<rparr>"

definition ruleTwo :: "RouterPort \<Rightarrow> Router \<Rightarrow> Rule" where
  "ruleTwo localPort router = empty_rule\<lparr>ru_FragmentPolicy := ''unfragmented'', ru_Position := 2,
     ru_Type := ''snat'', ru_FlowAction := ''accept'', ru_OutPorts := [po_ID localPort],
     ru_NatTargets := [\<lparr>nt_AddressTo = rp_PortAddress localPort, nt_AddressFrom = rp_PortAddress localPort,
                        nt_PortTo = 65535, nt_PortFrom = 1024\<rparr>],
     ru_ChainID := ro_OutboundFilterID router\<rparr>"

definition ruleThree :: "RouterPort \<Rightarrow> Router \<Rightarrow> Rule" where
  "ruleThree localPort router = empty_rule\<lparr>ru_FlowAction := ''continue'', ru_InPorts := [po_ID localPort],
     ru_FragmentPolicy := ''any'', ru_Position := 1, ru_Type := ''rev_snat'',
     ru_ChainID := ro_InboundFilterID router\<rparr>"

definition CreateDefaultRule :: "env \<Rightarrow> RouterPort \<Rightarrow> Router \<Rightarrow> history \<Rightarrow> go_error option \<times> history" where
  "CreateDefaultRule E localPort router tr =
     (case CreateRule E (ruleOne router) tr of ((err, one), tr) \<Rightarrow>
        case err of
          Some e \<Rightarrow> (Some e, tr)
        | None \<Rightarrow>
            (case CreateRule E (ruleTwo localPort router) tr of ((err, two), tr) \<Rightarrow>
               case err of
                 Some e \<Rightarrow> (Some e, undo [DeleteRule E (ru_ID one)] tr)
               | None \<Rightarrow>
                   (case CreateRule E (ruleThree localPort router) tr of ((err, three), tr) \<Rightarrow>
                      case err of
                        Some e \<Rightarrow> (Some e, undo [DeleteRule E (ru_ID one), DeleteRule E (ru_ID two)] tr)
                      | None \<Rightarrow>
                          (None, snd (Keys_Set E (tenant_key (ro_TenantID router) ''/router-rule'')
                                        (show_json (Rules_json [one, two, three])) tr)))))"

definition CreateBridgeLinkRouter ::
    "env \<Rightarrow> UUID option \<Rightarrow> UUID option \<Rightarrow> string \<Rightarrow> history \<Rightarrow> unit outcome \<times> history" where
  "CreateBridgeLinkRouter E bridgeID routerID iprange tr =
     (case ParseCIDR iprange of
        Inl err \<Rightarrow> (Err err, tr)
      | Inr (_, ipn) \<Rightarrow>
          (case gateway ipn of
             Err e \<Rightarrow> (Err e, tr)
           | Panic \<Rightarrow> (Panic, tr)
           | Ok getway \<Rightarrow>
               (let networkLength = Mask_Size (IPNet_Mask ipn)
                in case createRouterPort E (IP_String getway @ ''/'' @ itoa networkLength) routerID tr of (rp, tr) \<Rightarrow>
                   case rp of
                     Inl e \<Rightarrow> (Err e, tr)
                   | Inr routerPort \<Rightarrow>
                       (case CreateBridgePort E \<lparr>po_ID = None, po_Type = [], po_DeviceID = bridgeID, po_PeerID = None,
                                                 bp_VlanID = None\<rparr> tr of ((err, bridgePort), tr) \<Rightarrow>
                          case err of
                            Some e \<Rightarrow> (Err e, undo [DeletePort E (po_ID routerPort)] tr)
                          | None \<Rightarrow>
                              (case CreatePortLink E \<lparr>pl_PortID = po_ID routerPort, pl_PeerID = po_ID bridgePort\<rparr> tr of (err, tr) \<Rightarrow>
                                 case err of
                                   Some e \<Rightarrow> (Err e, undo [DeletePort E (po_ID routerPort), DeletePort E (po_ID bridgePort)] tr)
                                 | None \<Rightarrow>
                                     (case CreateRoute E \<lparr>rt_ID = None, rt_DstNetworkAddr = IP_String (IPNet_IP ipn),
                                              rt_DstNetworkLength = int networkLength, rt_NextHopGateway = [],
                                              rt_NextHopPort = po_ID routerPort, rt_SrcNetworkAddr = ''0.0.0.0'',
                                              rt_SrcNetworkLength = 0, rt_Type = ''Normal'', rt_RouterID = routerID\<rparr> tr
                                      of ((err, _), tr) \<Rightarrow>
                                        case err of
                                          Some e \<Rightarrow> (Err e, undo [DeletePortLink E (po_ID routerPort),
                                                                 DeletePort E (po_ID routerPort),
                                                                 DeletePort E (po_ID bridgePort)] tr)
                                        | None \<Rightarrow> (Ok (), tr)))))))"

subsection \<open>\<open>initNetwork\<close>\<close>

text \<open>
  \<open>initNetwork\<close> in the stages of the code: the two chains, the router, the addresses of its
  link to the provider router, the link, its routes and rules, the first bridge, and the
  record of it all in etcd. Each stage undoes what the code undoes when it fails.
\<close>

definition create_chains :: "env \<Rightarrow> Tenant \<Rightarrow> history \<Rightarrow> (go_error + Chain \<times> Chain) \<times> history" where
  "create_chains E tenant tr =
     (case CreateUUID E tr of (in_id, tr) \<Rightarrow>
      case CreateUUID E tr of (out_id, tr) \<Rightarrow>
      case CreateChain E \<lparr>ch_ID = Some in_id, ch_Name = tn_Name tenant @ '' upstream_in'', ch_TenantID = tn_ID tenant\<rparr> tr
        of ((err, inChain), tr) \<Rightarrow>
        case err of
          Some e \<Rightarrow> (Inl e, tr)
        | None \<Rightarrow>
            (case CreateChain E \<lparr>ch_ID = Some out_id, ch_Name = tn_Name tenant @ '' upstream_out'', ch_TenantID = tn_ID tenant\<rparr> tr
               of ((err, outChain), tr) \<Rightarrow>
               case err of
                 Some e \<Rightarrow> (Inl e, undo [DeleteChain E (ch_ID inChain)] tr)
               | None \<Rightarrow> (Inr (inChain, outChain), tr)))"

definition create_router ::
    "env \<Rightarrow> Tenant \<Rightarrow> Chain \<Rightarrow> Chain \<Rightarrow> history \<Rightarrow> (go_error + Router) \<times> history" where
  "create_router E tenant inChain outChain tr =
     (case CreateRouter E \<lparr>ro_ID = None, ro_InboundFilterID = ch_ID inChain, ro_OutboundFilterID = ch_ID outChain,
                           ro_Name = tn_Name tenant @ '' default router'', ro_TenantID = tn_ID tenant\<rparr> tr
        of ((err, router), tr) \<Rightarrow>
        case err of
          Some e \<Rightarrow> (Inl e, undo [DeleteChain E (ch_ID inChain), DeleteChain E (ch_ID outChain)] tr)
        | None \<Rightarrow> (Inr router, tr))"

text \<open>The two addresses and the provider router: a failure here undoes nothing.\<close>

definition link_addresses :: "env \<Rightarrow> Manager \<Rightarrow> history \<Rightarrow> ((string \<times> string \<times> UUID) outcome \<times> history) option" where
  "link_addresses E m tr =
     (case CreateEtcdIpam E (mg_conf m) of
        Inl err \<Rightarrow> Some (Err err, tr)
      | Inr conf \<Rightarrow> do {
          (ips, tr) \<leftarrow> GetRouterIP E conf tr;
          (case ips of
             Err e \<Rightarrow> Some (Err e, tr)
           | Panic \<Rightarrow> Some (Panic, tr)
           | Ok ips \<Rightarrow>
               if length ips \<noteq> 2 then Some (Err (ErrorString ''IPs for tenant router port inadequate''), tr)
               else
                 (case String2UUID (mc_ProviderRouterID (op_MidoNetAPIConf (mg_conf m))) of
                    Inl err \<Rightarrow> Some (Err err, tr)
                  | Inr provider \<Rightarrow> Some (Ok (ips ! 0, ips ! 1, provider), tr)))
        })"

record Net =
  nw_in :: Chain
  nw_out :: Chain
  nw_router :: Router
  nw_remoteIP :: string
  nw_localIP :: string
  nw_remote :: RouterPort
  nw_local :: RouterPort

text \<open>The rollback of the stages after the link: the link, its ports, the chains, the router.\<close>

definition undo_chains :: "env \<Rightarrow> Chain \<Rightarrow> Chain \<Rightarrow> Router \<Rightarrow> (history \<Rightarrow> go_error option \<times> history) list" where
  "undo_chains E inChain outChain router =
     [DeleteChain E (ch_ID inChain), DeleteChain E (ch_ID outChain), DeleteRouter E (ro_ID router)]"

definition undo_net :: "env \<Rightarrow> Net \<Rightarrow> (history \<Rightarrow> go_error option \<times> history) list" where
  "undo_net E nw =
     [DeletePortLink E (po_ID (nw_local nw)), DeletePort E (po_ID (nw_remote nw)), DeletePort E (po_ID (nw_local nw))]
     @ undo_chains E (nw_in nw) (nw_out nw) (nw_router nw)"

definition create_link ::
    "env \<Rightarrow> Chain \<Rightarrow> Chain \<Rightarrow> Router \<Rightarrow> string \<Rightarrow> string \<Rightarrow> UUID \<Rightarrow> history \<Rightarrow> (go_error + Net) \<times> history" where
  "create_link E inChain outChain router ip0 ip1 provider tr =
     (case createRouterPort E ip0 (Some provider) tr of (remote, tr) \<Rightarrow>
        case remote of
          Inl e \<Rightarrow> (Inl e, undo (undo_chains E inChain outChain router) tr)
        | Inr remotePort \<Rightarrow>
            (case createRouterPort E ip1 (ro_ID router) tr of (local, tr) \<Rightarrow>
               case local of
                 Inl e \<Rightarrow> (Inl e, undo (undo_chains E inChain outChain router @ [DeletePort E (po_ID remotePort)]) tr)
               | Inr localPort \<Rightarrow>
                   (case CreatePortLink E \<lparr>pl_PortID = po_ID localPort, pl_PeerID = po_ID remotePort\<rparr> tr of (err, tr) \<Rightarrow>
                      case err of
                        Some e \<Rightarrow>
                          (Inl e, undo ([DeletePort E (po_ID remotePort), DeletePort E (po_ID localPort)]
                                        @ undo_chains E inChain outChain router) tr)
                      | None \<Rightarrow>
                          (Inr \<lparr>nw_in = inChain, nw_out = outChain, nw_router = router, nw_remoteIP = ip0,
                                nw_localIP = ip1, nw_remote = remotePort, nw_local = localPort\<rparr>, tr))))"

definition create_routes :: "env \<Rightarrow> Manager \<Rightarrow> Tenant \<Rightarrow> Net \<Rightarrow> UUID \<Rightarrow> history \<Rightarrow> go_error option \<times> history" where
  "create_routes E m tenant nw provider tr =
     (case CreateDefaultRoute E m (nw_local nw) (nw_remote nw) (ro_ID (nw_router nw)) (Some provider) (tn_ID tenant) tr
        of (err, tr) \<Rightarrow>
        case err of
          Some e \<Rightarrow> (Some e, undo (undo_net E nw) tr)
        | None \<Rightarrow>
            (case CreateDefaultRule E (nw_local nw) (nw_router nw) tr of (err, tr) \<Rightarrow>
               case err of
                 Some e \<Rightarrow> (Some e, undo (undo_net E nw) tr)
               | None \<Rightarrow> (None, tr)))"

definition first_bridge :: "env \<Rightarrow> Manager \<Rightarrow> Tenant \<Rightarrow> Net \<Rightarrow> history \<Rightarrow> (Bridge outcome \<times> history) option" where
  "first_bridge E m tenant nw tr =
     (case CreateUUID E tr of (u, tr) \<Rightarrow>
      case CreateBridge E \<lparr>br_Name = tn_Name tenant @ '' bridge0'', br_TenantID = tn_ID tenant, br_ID = Some u\<rparr> tr
        of ((err, bridge), tr) \<Rightarrow>
        case err of
          Some e \<Rightarrow> Some (Err e, undo (undo_net E nw) tr)
        | None \<Rightarrow> do {
            (res, tr) \<leftarrow> CreateIPsForTenantBridge E tenant (op_MidoNetBridgeCIDR (mg_conf m)) tr;
            (case res of
               Panic \<Rightarrow> Some (Panic, tr)
             | Err e \<Rightarrow> Some (Err e, undo (DeleteBridges E (br_ID bridge) # undo_net E nw) tr)
             | Ok _ \<Rightarrow>
                 (case CreateBridgeLinkRouter E (br_ID bridge) (ro_ID (nw_router nw)) (op_MidoNetBridgeCIDR (mg_conf m)) tr
                    of (res, tr) \<Rightarrow>
                    case res of
                      Panic \<Rightarrow> Some (Panic, tr)
                    | Err e \<Rightarrow> Some (Err e, undo (undo_net E nw) tr)
                    | Ok _ \<Rightarrow> Some (Ok bridge, tr)))
          })"

text \<open>The text of an identifier; \<open>String\<close> of a nil pointer panics.\<close>

definition id_text :: "UUID option \<Rightarrow> string outcome" where
  "id_text i = (case i of None \<Rightarrow> Panic | Some u \<Rightarrow> Ok (UUID_String u))"

definition save_network :: "env \<Rightarrow> Tenant \<Rightarrow> Net \<Rightarrow> Bridge \<Rightarrow> history \<Rightarrow> unit outcome \<times> history" where
  "save_network E tenant nw bridge tr =
     (let key = tenant_key (tn_ID tenant);
          router = nw_router nw;
          portlink = \<lparr>pl_PortID = po_ID (nw_local nw), pl_PeerID = po_ID (nw_remote nw)\<rparr>;
          tr = snd (Keys_Set E (key ''/router'') (show_json (Router_json router)) tr)
      in case id_text (ro_ID router) of
           Ok router_id \<Rightarrow>
             (let tr = snd (Keys_Set E (''/midonet-cni/pod/router/'' @ router_id)
                              (nw_localIP nw @ '':'' @ nw_remoteIP nw) tr);
                  tr = snd (Keys_Set E (key ''/router-link'') (show_json (PortLink_json portlink)) tr)
              in case id_text (br_ID bridge) of
                   Ok bridge_id \<Rightarrow>
                     (let tr = snd (Keys_Set E (key (''/bridge/'' @ bridge_id)) (show_json (Bridge_json bridge)) tr)
                      in case Keys_Set E (key ''/bridge/usage'') bridge_id tr of (res, tr) \<Rightarrow>
                           case res of
                             Inl err \<Rightarrow> (Err err, undo (undo_net E nw) tr)
                           | Inr _ \<Rightarrow> (Ok (), tr))
                 | _ \<Rightarrow> (Panic, tr))
         | _ \<Rightarrow> (Panic, tr))"

text \<open>The composition: from the link on, from the addresses on, and all of it.\<close>

definition finish_network :: "env \<Rightarrow> Manager \<Rightarrow> Tenant \<Rightarrow> Net \<Rightarrow> UUID \<Rightarrow> history \<Rightarrow> (unit outcome \<times> history) option" where
  "finish_network E m tenant nw provider tr =
     (case create_routes E m tenant nw provider tr of (err, tr) \<Rightarrow>
        case err of
          Some e \<Rightarrow> Some (Err e, tr)
        | None \<Rightarrow> do {
            (bridge, tr) \<leftarrow> first_bridge E m tenant nw tr;
            (case bridge of
               Err e \<Rightarrow> Some (Err e, tr)
             | Panic \<Rightarrow> Some (Panic, tr)
             | Ok bridge \<Rightarrow> Some (save_network E tenant nw bridge tr))
          })"

definition connect_router ::
    "env \<Rightarrow> Manager \<Rightarrow> Tenant \<Rightarrow> Chain \<Rightarrow> Chain \<Rightarrow> Router \<Rightarrow> history \<Rightarrow> (unit outcome \<times> history) option" where
  "connect_router E m tenant inChain outChain router tr = do {
     (addr, tr) \<leftarrow> link_addresses E m tr;
     (case addr of
        Err e \<Rightarrow> Some (Err e, tr)
      | Panic \<Rightarrow> Some (Panic, tr)
      | Ok (ip0, ip1, provider) \<Rightarrow>
          (case create_link E inChain outChain router ip0 ip1 provider tr of (link, tr) \<Rightarrow>
             case link of
               Inl e \<Rightarrow> Some (Err e, tr)
             | Inr nw \<Rightarrow> finish_network E m tenant nw provider tr))
   }"

definition initNetwork :: "env \<Rightarrow> Manager \<Rightarrow> Tenant \<Rightarrow> history \<Rightarrow> (unit outcome \<times> history) option" where
  "initNetwork E m tenant tr =
     (case create_chains E tenant tr of (pair, tr) \<Rightarrow>
        case pair of
          Inl e \<Rightarrow> Some (Err e, tr)
        | Inr (inChain, outChain) \<Rightarrow>
            (case create_router E tenant inChain outChain tr of (router, tr) \<Rightarrow>
               case router of
                 Inl e \<Rightarrow> Some (Err e, tr)
               | Inr router \<Rightarrow> connect_router E m tenant inChain outChain router tr))"

subsection \<open>Tenants\<close>

lemma with_lock_mono [partial_function_mono]:
  assumes "\<And>t. mono_option (\<lambda>f. B f t)"
  shows "mono_option (\<lambda>f. with_lock E key nf lf (B f) tr)"
proof (cases "Mutex_New E key 20 tr")
  case (Some m)
  have "mono_option (\<lambda>f. Option.bind (Lock E m tr) (\<lambda>x.
      if fst (fst x) \<noteq> None then Some (Err (ErrorString lf), snd x)
      else Option.bind (B f (snd x)) (\<lambda>y. Option.bind (Unlock E (snd (fst x)) (snd y)) (\<lambda>z. Some (fst y, snd z)))))"
    by (intro partial_function_mono assms)
  then show ?thesis unfolding with_lock_def Some option.case case_prod_unfold .
qed (simp add: with_lock_def option.const_mono)

definition create_lock :: "string \<Rightarrow> string" where
  "create_lock tenantID = tenant_key tenantID ''/create''"

text \<open>
  The body of \<open>InitTenant\<close>, run with the mutex held; \<open>retry\<close> is the call of \<open>InitTenant\<close> in
  it, made when storing the tenant says that the key exists.
\<close>

definition init_body ::
    "env \<Rightarrow> Manager \<Rightarrow> Tenant \<Rightarrow> (history \<Rightarrow> (unit outcome \<times> history) option) \<Rightarrow> history
     \<Rightarrow> (unit outcome \<times> history) option" where
  "init_body E m tenant retry tr =
     (case Keys_Get E (tenant_key (tn_ID tenant) ''/info'') False tr of (res, tr) \<Rightarrow>
        case res of
          Inr _ \<Rightarrow> Some (Ok (), tr)
        | Inl err \<Rightarrow>
            if client_error_code err \<noteq> Some ErrorCodeKeyNotFound
            then Some (Err (the (HandleError (Some err))), tr)
            else do {
              (net, tr) \<leftarrow> initNetwork E m tenant tr;
              (case net of
                 Err e \<Rightarrow> Some (Err e, tr)
               | Panic \<Rightarrow> Some (Panic, tr)
               | Ok _ \<Rightarrow>
                   (case Keys_Set E (tenant_key (tn_ID tenant) ''/info'') (show_json (Tenant_json tenant)) tr of (res, tr) \<Rightarrow>
                      case res of
                        Inr _ \<Rightarrow> Some (Ok (), tr)
                      | Inl err \<Rightarrow>
                          (case client_error_code err of
                             None \<Rightarrow> Some (Err (the (HandleError (Some err))), tr)
                           | Some code \<Rightarrow> if code = ErrorCodeNodeExist then retry tr else Some (Err err, tr))))
            })"

lemma init_body_mono [partial_function_mono]:
  assumes "\<And>t. mono_option (\<lambda>f. R f t)"
  shows "mono_option (\<lambda>f. init_body E m tenant (R f) tr)"
proof (rule monotoneI)
  fix f g :: "'a \<Rightarrow> 'b option"
  assume "option.le_fun f g"
  with assms have R: "R f t = None" if "R f t \<noteq> R g t" for t
    using that by (auto simp: monotone_def flat_ord_def)
  show "option_ord (init_body E m tenant (R f) tr) (init_body E m tenant (R g) tr)"
    by (cases "initNetwork E m tenant (snd (Keys_Get E (tenant_key (tn_ID tenant) ''/info'') False tr))")
      (auto simp: init_body_def flat_ord_def etcd_call_eq split: prod.split sum.split option.split outcome.split,
        metis R)
qed

text \<open>
  \<open>InitTenant\<close>: the inner call asks for the mutex that the outer one still holds.
\<close>

partial_function (option) InitTenant :: "env \<Rightarrow> Manager \<Rightarrow> Tenant \<Rightarrow> history \<Rightarrow> (unit outcome \<times> history) option" where
  "InitTenant E m tenant tr =
     (if tn_ID tenant = [] then Some (Err (ErrorString ''tenant id can not be empty where midonet init tenant''), tr)
      else
        with_lock E (create_lock (tn_ID tenant)) ''etcdsync.NewMutex failed when init tenant''
          ''etcdsync.Lock failed when init tenant''
          (\<lambda>tr. init_body E m tenant (\<lambda>tr. InitTenant E m tenant tr) tr) tr)"

declare InitTenant.simps [code]

definition GetTenant :: "env \<Rightarrow> Manager \<Rightarrow> string \<Rightarrow> history \<Rightarrow> (Tenant outcome \<times> history) option" where
  "GetTenant E m tenantID tr =
     (case Keys_Get E (tenant_key tenantID ''/info'') False tr of (res, tr) \<Rightarrow>
        case res of
          Inl err \<Rightarrow>
            (case client_error_code err of
               None \<Rightarrow> Some (Err err, tr)
             | Some code \<Rightarrow>
                 if code = ErrorCodeKeyNotFound then
                   (let tenant = \<lparr>tn_Name = tenantID, tn_Enabled = True, tn_ID = tenantID, tn_Description = []\<rparr>
                    in do {
                         (r, tr) \<leftarrow> InitTenant E m tenant tr;
                         Some (case r of Ok _ \<Rightarrow> Ok tenant | Err e \<Rightarrow> Err e | Panic \<Rightarrow> Panic, tr)
                       })
                 else Some (Panic, tr))
        | Inr res \<Rightarrow>
            (case re_Node res of
               None \<Rightarrow> Some (Panic, tr)
             | Some n \<Rightarrow>
                 (case Unmarshal Tenant_fields Tenant_zero (node_Value n) of
                    None \<Rightarrow> Some (Err (OtherError ''invalid tenant''), tr)
                  | Some tenant \<Rightarrow> Some (Ok tenant, tr))))"

subsection \<open>Bindings and bridges\<close>

definition binding_key :: "string \<Rightarrow> string \<Rightarrow> string" where
  "binding_key tenantID containerID = ''/midonet-cni/bingding/'' @ tenantID @ ''/'' @ containerID"

definition Bingding :: "env \<Rightarrow> Manager \<Rightarrow> string \<Rightarrow> string \<Rightarrow> string \<Rightarrow> history \<Rightarrow> unit outcome \<times> history" where
  "Bingding E m ifName tenantID containerID tr =
     (case Keys_Get E (binding_key tenantID containerID) False tr of (res, tr) \<Rightarrow>
        case res of
          Inr _ \<Rightarrow> (Ok (), tr)
        | Inl _ \<Rightarrow>
            (case Keys_Get E (tenant_key tenantID ''/bridge/usage'') False tr of (res, tr) \<Rightarrow>
               case res of
                 Inl err \<Rightarrow> (Err err, tr)
               | Inr res \<Rightarrow>
                   (case re_Node res of
                      None \<Rightarrow> (Panic, tr)
                    | Some n \<Rightarrow>
                        (case String2UUID (node_Value n) of
                           Inl err \<Rightarrow> (Err err, tr)
                         | Inr bridgeID \<Rightarrow>
                             (case String2UUID (op_MidoNetHostUUID (mg_conf m)) of
                                Inl err \<Rightarrow> (Err err, tr)
                              | Inr hostID \<Rightarrow>
                                  (case CreateBridgePort E \<lparr>po_ID = None, po_Type = [], po_DeviceID = Some bridgeID,
                                          po_PeerID = None, bp_VlanID = None\<rparr> tr of ((err, port), tr) \<Rightarrow>
                                     case err of
                                       Some e \<Rightarrow> (Err e, tr)
                                     | None \<Rightarrow>
                                         (let hostport = \<lparr>hp_HostID = Some hostID, hp_InterfaceName = ifName, hp_PortID = po_ID port\<rparr>
                                          in case BindingInterface E hostport tr of (err, tr) \<Rightarrow>
                                               case err of
                                                 Some e \<Rightarrow> (Err e, tr)
                                               | None \<Rightarrow>
                                                   (case Keys_Set E (binding_key tenantID containerID)
                                                           (show_json (HostInterfacePort_json hostport)) tr of (res, tr) \<Rightarrow>
                                                      case res of
                                                        Inl err \<Rightarrow> (Err err, snd (DeleteBinding E hostport tr))
                                                      | Inr _ \<Rightarrow> (Ok (), tr)))))))))"

definition bridge_lock :: "string \<Rightarrow> string" where
  "bridge_lock tenantID = tenant_key tenantID ''/bridge/create''"

text \<open>The text of a key, for the code that reads \<open>res.Node.Value\<close>.\<close>

definition key_value :: "env \<Rightarrow> string \<Rightarrow> history \<Rightarrow> string outcome \<times> history" where
  "key_value E key tr =
     (case Keys_Get E key False tr of (res, tr) \<Rightarrow>
        case res of
          Inl err \<Rightarrow> (Err err, tr)
        | Inr res \<Rightarrow> (case re_Node res of None \<Rightarrow> (Panic, tr) | Some n \<Rightarrow> (Ok (node_Value n), tr)))"

text \<open>The network after the pool's, whose addresses are put into the pool.\<close>

definition next_pool :: "env \<Rightarrow> Manager \<Rightarrow> Tenant \<Rightarrow> history \<Rightarrow> (string outcome \<times> history) option" where
  "next_pool E m tenant tr =
     (case key_value E (pod_available (tn_ID tenant) @ ''/iprange'') tr of (old, tr) \<Rightarrow>
        case (case old of Ok s \<Rightarrow> GetNextCIDR s | _ \<Rightarrow> old) of
          Err e \<Rightarrow> Some (Err e, tr)
        | Panic \<Rightarrow> Some (Panic, tr)
        | Ok new \<Rightarrow>
            (case CreateEtcdIpam E (mg_conf m) of
               Inl err \<Rightarrow> Some (Err err, tr)
             | Inr _ \<Rightarrow> do {
                 (res, tr) \<leftarrow> CreateIPsForTenantBridge E tenant new tr;
                 Some (case res of Err e \<Rightarrow> Err e | Panic \<Rightarrow> Panic | Ok _ \<Rightarrow> Ok new, tr)
               }))"

definition stored_router :: "env \<Rightarrow> Tenant \<Rightarrow> history \<Rightarrow> Router outcome \<times> history" where
  "stored_router E tenant tr =
     (case key_value E (tenant_key (tn_ID tenant) ''/router'') tr of (val, tr) \<Rightarrow>
        case val of
          Err e \<Rightarrow> (Err e, tr)
        | Panic \<Rightarrow> (Panic, tr)
        | Ok val \<Rightarrow>
            (case Unmarshal Router_fields Router_zero val of
               None \<Rightarrow> (Err (OtherError ''invalid router''), tr)
             | Some router \<Rightarrow> (Ok router, tr)))"

text \<open>The new bridge, on that network: nothing of it is undone when a step fails.\<close>

definition next_bridge :: "env \<Rightarrow> Manager \<Rightarrow> Tenant \<Rightarrow> history \<Rightarrow> (unit outcome \<times> history) option" where
  "next_bridge E m tenant tr =
     (case CreateUUID E tr of (u, tr) \<Rightarrow>
      case CreateBridge E \<lparr>br_Name = tn_Name tenant @ '' bridge-'' @ UUID_String u, br_TenantID = tn_ID tenant,
                           br_ID = Some u\<rparr> tr of ((err, newBridge), tr) \<Rightarrow>
        case err of
          Some e \<Rightarrow> Some (Err e, tr)
        | None \<Rightarrow> do {
            (pool, tr) \<leftarrow> next_pool E m tenant tr;
            (case pool of
               Err e \<Rightarrow> Some (Err e, tr)
             | Panic \<Rightarrow> Some (Panic, tr)
             | Ok new \<Rightarrow>
                 (case stored_router E tenant tr of (router, tr) \<Rightarrow>
                    case router of
                      Err e \<Rightarrow> Some (Err e, tr)
                    | Panic \<Rightarrow> Some (Panic, tr)
                    | Ok router \<Rightarrow>
                        (case CreateBridgeLinkRouter E (br_ID newBridge) (ro_ID router) new tr of (res, tr) \<Rightarrow>
                           case res of
                             Err e \<Rightarrow> Some (Err e, tr)
                           | Panic \<Rightarrow> Some (Panic, tr)
                           | Ok _ \<Rightarrow>
                               (case Keys_Set E (tenant_key (tn_ID tenant) ''/bridge/usage'') (UUID_String u) tr
                                  of (res, tr) \<Rightarrow>
                                  Some (case res of Inl err \<Rightarrow> Err err | Inr _ \<Rightarrow> Ok (), tr)))))
          })"

definition CreateNewBridge :: "env \<Rightarrow> Manager \<Rightarrow> Tenant \<Rightarrow> history \<Rightarrow> (unit outcome \<times> history) option" where
  "CreateNewBridge E m tenant tr =
     with_lock E (bridge_lock (tn_ID tenant)) ''etcdsync.NewMutex failed where create new bridge''
       ''etcdsync.Lock failed where create new bridge''
       (\<lambda>tr. case Keys_Get E (pod_available (tn_ID tenant)) True tr of (res, tr) \<Rightarrow>
          case res of
            Inl err \<Rightarrow> Some (Err (case err of EtcdError _ msg \<Rightarrow> ErrorString msg | _ \<Rightarrow> err), tr)
          | Inr res \<Rightarrow>
              (case re_Node res of
                 None \<Rightarrow> Some (Err (ErrorString ''Initialize the filling the bridge available IP pool because available node''), tr)
               | Some node \<Rightarrow>
                   if \<not> node_Dir node then
                     Some (Err (ErrorString ''Initialize the filling the bridge available IP pool because available node''), tr)
                   else if length (node_Nodes node) < 2 then next_bridge E m tenant tr
                   else Some (Ok (), tr)))
       tr"

subsection \<open>\<open>DeleteTenant\<close>\<close>

text \<open>The route to the tenant in the provider router; errors are passed over.\<close>

definition delete_provider_route :: "env \<Rightarrow> Manager \<Rightarrow> string \<Rightarrow> history \<Rightarrow> unit outcome \<times> history" where
  "delete_provider_route E m tenantID tr =
     (case String2UUID (mc_ProviderRouterID (op_MidoNetAPIConf (mg_conf m))) of
        Inl _ \<Rightarrow> (Ok (), tr)
      | Inr provider \<Rightarrow>
          (case key_value E (''/midonet/tenant/'' @ tenantID @ ''/provider_router_route'') tr of (val, tr) \<Rightarrow>
             case val of
               Err _ \<Rightarrow> (Ok (), tr)
             | Panic \<Rightarrow> (Panic, tr)
             | Ok val \<Rightarrow>
                 (case String2UUID val of
                    Inl _ \<Rightarrow> (Ok (), tr)
                  | Inr route \<Rightarrow> (Ok (), snd (DeleteRoute E (mg_client m) (Some provider) (Some route) tr)))))"

definition tenant_dirs :: "string \<Rightarrow> string list" where
  "tenant_dirs tenantID =
     [''/midonet-cni/tenant/'' @ tenantID, ''/midonet-cni/ip/pod/'' @ tenantID,
      ''/midonet-cni/bingding/'' @ tenantID, ''/midonet-cni/result/'' @ tenantID]"

definition delete_dirs :: "env \<Rightarrow> string list \<Rightarrow> history \<Rightarrow> history" where
  "delete_dirs E dirs tr = fold (\<lambda>d tr. snd (etcd_call E (KeysDelete d True True) tr)) dirs tr"

definition DeleteTenant :: "env \<Rightarrow> Manager \<Rightarrow> string \<Rightarrow> history \<Rightarrow> (unit outcome \<times> history) option" where
  "DeleteTenant E m tenantID tr =
     (if tenantID = [] then Some (Err (ErrorString ''tenant id can not be empty where midonet delete tenant''), tr)
      else
        with_lock E (create_lock tenantID) ''etcdsync.NewMutex failed when delete tenant''
          ''etcdsync.Lock failed where delete tenant''
          (\<lambda>tr. case GetRouterIPsByTenant E tenantID tr of (ips, tr) \<Rightarrow>
             case ips of
               Err e \<Rightarrow> Some (Err e, tr)
             | Panic \<Rightarrow> Some (Panic, tr)
             | Ok ips \<Rightarrow>
                 (case delete_provider_route E m tenantID tr of (res, tr) \<Rightarrow>
                    case res of
                      Err e \<Rightarrow> Some (Err e, tr)
                    | Panic \<Rightarrow> Some (Panic, tr)
                    | Ok _ \<Rightarrow>
                        (let tr = delete_dirs E (tenant_dirs tenantID) tr
                         in case CreateEtcdIpam E (mg_conf m) of
                              Inl _ \<Rightarrow> Some (Ok (), tr)
                            | Inr _ \<Rightarrow> do {
                                (res, tr) \<leftarrow> ReleaseRouterIP E ips tr;
                                Some (case res of Panic \<Rightarrow> Panic | _ \<Rightarrow> Ok (), tr)
                              })))
          tr)"

end
