(* ===== verification/Args.thy ===== *)
theory Args
  imports Records
begin

text \<open>
  The arguments Kubernetes passes in \<open>CNI_ARGS\<close>: \<open>K8sArgs\<close> and the repository's \<open>LoadArgs\<close>
  (\<open>pkg/types/types.go\<close>), and the \<open>LoadArgs\<close> of the vendored CNI library, which is the one the
  commands call. The fields are found by their Go names through reflection. The texts of the
  errors leave out what \<open>%q\<close> prints.
\<close>

record K8sArgs =
  ka_IgnoreUnknown :: bool
  ka_IP :: IP
  ka_POD_NAME :: string
  ka_POD_NAMESPACE :: string
  ka_POD_INFRA_CONTAINER_ID :: string

definition K8sArgs_zero :: K8sArgs where
  "K8sArgs_zero = \<lparr>ka_IgnoreUnknown = False, ka_IP = [], ka_POD_NAME = [], ka_POD_NAMESPACE = [],
     ka_POD_INFRA_CONTAINER_ID = []\<rparr>"

text \<open>
  The fields \<open>FieldByName\<close> finds: the five fields, one of them promoted from the embedded
  struct \<open>CommonArgs\<close>, and that struct itself.
\<close>

datatype arg_field =
    Arg_CommonArgs
  | Arg_IgnoreUnknown
  | Arg_IP
  | Arg_POD_NAME
  | Arg_POD_NAMESPACE
  | Arg_POD_INFRA_CONTAINER_ID

definition GetKeyField :: "string \<Rightarrow> arg_field option" where
  "GetKeyField = map_of
     [(''CommonArgs'', Arg_CommonArgs), (''IgnoreUnknown'', Arg_IgnoreUnknown), (''IP'', Arg_IP),
      (''K8S_POD_NAME'', Arg_POD_NAME), (''K8S_POD_NAMESPACE'', Arg_POD_NAMESPACE),
      (''K8S_POD_INFRA_CONTAINER_ID'', Arg_POD_INFRA_CONTAINER_ID)]"

text \<open>\<open>UnmarshallableBool.UnmarshalText\<close> and \<open>net.IP.UnmarshalText\<close>.\<close>

definition bool_UnmarshalText :: "string \<Rightarrow> go_error + bool" where
  "bool_UnmarshalText data =
     (let s = List.map lower data
      in if s = ''1'' \<or> s = ''true'' then Inr True
         else if s = ''0'' \<or> s = ''false'' then Inr False
         else Inl (ErrorString (''Boolean unmarshal error: invalid input '' @ s)))"

definition IP_UnmarshalText :: "string \<Rightarrow> go_error + IP" where
  "IP_UnmarshalText s =
     (if s = [] then Inr []
      else if ParseIP s = [] then Inl (OtherError ''invalid IP address'') else Inr (ParseIP s))"

text \<open>
  Setting a field from its text; \<open>None\<close> when the type of the field is no
  \<open>encoding.TextUnmarshaler\<close>, which holds for the embedded struct only.
\<close>

fun UnmarshalText :: "arg_field \<Rightarrow> string \<Rightarrow> K8sArgs \<Rightarrow> (go_error + K8sArgs) option" where
  "UnmarshalText Arg_CommonArgs s a = None"
| "UnmarshalText Arg_IgnoreUnknown s a =
     Some (case bool_UnmarshalText s of Inl e \<Rightarrow> Inl e | Inr b \<Rightarrow> Inr (a\<lparr>ka_IgnoreUnknown := b\<rparr>))"
| "UnmarshalText Arg_IP s a = Some (case IP_UnmarshalText s of Inl e \<Rightarrow> Inl e | Inr ip \<Rightarrow> Inr (a\<lparr>ka_IP := ip\<rparr>))"
| "UnmarshalText Arg_POD_NAME s a = Some (Inr (a\<lparr>ka_POD_NAME := s\<rparr>))"
| "UnmarshalText Arg_POD_NAMESPACE s a = Some (Inr (a\<lparr>ka_POD_NAMESPACE := s\<rparr>))"
| "UnmarshalText Arg_POD_INFRA_CONTAINER_ID s a = Some (Inr (a\<lparr>ka_POD_INFRA_CONTAINER_ID := s\<rparr>))"

subsection \<open>The CNI library's \<open>LoadArgs\<close>\<close>

definition not_text :: go_error where
  "not_text = OtherError ''ARGS: cannot unmarshal into field''"

fun cni_load_pairs :: "string list \<Rightarrow> string list \<Rightarrow> K8sArgs \<Rightarrow> (K8sArgs \<times> string list) outcome" where
  "cni_load_pairs [] unknown a = Ok (a, unknown)"
| "cni_load_pairs (pair # pairs) unknown a =
     (case go_split pair (CHR ''='') of
        [key, val] \<Rightarrow>
          (case GetKeyField key of
             None \<Rightarrow> cni_load_pairs pairs (unknown @ [pair]) a
           | Some f \<Rightarrow>
               (case UnmarshalText f val a of
                  None \<Rightarrow> Err not_text
                | Some (Inl err) \<Rightarrow> Err (OtherError ''ARGS: error parsing value of pair'')
                | Some (Inr a) \<Rightarrow> cni_load_pairs pairs unknown a))
      | _ \<Rightarrow> Err (OtherError ''ARGS: invalid pair''))"

definition cni_LoadArgs :: "string \<Rightarrow> K8sArgs \<Rightarrow> K8sArgs outcome" where
  "cni_LoadArgs args a =
     (if args = [] then Ok a
      else
        (case cni_load_pairs (go_split args (CHR '';'')) [] a of
           Err e \<Rightarrow> Err e
         | Panic \<Rightarrow> Panic
         | Ok (a, unknown) \<Rightarrow>
             if unknown \<noteq> [] \<and> \<not> ka_IgnoreUnknown a then Err (OtherError ''ARGS: unknown args'') else Ok a))"

subsection \<open>The repository's \<open>LoadArgs\<close>\<close>

text \<open>Here the conversion to \<open>TextUnmarshaler\<close> is not checked: it panics.\<close>

fun load_pairs :: "string list \<Rightarrow> string list \<Rightarrow> K8sArgs \<Rightarrow> (K8sArgs \<times> string list) outcome" where
  "load_pairs [] unknown a = Ok (a, unknown)"
| "load_pairs (pair # pairs) unknown a =
     (case go_split pair (CHR ''='') of
        [key, val] \<Rightarrow>
          (case GetKeyField key of
             None \<Rightarrow> load_pairs pairs (unknown @ [pair]) a
           | Some f \<Rightarrow>
               (case UnmarshalText f val a of
                  None \<Rightarrow> Panic
                | Some (Inl err) \<Rightarrow> Err (OtherError ''ARGS: error parsing value of pair'')
                | Some (Inr a) \<Rightarrow> load_pairs pairs unknown a))
      | _ \<Rightarrow> Err (OtherError ''ARGS: invalid pair''))"

definition LoadArgs :: "string \<Rightarrow> K8sArgs \<Rightarrow> K8sArgs outcome" where
  "LoadArgs args a =
     (if args = [] then Ok a
      else
        (case load_pairs (go_split args (CHR '';'')) [] a of
           Err e \<Rightarrow> Err e
         | Panic \<Rightarrow> Panic
         | Ok (a, unknown) \<Rightarrow>
             if unknown \<noteq> [] \<and> \<not> ka_IgnoreUnknown a then Err (OtherError ''ARGS: unknown args'') else Ok a))"

subsection \<open>The two agree\<close>

lemma load_pairs_eq:
  "load_pairs ps un a = (case cni_load_pairs ps un a of Err e \<Rightarrow> if e = not_text then Panic else Err e | r \<Rightarrow> r)"
  by (induction ps un a rule: load_pairs.induct) (auto simp: not_text_def split: list.splits option.splits sum.splits)

text \<open>
  C40: the \<open>LoadArgs\<close> of the repository and the one of the CNI library that the commands call
  agree on every text: same arguments loaded, same errors, except where the library reports a
  key that names no text field (\<open>CommonArgs\<close>, the embedded struct): there the repository's
  panics.
\<close>

theorem LoadArgs_agrees:
  "LoadArgs args a = (case cni_LoadArgs args a of Err e \<Rightarrow> if e = not_text then Panic else Err e | r \<Rightarrow> r)"
  by (simp add: LoadArgs_def cni_LoadArgs_def load_pairs_eq not_text_def split: outcome.split)

lemma LoadArgs_sample:
  "cni_LoadArgs ''IgnoreUnknown=1;X=2;K8S_POD_NAMESPACE=t1;K8S_POD_INFRA_CONTAINER_ID=c1'' K8sArgs_zero =
     Ok (K8sArgs_zero\<lparr>ka_IgnoreUnknown := True, ka_POD_NAMESPACE := ''t1'', ka_POD_INFRA_CONTAINER_ID := ''c1''\<rparr>)"
  "cni_LoadArgs ''CommonArgs=1'' K8sArgs_zero = Err not_text" "LoadArgs ''CommonArgs=1'' K8sArgs_zero = Panic"
  by code_simp+

end
