(* ===== verification/Veth.thy ===== *)
theory Veth
  imports Config
begin

text \<open>
  \<open>pkg/vethctrl\<close>: setting up the pair of network devices of a container. The interface
  \<open>VethCtrl\<close> of the code has two implementations, \<open>ShellCtrl\<close> (\<open>shell.go\<close>), which runs a
  program, and \<open>InnerVethCtrl\<close> (\<open>vethctrl.go\<close>), which calls the kernel. What they ask of the
  host, and its answers, are in the history. In messages, \<open>%q\<close> is written as quotes around the
  name, which it is for names without special characters.
\<close>

record CmdArgs =
  ca_ContainerID :: string
  ca_Netns :: string
  ca_IfName :: string
  ca_Args :: string
  ca_Path :: string
  ca_StdinData :: string

text \<open>A request to the host of which only the error is looked at.\<close>

definition host_do :: "env \<Rightarrow> host_req \<Rightarrow> history \<Rightarrow> go_error option \<times> history" where
  "host_do E q tr = (case host_call E q tr of (a, tr) \<Rightarrow> ((case a of Inl e \<Rightarrow> Some e | Inr _ \<Rightarrow> None), tr))"

text \<open>
  Requests made one after the other up to the first that fails: the shape of the code's
  \<open>if err = op(); err != nil { return ... }\<close>. A request carries the text \<open>fmt.Errorf\<close> puts
  before the error, if any.
\<close>

definition wrap :: "string \<Rightarrow> go_error \<Rightarrow> go_error" where
  "wrap msg e = (if msg = [] then e else ErrorString (msg @ error_text e))"

fun host_steps :: "env \<Rightarrow> (string \<times> host_req) list \<Rightarrow> history \<Rightarrow> go_error option \<times> history" where
  "host_steps E [] tr = (None, tr)"
| "host_steps E ((msg, q) # qs) tr =
     (case host_do E q tr of (err, tr) \<Rightarrow>
        case err of Some e \<Rightarrow> (Some (wrap msg e), tr) | None \<Rightarrow> host_steps E qs tr)"

subsection \<open>\<open>ShellCtrl\<close>\<close>

text \<open>A command is run again once when it fails.\<close>

definition exec_twice :: "env \<Rightarrow> string \<Rightarrow> history \<Rightarrow> go_error option \<times> history" where
  "exec_twice E cmd tr =
     (case host_do E (Exec cmd) tr of (err, tr) \<Rightarrow>
        case err of None \<Rightarrow> (None, tr) | Some _ \<Rightarrow> host_do E (Exec cmd) tr)"

definition ExecCreateBr :: "env \<Rightarrow> string \<Rightarrow> history \<Rightarrow> go_error option \<times> history" where
  "ExecCreateBr E containerID tr = exec_twice E (''/usr/bin/vethctl create '' @ containerID) tr"

definition ExecBindingIP :: "env \<Rightarrow> string \<Rightarrow> string \<Rightarrow> history \<Rightarrow> go_error option \<times> history" where
  "ExecBindingIP E ip containerID tr =
     exec_twice E (''/usr/bin/vethctl setnetns '' @ ip @ '' '' @ containerID) tr"

definition shell_DoNetworking :: "env \<Rightarrow> CmdArgs \<Rightarrow> Options \<Rightarrow> Result \<Rightarrow> history \<Rightarrow> unit outcome \<times> history" where
  "shell_DoNetworking E args conf r tr =
     (case ExecCreateBr E (ca_ContainerID args) tr of (err, tr) \<Rightarrow>
        case err of
          Some e \<Rightarrow> (Err e, tr)
        | None \<Rightarrow>
            (case cr_IP4 r of
               None \<Rightarrow> (Panic, tr)
             | Some ip4 \<Rightarrow>
                 (case ExecBindingIP E (IPNet_String (ic_IP ip4) @ ''@'' @ IP_String (ic_Gateway ip4)) (ca_ContainerID args) tr
                    of (err, tr) \<Rightarrow> (case err of Some e \<Rightarrow> Err e | None \<Rightarrow> Ok (), tr))))"

subsection \<open>\<open>InnerVethCtrl\<close>\<close>

text \<open>The name of the host's end: the first twelve characters of the container's identifier.\<close>

definition hostVethName :: "CmdArgs \<Rightarrow> string" where
  "hostVethName args = ''vif'' @ take 12 (ca_ContainerID args)"

definition netns_link :: "CmdArgs \<Rightarrow> string" where
  "netns_link args = ''/var/run/netns/'' @ take 12 (ca_ContainerID args)"

text \<open>A link to the namespace for debugging; its errors are only logged.\<close>

definition link_netns :: "env \<Rightarrow> CmdArgs \<Rightarrow> history \<Rightarrow> history" where
  "link_netns E args tr =
     (case host_do E (Stat ''/var/run/netns/'') tr of (err, tr) \<Rightarrow>
      let tr = (case err of
                  Some e \<Rightarrow> if IsNotExist e then snd (host_do E (MkdirAll ''/var/run/netns/'') tr) else tr
                | None \<Rightarrow> tr)
      in snd (host_do E (Symlink (ca_Netns args) (netns_link args)) tr))"

text \<open>A device \<open>eth0\<close> that is there already is renamed.\<close>

definition move_eth0 :: "env \<Rightarrow> history \<Rightarrow> go_error option \<times> history" where
  "move_eth0 E tr =
     (case host_do E (LinkByName ''eth0'') tr of (err, tr) \<Rightarrow>
        case err of
          Some _ \<Rightarrow> (None, tr)
        | None \<Rightarrow>
            host_steps E [([], LinkSetDown ''eth0''), ([], LinkSetName ''eth0'' ''eth1''), ([], LinkByName ''eth1''),
              ([], LinkSetUp ''eth1'')] tr)"

definition create_veth :: "env \<Rightarrow> CmdArgs \<Rightarrow> Options \<Rightarrow> history \<Rightarrow> go_error option \<times> history" where
  "create_veth E args conf tr =
     (let host = hostVethName args
      in host_steps E
           [([], LinkAddVeth ''eth0'' host (op_MTU conf)),
            (''failed to lookup '' @ [CHR 0x22] @ host @ [CHR 0x22] @ '': '', LinkByName host),
            (''failed to set '' @ [CHR 0x22] @ host @ [CHR 0x22] @ '' up: '', LinkSetUp host),
            (''failed to lookup '' @ [CHR 0x22] @ ''eth0'' @ [CHR 0x22] @ '': '', LinkByName ''eth0'')] tr)"

text \<open>
  The configured routes. A nil route panics, and so does a netmask that is no address: its
  bytes are taken out of what \<open>net.ParseIP\<close> gives for it.
\<close>

definition route_add :: "RouteConf \<Rightarrow> host_req" where
  "route_add r =
     (let mask = ParseIP (rc_NetMask r)
      in RouteAdd \<lparr>IPNet_IP = ParseIP (rc_Net r), IPNet_Mask = [mask ! 12, mask ! 13, mask ! 14, mask ! 15]\<rparr>
           (ParseIP (rc_GW r)))"

fun add_routes :: "env \<Rightarrow> RouteConf option list \<Rightarrow> history \<Rightarrow> unit outcome \<times> history" where
  "add_routes E [] tr = (Ok (), tr)"
| "add_routes E (None # rs) tr = (Panic, tr)"
| "add_routes E (Some r # rs) tr =
     (if length (ParseIP (rc_NetMask r)) < 16 then (Panic, tr)
      else
        (case host_do E (route_add r) tr of (err, tr) \<Rightarrow>
           case err of
             Some e \<Rightarrow> (Err (ErrorString (''failed to add route '' @ error_text e)), tr)
           | None \<Rightarrow> add_routes E rs tr))"

definition default_net :: IPNet where
  "default_net = \<lparr>IPNet_IP = [0, 0, 0, 0], IPNet_Mask = [0, 0, 0, 0]\<rparr>"

text \<open>The container's address and routes; that the default route cannot be deleted is only logged.\<close>

definition config_eth0 :: "env \<Rightarrow> Options \<Rightarrow> IPConfig \<Rightarrow> history \<Rightarrow> unit outcome \<times> history" where
  "config_eth0 E conf ip4 tr =
     (case host_steps E [(''failed to add IP addr to '' @ [CHR 0x22] @ ''eth0'' @ [CHR 0x22] @ '': '',
                          AddrAdd ''eth0'' (ic_IP ip4))] tr of (err, tr) \<Rightarrow>
        case err of
          Some e \<Rightarrow> (Err e, tr)
        | None \<Rightarrow>
            (case host_do E (RouteDel default_net) tr of (_, tr) \<Rightarrow>
               case host_steps E [(''failed to add default route '', AddDefaultRoute (ic_Gateway ip4) ''eth0'')] tr
                 of (err, tr) \<Rightarrow>
                 case err of
                   Some e \<Rightarrow> (Err e, tr)
                 | None \<Rightarrow> add_routes E (im_Route (op_IPAM conf)) tr))"

text \<open>What runs in the container's namespace.\<close>

definition in_netns :: "env \<Rightarrow> CmdArgs \<Rightarrow> Options \<Rightarrow> Result \<Rightarrow> history \<Rightarrow> unit outcome \<times> history" where
  "in_netns E args conf r tr =
     (case move_eth0 E tr of (err, tr) \<Rightarrow>
        case err of
          Some e \<Rightarrow> (Err e, tr)
        | None \<Rightarrow>
            (case create_veth E args conf tr of (err, tr) \<Rightarrow>
               case err of
                 Some e \<Rightarrow> (Err e, tr)
               | None \<Rightarrow>
                   (case (case cr_IP4 r of None \<Rightarrow> (Ok (), tr) | Some ip4 \<Rightarrow> config_eth0 E conf ip4 tr) of (res, tr) \<Rightarrow>
                      case res of
                        Ok _ \<Rightarrow>
                          (case host_steps E [(''failed to move veth to host netns: '', LinkSetNs (hostVethName args))] tr
                             of (err, tr) \<Rightarrow> (case err of Some e \<Rightarrow> Err e | None \<Rightarrow> Ok (), tr))
                      | Err e \<Rightarrow> (Err e, tr)
                      | Panic \<Rightarrow> (Panic, tr))))"

text \<open>
  \<open>ns.WithNetNSPath\<close>: the function runs in the namespace of the path, when that can be
  entered, and the namespace is left again after it; a panic in it ends the program.
\<close>

definition WithNetNSPath ::
    "env \<Rightarrow> string \<Rightarrow> (history \<Rightarrow> unit outcome \<times> history) \<Rightarrow> history \<Rightarrow> unit outcome \<times> history" where
  "WithNetNSPath E path toRun tr =
     (case host_do E (EnterNetns path) tr of (err, tr) \<Rightarrow>
        case err of
          Some e \<Rightarrow> (Err e, tr)
        | None \<Rightarrow>
            (case toRun tr of (res, tr) \<Rightarrow>
               case res of Panic \<Rightarrow> (Panic, tr) | _ \<Rightarrow> (res, snd (host_do E LeaveNetns tr))))"

definition inner_DoNetworking :: "env \<Rightarrow> CmdArgs \<Rightarrow> Options \<Rightarrow> Result \<Rightarrow> history \<Rightarrow> unit outcome \<times> history" where
  "inner_DoNetworking E args conf r tr =
     (let host = hostVethName args; tr = link_netns E args tr
      in case WithNetNSPath E (ca_Netns args) (in_netns E args conf r) tr of (res, tr) \<Rightarrow>
           case res of
             Ok _ \<Rightarrow>
               (case host_steps E
                  [(''failed to lookup '' @ [CHR 0x22] @ host @ [CHR 0x22] @ '': '', LinkByName host),
                   (''failed to set '' @ [CHR 0x22] @ host @ [CHR 0x22] @ '' up: '', LinkSetUp host)] tr
                  of (err, tr) \<Rightarrow> (case err of Some e \<Rightarrow> Err e | None \<Rightarrow> Ok (), tr))
           | Err e \<Rightarrow> (Err e, tr)
           | Panic \<Rightarrow> (Panic, tr))"

subsection \<open>\<open>GetVethCtrl\<close>\<close>

datatype VethCtrl = ShellCtrl | InnerVethCtrl

definition GetVethCtrl :: "string \<Rightarrow> VethCtrl" where
  "GetVethCtrl key = (if key = ''shell'' then ShellCtrl else InnerVethCtrl)"

fun DoNetworking :: "VethCtrl \<Rightarrow> env \<Rightarrow> CmdArgs \<Rightarrow> Options \<Rightarrow> Result \<Rightarrow> history \<Rightarrow> unit outcome \<times> history" where
  "DoNetworking ShellCtrl E args conf r tr = shell_DoNetworking E args conf r tr"
| "DoNetworking InnerVethCtrl E args conf r tr = inner_DoNetworking E args conf r tr"

end
