(* ===== verification/K8s.thy ===== *)
theory K8s
  imports Midonet Args Veth
begin

text \<open>
  \<open>pkg/k8s/k8s.go\<close>: the two commands, \<open>CmdAddK8s\<close>, which gives a container its address and
  network devices, and \<open>CmdDelK8s\<close>, which takes them back. \<open>time.Sleep\<close> and logging are left
  out. The properties are in \<open>K8sProps\<close>.
\<close>

subsection \<open>\<open>CmdAddK8s\<close>\<close>

definition result_key :: "string \<Rightarrow> string" where
  "result_key containerID = ''/midonet-cni/result/'' @ containerID"

text \<open>The result of an earlier call; when there is none that can be read, the command goes on.\<close>

definition last_result :: "env \<Rightarrow> string \<Rightarrow> history \<Rightarrow> Result option outcome \<times> history" where
  "last_result E containerID tr =
     (case Keys_Get E (result_key containerID) False tr of (res, tr) \<Rightarrow>
        case res of
          Inl _ \<Rightarrow> (Ok None, tr)
        | Inr res \<Rightarrow>
            (case re_Node res of
               None \<Rightarrow> (Panic, tr)
             | Some n \<Rightarrow> (Ok (Unmarshal Result_fields Result_zero (node_Value n)), tr)))"

text \<open>A new address; when the pool has run out, on a new bridge.\<close>

definition new_address :: "env \<Rightarrow> Manager \<Rightarrow> Tenant \<Rightarrow> string \<Rightarrow> history \<Rightarrow> (IPInfo outcome \<times> history) option" where
  "new_address E m tenant containerID tr =
     (case GetNewIP E tenant containerID tr of (info, tr) \<Rightarrow>
        case info of
          Ok i \<Rightarrow> Some (Ok i, tr)
        | Panic \<Rightarrow> Some (Panic, tr)
        | Err err \<Rightarrow>
            if error_text err \<noteq> ''CreateNewBridge'' then Some (Err err, tr)
            else do {
              (res, tr) \<leftarrow> CreateNewBridge E m tenant tr;
              (case res of
                 Err err \<Rightarrow> Some (Err err, tr)
               | Panic \<Rightarrow> Some (Panic, tr)
               | Ok _ \<Rightarrow>
                   (case GetNewIP E tenant containerID tr of (info, tr) \<Rightarrow>
                      Some (case info of
                          Err err \<Rightarrow> Err (ErrorString (''The IP allocation error: '' @ error_text err))
                        | r \<Rightarrow> r, tr)))
            })"

text \<open>Binding the interface, with one more try. The name takes twelve characters of the identifier.\<close>

definition bind_twice :: "env \<Rightarrow> Manager \<Rightarrow> CmdArgs \<Rightarrow> string \<Rightarrow> string \<Rightarrow> history \<Rightarrow> unit outcome \<times> history" where
  "bind_twice E m args tenantID containerID tr =
     (if length (ca_ContainerID args) < 12 then (Panic, tr)
      else
        (let ifName = ''vif'' @ take 12 (ca_ContainerID args)
         in case Bingding E m ifName tenantID containerID tr of (res, tr) \<Rightarrow>
              case res of Err _ \<Rightarrow> Bingding E m ifName tenantID containerID tr | _ \<Rightarrow> (res, tr)))"

definition cni_result :: "IPInfo \<Rightarrow> Result" where
  "cni_result info = \<lparr>cr_CNIVersion = ''0.2.0'',
     cr_IP4 = Some \<lparr>ic_IP = ii_IPNet info, ic_Gateway = ii_Getway info\<rparr>, cr_IP6 = None\<rparr>"

text \<open>The network devices, and the result stored for the next call.\<close>

definition set_up :: "env \<Rightarrow> CmdArgs \<Rightarrow> Options \<Rightarrow> string \<Rightarrow> Result \<Rightarrow> history \<Rightarrow> Result outcome \<times> history" where
  "set_up E args options containerID r tr =
     (case DoNetworking (GetVethCtrl (op_VethCtrlType options)) E args options r tr of (res, tr) \<Rightarrow>
        case res of
          Err e \<Rightarrow> (Err e, tr)
        | Panic \<Rightarrow> (Panic, tr)
        | Ok _ \<Rightarrow>
            (case Result_json r of
               None \<Rightarrow> (Err (OtherError ''json: error calling MarshalText''), tr)
             | Some v \<Rightarrow> (Ok r, snd (Keys_Set E (result_key containerID) (show_json v) tr))))"

text \<open>What follows when there is no result of an earlier call.\<close>

definition add_container ::
    "env \<Rightarrow> CmdArgs \<Rightarrow> Options \<Rightarrow> string \<Rightarrow> string \<Rightarrow> history \<Rightarrow> (Result outcome \<times> history) option" where
  "add_container E args options tenantID containerID tr =
     (case NewManager E options tr of ((mgr, options), tr) \<Rightarrow>
        case mgr of
          Inl err \<Rightarrow> Some (Err err, tr)
        | Inr m \<Rightarrow> do {
            (tenant, tr) \<leftarrow> GetTenant E m tenantID tr;
            (case tenant of
               Err err \<Rightarrow> Some (Err err, tr)
             | Panic \<Rightarrow> Some (Panic, tr)
             | Ok tenant \<Rightarrow>
                 (case CreateEtcdIpam E options of
                    Inl err \<Rightarrow> Some (Err err, tr)
                  | Inr _ \<Rightarrow> do {
                      (info, tr) \<leftarrow> new_address E m tenant containerID tr;
                      (case info of
                         Err err \<Rightarrow> Some (Err err, tr)
                       | Panic \<Rightarrow> Some (Panic, tr)
                       | Ok info \<Rightarrow>
                           (case bind_twice E m args (tn_ID tenant) containerID tr of (res, tr) \<Rightarrow>
                              case res of
                                Err err \<Rightarrow> Some (Err err, tr)
                              | Panic \<Rightarrow> Some (Panic, tr)
                              | Ok _ \<Rightarrow> Some (set_up E args options containerID (cni_result info) tr)))
                    }))
          })"

definition CmdAddK8s :: "env \<Rightarrow> CmdArgs \<Rightarrow> Options \<Rightarrow> history \<Rightarrow> (Result outcome \<times> history) option" where
  "CmdAddK8s E args options tr =
     (case cni_LoadArgs (ca_Args args) K8sArgs_zero of
        Err err \<Rightarrow> Some (Err err, tr)
      | Panic \<Rightarrow> Some (Panic, tr)
      | Ok k8sArgs \<Rightarrow>
          (case CreateETCDClient E (op_ETCDConf options) of
             Some err \<Rightarrow> Some (Err err, tr)
           | None \<Rightarrow>
               (case last_result E (ka_POD_INFRA_CONTAINER_ID k8sArgs) tr of (stored, tr) \<Rightarrow>
                  case stored of
                    Err err \<Rightarrow> Some (Err err, tr)
                  | Panic \<Rightarrow> Some (Panic, tr)
                  | Ok (Some r) \<Rightarrow> Some (Ok r, tr)
                  | Ok None \<Rightarrow>
                      add_container E args options (ka_POD_NAMESPACE k8sArgs) (ka_POD_INFRA_CONTAINER_ID k8sArgs) tr)))"

subsection \<open>\<open>CmdDelK8s\<close>\<close>

text \<open>An operation of the client tried \<open>n\<close> times, up to the first success: whether there was one.\<close>

fun try_times :: "nat \<Rightarrow> (history \<Rightarrow> go_error option \<times> history) \<Rightarrow> history \<Rightarrow> bool \<times> history" where
  "try_times 0 op tr = (False, tr)"
| "try_times (Suc n) op tr =
     (case op tr of (err, tr) \<Rightarrow> case err of None \<Rightarrow> (True, tr) | Some _ \<Rightarrow> try_times n op tr)"

text \<open>The binding and its port, each tried twice: whether the port was deleted.\<close>

definition remove_port :: "env \<Rightarrow> Options \<Rightarrow> string \<Rightarrow> history \<Rightarrow> bool \<times> history" where
  "remove_port E options text tr =
     (case Unmarshal HostInterfacePort_fields HostInterfacePort_zero text of
        None \<Rightarrow> (False, tr)
      | Some binding \<Rightarrow>
          (case NewClient E (op_MidoNetAPIConf options) tr of ((client, _), tr) \<Rightarrow>
             case client of
               Inl _ \<Rightarrow> (False, tr)
             | Inr _ \<Rightarrow>
                 (case try_times 2 (DeleteBinding E binding) tr of (_, tr) \<Rightarrow>
                    try_times 2 (DeletePort E (hp_PortID binding)) tr)))"

text \<open>The container's address goes back to the pool.\<close>

definition release_address :: "env \<Rightarrow> Options \<Rightarrow> string \<Rightarrow> string \<Rightarrow> history \<Rightarrow> (unit outcome \<times> history) option" where
  "release_address E options tenantID containerID tr =
     (case Keys_Get E (pod_key tenantID containerID) False tr of (res, tr) \<Rightarrow>
        case res of
          Inl _ \<Rightarrow> Some (Ok (), tr)
        | Inr res \<Rightarrow> do {
            (r, tr) \<leftarrow>
              (case CreateEtcdIpam E options of
                 Inl _ \<Rightarrow> Some (Ok (), tr)
               | Inr _ \<Rightarrow>
                   (case re_Node res of
                      None \<Rightarrow> Some (Panic, tr)
                    | Some n \<Rightarrow> ReleaseIP E tenantID (node_Value n) tr));
            Some (case r of
                Panic \<Rightarrow> (Panic, tr)
              | _ \<Rightarrow> (Ok (), snd (Keys_Delete E (pod_key tenantID containerID) tr)))
          })"

text \<open>The link to the namespace goes, and the command succeeds.\<close>

definition del_done :: "env \<Rightarrow> CmdArgs \<Rightarrow> history \<Rightarrow> Result outcome \<times> history" where
  "del_done E args tr = (Ok Result_zero, snd (host_call E (RemoveFile (netns_link args)) tr))"

text \<open>What is done for a container whose binding was found.\<close>

definition unbind ::
    "env \<Rightarrow> Options \<Rightarrow> string \<Rightarrow> string \<Rightarrow> string \<Rightarrow> history \<Rightarrow> (unit outcome \<times> history) option" where
  "unbind E options tenantID containerID text tr =
     (case remove_port E options text tr of (deletePort, tr) \<Rightarrow>
      case Keys_Delete E (binding_key tenantID containerID) tr of (_, tr) \<Rightarrow>
        if deletePort then release_address E options tenantID containerID tr else Some (Ok (), tr))"

definition del_container ::
    "env \<Rightarrow> CmdArgs \<Rightarrow> Options \<Rightarrow> string \<Rightarrow> string \<Rightarrow> history \<Rightarrow> (Result outcome \<times> history) option" where
  "del_container E args options tenantID containerID tr =
     (case Keys_Delete E (result_key containerID) tr of (_, tr) \<Rightarrow>
      case Keys_Get E (binding_key tenantID containerID) False tr of (res, tr) \<Rightarrow>
        case res of
          Inl _ \<Rightarrow> Some (del_done E args tr)
        | Inr res \<Rightarrow>
            (case re_Node res of
               None \<Rightarrow> Some (Panic, tr)
             | Some n \<Rightarrow> do {
                 (r, tr) \<leftarrow> unbind E options tenantID containerID (node_Value n) tr;
                 Some (case r of Panic \<Rightarrow> (Panic, tr) | _ \<Rightarrow> del_done E args tr)
               }))"

definition CmdDelK8s :: "env \<Rightarrow> CmdArgs \<Rightarrow> Options \<Rightarrow> history \<Rightarrow> (Result outcome \<times> history) option" where
  "CmdDelK8s E args options tr =
     (if im_Type (op_IPAM options) \<noteq> ''etcd'' then Some (Err (ErrorString ''ipam type only support etcd''), tr)
      else
        (case cni_LoadArgs (ca_Args args) K8sArgs_zero of
           Err err \<Rightarrow> Some (Err err, tr)
         | Panic \<Rightarrow> Some (Panic, tr)
         | Ok k8sArgs \<Rightarrow>
             (case CreateETCDClient E (op_ETCDConf options) of
                Some err \<Rightarrow> Some (Err err, tr)
              | None \<Rightarrow>
                  del_container E args options (ka_POD_NAMESPACE k8sArgs) (ka_POD_INFRA_CONTAINER_ID k8sArgs) tr)))"

end
