(* ===== verification/EtcdTraffic.thy ===== *)
theory EtcdTraffic
  imports Ipam
begin

text \<open>
  The address manager talks to etcd only: what each of its operations adds to the history
  are requests to etcd. The operations of the MidoNet manager rest on this, which keep
  account of what they have created at the MidoNet API.
\<close>

lemma lock_event_is_etcd: "lock_event key e \<Longrightarrow> is_etcd e"
  by (auto simp: lock_event_def is_etcd_def split: event.splits)

lemma etcd_call_etcd [shape]: "etcd_call E r tr = (a, tr') \<Longrightarrow> etcd_only tr tr'"
  by (auto simp: etcd_call_eq)

lemma with_lock_etcd:
  assumes "with_lock E key nf lf body tr = Some (res, tr')"
    and "\<And>t r t'. body t = Some (r, t') \<Longrightarrow> etcd_only t t'"
  shows "etcd_only tr tr'"
  using etcd_guard.run_extends [OF assms(1), where P = is_etcd] assms(2) lock_event_is_etcd
  by (simp add: etcd_only_def)

lemma Lock_etcd: "Lock E m tr = Some (r, tr') \<Longrightarrow> etcd_only tr tr'"
  using Lock_extends [of E m tr "fst r" "snd r" tr'] lock_event_is_etcd
  by (auto simp: etcd_only_def list_all_iff)

lemma Unlock_etcd: "Unlock E m tr = Some (r, tr') \<Longrightarrow> etcd_only tr tr'"
  using Unlock_extends [of E m tr "fst r" "snd r" tr'] is_unlock_lock_event lock_event_is_etcd
  by (fastforce simp: etcd_only_def list_all_iff)

subsection \<open>The pools\<close>

lemma set_iprange_etcd: "set_iprange E key iprange tr = (r, tr') \<Longrightarrow> etcd_only tr tr'"
  by (auto simp: set_iprange_def etcd_call_eq split: sum.splits option.splits if_splits)

lemma fill_pool_etcd:
  assumes "fill_pool E dir skip r tr = Some tr'"
  shows "etcd_only tr tr'"
proof (rule fill_pool.raw_induct [where P = "\<lambda>_ _ _ _ tr tr'. etcd_only tr tr'", OF _ assms], goal_cases)
  case (1 fill E dir skip r tr tr')
  from 1(2) show ?case
    by (auto split: prod.splits if_splits dest!: 1(1) elim: etcd_only_trans [rotated])
qed

lemma refreshRouterAvailable_etcd:
  "refreshRouterAvailable E iprange tr = Some (r, tr') \<Longrightarrow> etcd_only tr tr'"
  by (auto simp: refreshRouterAvailable_def split: prod.splits option.splits outcome.splits sum.splits bind_splits
      dest!: set_iprange_etcd fill_pool_etcd elim: etcd_only_trans)

lemma grab_pair_etcd: "grab_pair E nodes ips tr = (r, tr') \<Longrightarrow> etcd_only tr tr'"
proof (induction nodes arbitrary: ips tr)
  case (Cons node nodes)
  from Cons.prems show ?case
    by (auto simp: etcd_call_eq Let_def split: if_splits sum.splits
        dest!: Cons.IH elim!: etcd_only_trans [rotated])
qed simp

lemma router_ip_body_etcd: "router_ip_body E conf tr = Some (r, tr') \<Longrightarrow> etcd_only tr tr'"
  by (auto simp: router_ip_body_def createRouterAvailable_def etcd_call_eq
      split: prod.splits option.splits outcome.splits sum.splits if_splits
      dest!: refreshRouterAvailable_etcd grab_pair_etcd elim!: etcd_only_trans [rotated])

lemma GetRouterIP_etcd [shape]: "GetRouterIP E conf tr = Some (r, tr') \<Longrightarrow> etcd_only tr tr'"
  unfolding GetRouterIP_def by (erule with_lock_etcd) (rule router_ip_body_etcd)

lemma CreateIPs_etcd [shape]: "CreateIPsForTenantBridge E tenant iprange tr = Some (r, tr') \<Longrightarrow> etcd_only tr tr'"
  by (auto simp: CreateIPsForTenantBridge_def
      split: prod.splits option.splits outcome.splits if_splits bind_splits
      dest!: set_iprange_etcd fill_pool_etcd elim: etcd_only_trans)

subsection \<open>Addresses of containers\<close>

lemma grab_ip_etcd: "grab_ip E nodes tr = (r, tr') \<Longrightarrow> etcd_only tr tr'"
proof (induction nodes arbitrary: tr)
  case (Cons node nodes)
  from Cons.prems show ?case
    by (auto simp: etcd_call_eq split: if_splits sum.splits dest!: Cons.IH elim!: etcd_only_trans [rotated])
qed simp

lemma allocate_ip_etcd: "allocate_ip E tenantID containerID tr = (r, tr') \<Longrightarrow> etcd_only tr tr'"
  by (auto simp: allocate_ip_def etcd_call_eq
      split: prod.splits option.splits outcome.splits sum.splits if_splits
      dest!: grab_ip_etcd elim!: etcd_only_trans [rotated] intro: etcd_only_snoc)

lemma GetNewIP_etcd [shape]: "GetNewIP E tenant containerID tr = (r, tr') \<Longrightarrow> etcd_only tr tr'"
  by (auto simp: GetNewIP_def etcd_call_eq split: option.splits sum.splits
      dest!: allocate_ip_etcd elim!: etcd_only_trans [rotated])

lemma current_net_etcd: "current_net E key tr = (r, tr') \<Longrightarrow> etcd_only tr tr'"
  by (auto simp: current_net_def etcd_call_eq split: option.splits sum.splits)

lemma ReleaseIP_etcd [shape]: "ReleaseIP E tenantID oldIP tr = Some (r, tr') \<Longrightarrow> etcd_only tr tr'"
  by (auto simp: ReleaseIP_def split: prod.splits outcome.splits sum.splits if_splits
      dest!: current_net_etcd with_lock_etcd elim: etcd_only_trans)

lemma release_loop_etcd: "release_loop E ipnet ips ms tr = Some (r, tr') \<Longrightarrow> etcd_only tr tr'"
proof (induction ips arbitrary: ms tr)
  case (Cons ip ips)
  from Cons.prems show ?case
    by (auto simp: etcd_call_eq split: prod.splits option.splits sum.splits if_splits bind_splits
        dest!: Cons.IH Lock_etcd elim!: etcd_only_trans [rotated] intro: etcd_only_snoc)
qed simp

lemma unlock_all_etcd: "unlock_all E ms tr = Some tr' \<Longrightarrow> etcd_only tr tr'"
proof (induction ms arbitrary: tr)
  case (Cons m ms)
  from Cons.prems show ?case
    by (auto split: bind_splits dest!: Cons.IH Unlock_etcd elim: etcd_only_trans)
qed simp

lemma ReleaseRouterIP_etcd [shape]: "ReleaseRouterIP E ips tr = Some (r, tr') \<Longrightarrow> etcd_only tr tr'"
  by (auto simp: ReleaseRouterIP_def split: prod.splits outcome.splits bind_splits
      dest!: current_net_etcd release_loop_etcd unlock_all_etcd intro: etcd_only_trans)

end
