(* ===== verification/Resources.thy ===== *)
theory Resources
  imports Midonet EtcdTraffic
begin

text \<open>
  What is left at the MidoNet API: the resources whose creation was answered with success
  and whose deletion was not requested since. The lemmas say what every operation of the
  client and of the manager does to this account; the rollbacks of the manager are judged
  by it.
\<close>

datatype resource =
    RChain UUID | RRouter UUID | RPort UUID | RBridge UUID | RRoute UUID | RRule UUID

definition creates :: "mido_req \<Rightarrow> resource option" where
  "creates q =
     (case q of
        PostBridge b \<Rightarrow> map_option RBridge (br_ID b)
      | PostBridgePort _ p \<Rightarrow> map_option RPort (po_ID p)
      | PostRouterPort _ p \<Rightarrow> map_option RPort (po_ID p)
      | PostRouter r \<Rightarrow> map_option RRouter (ro_ID r)
      | PostRoute _ r \<Rightarrow> map_option RRoute (rt_ID r)
      | PostChain c \<Rightarrow> map_option RChain (ch_ID c)
      | PostRule _ r \<Rightarrow> map_option RRule (ru_ID r)
      | _ \<Rightarrow> None)"

definition deletes :: "mido_req \<Rightarrow> resource option" where
  "deletes q =
     (case q of
        DeleteBridge u \<Rightarrow> Some (RBridge u)
      | mido_req.DeletePort u \<Rightarrow> Some (RPort u)
      | mido_req.DeleteRouter u \<Rightarrow> Some (RRouter u)
      | mido_req.DeleteRoute _ u \<Rightarrow> Some (RRoute u)
      | mido_req.DeleteChain u \<Rightarrow> Some (RChain u)
      | mido_req.DeleteRule u \<Rightarrow> Some (RRule u)
      | _ \<Rightarrow> None)"

definition account :: "event \<Rightarrow> resource set \<Rightarrow> resource set" where
  "account e R =
     (case e of
        MidoEv q a \<Rightarrow>
          (case a of
             Inr (s, _) \<Rightarrow> if ok_status s then R \<union> set_option (creates q) else R
           | Inl _ \<Rightarrow> R) - set_option (deletes q)
      | _ \<Rightarrow> R)"

definition outstanding :: "history \<Rightarrow> resource set" where
  "outstanding tr = fold account tr {}"

lemma outstanding_Nil [simp]: "outstanding [] = {}"
  by (simp add: outstanding_def)

lemma outstanding_append [simp]: "outstanding (tr @ evs) = fold account evs (outstanding tr)"
  by (simp add: outstanding_def)

lemma account_other [simp]: "account (EtcdEv r x) R = R" "account (UuidEv u) R = R"
  "account (HostEv h y) R = R" "account (V3Ev k z) R = R"
  by (simp_all add: account_def)

lemma fold_account_etcd: "list_all is_etcd evs \<Longrightarrow> fold account evs R = R"
  by (induction evs arbitrary: R) (auto simp: is_etcd_def split: event.splits)

lemma outstanding_etcd: "etcd_only tr tr' \<Longrightarrow> outstanding tr' = outstanding tr"
  by (auto simp: etcd_only_def outstanding_def fold_account_etcd)

lemma outstanding_etcd_call [simp]: "outstanding (snd (etcd_call E r tr)) = outstanding tr"
  by (simp add: etcd_call_eq)

subsection \<open>The client\<close>

lemma send_outstanding:
  "send E q tr = (err, tr') \<Longrightarrow>
   outstanding tr' = (outstanding tr \<union> (if err = None then set_option (creates q) else {})) - set_option (deletes q)"
  by (auto simp: send_def mido_call_eq account_def split: sum.splits prod.splits if_splits)

lemma CreateUUID_outstanding [simp]: "outstanding (snd (CreateUUID E tr)) = outstanding tr"
  by (simp add: CreateUUID_def Let_def)

lemma CreateUUID_outstandingD: "CreateUUID E tr = (u, tr') \<Longrightarrow> outstanding tr' = outstanding tr"
  by (auto simp: CreateUUID_def Let_def)

lemma fresh_id_outstanding:
  "fresh_id E i tr = (u, tr') \<Longrightarrow> outstanding tr' = outstanding tr \<and> (\<forall>w. i = Some w \<longrightarrow> u = w)"
  using CreateUUID_outstanding [of E tr] by (cases i) (auto simp: fresh_id_def simp del: CreateUUID_outstanding)

text \<open>What a creation adds when it succeeds.\<close>

definition gained :: "go_error option \<Rightarrow> resource \<Rightarrow> resource set" where
  "gained err r = (if err = None then {r} else {})"

lemma gained_simps [simp]: "gained None r = {r}" "gained (Some e) r = {}"
  by (simp_all add: gained_def)

lemmas op_shape = send_outstanding fresh_id_outstanding

lemma CreateChain_outstanding:
  "CreateChain E ch tr = ((err, ch'), tr') \<Longrightarrow>
   \<exists>u. ch' = ch\<lparr>ch_ID := Some u\<rparr> \<and> outstanding tr' = outstanding tr \<union> gained err (RChain u)"
  by (auto simp: CreateChain_def Let_def creates_def deletes_def gained_def dest!: op_shape split: prod.splits if_splits)

lemma CreateRouter_outstanding:
  "CreateRouter E r tr = ((err, r'), tr') \<Longrightarrow>
   \<exists>u. r' = r\<lparr>ro_ID := Some u\<rparr> \<and> outstanding tr' = outstanding tr \<union> gained err (RRouter u)"
  by (auto simp: CreateRouter_def Let_def creates_def deletes_def gained_def dest!: op_shape split: prod.splits if_splits)

lemma CreateRouterPort_outstanding:
  "CreateRouterPort E p tr = ((err, p'), tr') \<Longrightarrow>
   \<exists>u. p' = p\<lparr>po_ID := Some u, po_Type := ''Router''\<rparr> \<and> outstanding tr' = outstanding tr \<union> gained err (RPort u)"
  by (auto simp: CreateRouterPort_def Let_def creates_def deletes_def gained_def dest!: op_shape split: prod.splits if_splits)

lemma CreateBridgePort_outstanding:
  "CreateBridgePort E p tr = ((err, p'), tr') \<Longrightarrow>
   \<exists>u. p' = p\<lparr>po_ID := Some u, po_Type := ''Bridge''\<rparr> \<and> outstanding tr' = outstanding tr \<union> gained err (RPort u)"
  by (auto simp: CreateBridgePort_def Let_def creates_def deletes_def gained_def dest!: op_shape split: prod.splits if_splits)

lemma CreateBridge_outstanding:
  "CreateBridge E b tr = ((err, b'), tr') \<Longrightarrow>
   \<exists>u. b' = b\<lparr>br_ID := Some u\<rparr> \<and> (br_ID b = Some w \<longrightarrow> u = w) \<and> outstanding tr' = outstanding tr \<union> gained err (RBridge u)"
  by (auto simp: CreateBridge_def Let_def creates_def deletes_def gained_def dest!: op_shape
      split: prod.splits if_splits option.splits)

lemma CreateRoute_outstanding:
  "CreateRoute E r tr = ((err, r'), tr') \<Longrightarrow>
   (if rt_RouterID r = None then err \<noteq> None \<and> r' = r \<and> tr' = tr
    else \<exists>u. r' = r\<lparr>rt_ID := Some u\<rparr> \<and> (rt_ID r \<noteq> None \<longrightarrow> rt_ID r = Some u)
      \<and> outstanding tr' = outstanding tr \<union> gained err (RRoute u))"
  by (auto simp: CreateRoute_def Let_def creates_def deletes_def gained_def dest!: op_shape
      split: prod.splits if_splits option.splits)

lemma CreateRule_outstanding:
  "CreateRule E r tr = ((err, r'), tr') \<Longrightarrow>
   (if ru_ChainID r = None then err \<noteq> None \<and> tr' = tr
    else \<exists>u. r' = r\<lparr>ru_ID := Some u\<rparr> \<and> outstanding tr' = outstanding tr \<union> gained err (RRule u))"
  by (auto simp: CreateRule_def Let_def creates_def deletes_def gained_def dest!: op_shape
      split: prod.splits if_splits option.splits)

lemma send_neutral:
  "send E q tr = (err, tr') \<Longrightarrow> creates q = None \<Longrightarrow> deletes q = None \<Longrightarrow> outstanding tr' = outstanding tr"
  by (drule send_outstanding) simp

lemma CreatePortLink_outstanding:
  "CreatePortLink E l tr = (err, tr') \<Longrightarrow> outstanding tr' = outstanding tr"
  by (auto simp: CreatePortLink_def creates_def deletes_def elim!: send_neutral split: option.splits)

lemma BindingInterface_outstanding:
  "BindingInterface E h tr = (err, tr') \<Longrightarrow> outstanding tr' = outstanding tr"
  by (auto simp: BindingInterface_def creates_def deletes_def elim!: send_neutral split: sum.splits)

lemma send_deletes:
  "creates q = None \<Longrightarrow> outstanding (snd (send E q tr)) = outstanding tr - set_option (deletes q)"
  using send_outstanding [of E q tr] by (cases "send E q tr") auto

lemma DeleteBinding_outstanding [simp]: "outstanding (snd (DeleteBinding E h tr)) = outstanding tr"
  by (auto simp: DeleteBinding_def send_deletes creates_def deletes_def split: sum.split)

lemma delete_outstanding [simp]:
  "outstanding (snd (DeleteChain E (Some u) tr)) = outstanding tr - {RChain u}"
  "outstanding (snd (DeleteRouter E (Some u) tr)) = outstanding tr - {RRouter u}"
  "outstanding (snd (DeletePort E (Some u) tr)) = outstanding tr - {RPort u}"
  "outstanding (snd (DeleteBridges E (Some u) tr)) = outstanding tr - {RBridge u}"
  "outstanding (snd (DeleteRule E (Some u) tr)) = outstanding tr - {RRule u}"
  "outstanding (snd (DeleteRoute E c (Some v) (Some u) tr)) = outstanding tr - {RRoute u}"
  "outstanding (snd (DeletePortLink E i tr)) = outstanding tr"
  by (auto simp: DeleteChain_def DeleteRouter_def DeletePort_def DeleteBridges_def DeleteRule_def DeleteRoute_def
      DeletePortLink_def send_deletes creates_def deletes_def split: option.split)

lemma undo_simps [simp]: "undo [] tr = tr" "undo (op # ops) tr = undo ops (snd (op tr))"
  "undo (ops @ ops') tr = undo ops' (undo ops tr)"
  by (simp_all add: undo_def)

subsection \<open>Ports, routes and rules\<close>

lemma createRouterPort_outstanding:
  "createRouterPort E ip routerID tr = (r, tr') \<Longrightarrow>
   (case r of Inl e \<Rightarrow> outstanding tr' = outstanding tr
    | Inr p \<Rightarrow> \<exists>u. po_ID p = Some u \<and> outstanding tr' = outstanding tr \<union> {RPort u})"
  by (auto simp: createRouterPort_def Let_def dest!: CreateRouterPort_outstanding
      split: prod.splits option.splits sum.splits)

lemma two_routes: "\<exists>u v. insert (RRoute a) (insert (RRoute b) R) = insert (RRoute u) (insert (RRoute v) R)"
  by blast

lemma CreateDefaultRoute_outstanding:
  assumes "CreateDefaultRoute E m l r router provider tenantID tr = (err, tr')"
  shows "case err of
      None \<Rightarrow> \<exists>u v. outstanding tr' = outstanding tr \<union> {RRoute u, RRoute v}
    | Some e \<Rightarrow> outstanding tr' \<subseteq> outstanding tr"
  using assms
  by (auto simp: CreateDefaultRoute_def Let_def two_routes simp del: snd_etcd_call
      dest!: CreateRoute_outstanding CreateUUID_outstandingD split: option.splits prod.splits if_splits)

lemma three_rules: "\<exists>a b c. insert (RRule x) (insert (RRule y) (insert (RRule z) R)) =
    insert (RRule a) (insert (RRule b) (insert (RRule c) R))"
  by blast

lemma CreateDefaultRule_outstanding:
  assumes "CreateDefaultRule E l router tr = (err, tr')"
  shows "case err of
      None \<Rightarrow> \<exists>a b c. outstanding tr' = outstanding tr \<union> {RRule a, RRule b, RRule c}
    | Some e \<Rightarrow> outstanding tr' \<subseteq> outstanding tr"
  using assms
  by (auto simp: CreateDefaultRule_def three_rules simp del: snd_etcd_call
      dest!: CreateRule_outstanding split: option.splits prod.splits if_splits)

lemma link_parts: "\<exists>p q u. insert (RRoute c) (insert (RPort a) (insert (RPort b) R)) =
    insert (RPort p) (insert (RPort q) (insert (RRoute u) R))"
  by blast

lemma CreateBridgeLinkRouter_outstanding:
  assumes "CreateBridgeLinkRouter E b router iprange tr = (res, tr')"
  shows "case res of
      Ok _ \<Rightarrow> \<exists>p q u. outstanding tr' = outstanding tr \<union> {RPort p, RPort q, RRoute u}
    | _ \<Rightarrow> outstanding tr' \<subseteq> outstanding tr"
proof (cases router)
  case None
  with assms show ?thesis
    by (auto simp: CreateBridgeLinkRouter_def Let_def link_parts
      dest!: createRouterPort_outstanding CreateBridgePort_outstanding CreatePortLink_outstanding CreateRoute_outstanding
      split: outcome.splits option.splits prod.splits sum.splits)
next
  case (Some v)
  with assms show ?thesis
    by (auto simp: CreateBridgeLinkRouter_def Let_def link_parts
      dest!: createRouterPort_outstanding CreateBridgePort_outstanding CreatePortLink_outstanding CreateRoute_outstanding
      split: outcome.splits option.splits prod.splits sum.splits)
qed

subsection \<open>The stages of \<open>initNetwork\<close>\<close>

lemma create_chains_outstanding:
  assumes "create_chains E tenant tr = (r, tr')"
  shows "case r of
      Inl e \<Rightarrow> outstanding tr' \<subseteq> outstanding tr
    | Inr (a, b) \<Rightarrow> \<exists>u v. ch_ID a = Some u \<and> ch_ID b = Some v \<and> outstanding tr' = outstanding tr \<union> {RChain u, RChain v}"
  using assms
  by (auto simp: create_chains_def dest!: CreateUUID_outstandingD CreateChain_outstanding
      split: prod.splits option.splits sum.splits)

lemma create_router_outstanding:
  assumes "create_router E tenant a b tr = (r, tr')" and "ch_ID a = Some u" "ch_ID b = Some v"
  shows "case r of
      Inl e \<Rightarrow> outstanding tr' = outstanding tr - {RChain u, RChain v}
    | Inr router \<Rightarrow> \<exists>w. ro_ID router = Some w \<and> outstanding tr' = outstanding tr \<union> {RRouter w}"
  using assms
  by (auto simp: create_router_def dest!: CreateRouter_outstanding split: prod.splits option.splits sum.splits)

lemma link_addresses_etcd: "link_addresses E m tr = Some (r, tr') \<Longrightarrow> etcd_only tr tr'"
  by (auto simp: link_addresses_def dest!: GetRouterIP_etcd
      split: sum.splits bind_splits outcome.splits if_splits)

text \<open>The identifiers of the parts of a network.\<close>

definition net_ids :: "Net \<Rightarrow> UUID \<Rightarrow> UUID \<Rightarrow> UUID \<Rightarrow> UUID \<Rightarrow> UUID \<Rightarrow> bool" where
  "net_ids nw u v w p q \<longleftrightarrow> ch_ID (nw_in nw) = Some u \<and> ch_ID (nw_out nw) = Some v \<and> ro_ID (nw_router nw) = Some w
     \<and> po_ID (nw_remote nw) = Some p \<and> po_ID (nw_local nw) = Some q"

lemma undo_net_outstanding:
  "net_ids nw u v w p q \<Longrightarrow>
   outstanding (undo (undo_net E nw) tr) = outstanding tr - {RPort p, RPort q, RChain u, RChain v, RRouter w}"
  by (auto simp: net_ids_def undo_net_def undo_chains_def)

lemma create_link_outstanding:
  assumes "create_link E a b router ip0 ip1 provider tr = (r, tr')"
    and "ch_ID a = Some u" "ch_ID b = Some v" "ro_ID router = Some w"
  shows "case r of
      Inl e \<Rightarrow> outstanding tr' \<subseteq> outstanding tr - {RChain u, RChain v, RRouter w}
    | Inr nw \<Rightarrow> \<exists>p q. net_ids nw u v w p q \<and> outstanding tr' = outstanding tr \<union> {RPort p, RPort q}"
  using assms
  by (auto simp: create_link_def net_ids_def undo_chains_def
      dest!: createRouterPort_outstanding CreatePortLink_outstanding split: prod.splits option.splits sum.splits)

lemma create_routes_outstanding:
  assumes "create_routes E m tenant nw provider tr = (err, tr')" and "net_ids nw u v w p q"
  shows "case err of
      None \<Rightarrow> \<exists>x y a b c. outstanding tr' = outstanding tr \<union> {RRoute x, RRoute y, RRule a, RRule b, RRule c}
    | Some e \<Rightarrow> \<exists>x y. outstanding tr' \<subseteq>
        (outstanding tr \<union> {RRoute x, RRoute y}) - {RPort p, RPort q, RChain u, RChain v, RRouter w}"
proof -
  obtain e1 t1 where r: "CreateDefaultRoute E m (nw_local nw) (nw_remote nw) (ro_ID (nw_router nw)) (Some provider)
      (tn_ID tenant) tr = (e1, t1)" by fastforce
  note R = CreateDefaultRoute_outstanding [OF r] undo_net_outstanding [OF assms(2), of E]
  show ?thesis
  proof (cases e1)
    case (Some e)
    with r assms(1) have "err = Some e" "tr' = undo (undo_net E nw) t1" by (simp_all add: create_routes_def)
    with R Some have "err = Some e" "outstanding tr' \<subseteq> outstanding tr - {RPort p, RPort q, RChain u, RChain v, RRouter w}"
      by auto
    then show ?thesis by auto
  next
    case None
    obtain e2 t2 where rule: "CreateDefaultRule E (nw_local nw) (nw_router nw) t1 = (e2, t2)" by fastforce
    from R(1) None obtain x y where t1: "outstanding t1 = outstanding tr \<union> {RRoute x, RRoute y}" by auto
    show ?thesis
    proof (cases e2)
      case (Some e)
      with CreateDefaultRule_outstanding [OF rule] have "outstanding t2 \<subseteq> outstanding t1" by simp
      moreover from Some None r rule assms(1) have "err = Some e" "tr' = undo (undo_net E nw) t2"
        by (simp_all add: create_routes_def)
      ultimately have "err = Some e" "outstanding tr' \<subseteq>
          (outstanding tr \<union> {RRoute x, RRoute y}) - {RPort p, RPort q, RChain u, RChain v, RRouter w}"
        using t1 R(2) by auto
      then show ?thesis by (simp only: option.case) (intro exI)
    next
      case n2: None
      with CreateDefaultRule_outstanding [OF rule] obtain a b c where
        "outstanding t2 = outstanding t1 \<union> {RRule a, RRule b, RRule c}" by auto
      moreover from n2 None r rule assms(1) have "err = None" "tr' = t2" by (simp_all add: create_routes_def)
      ultimately have "outstanding tr' = outstanding tr \<union> {RRoute x, RRoute y, RRule a, RRule b, RRule c}"
        using t1 by auto
      then show ?thesis unfolding \<open>err = None\<close> option.case by blast
    qed
  qed
qed

lemma first_bridge_outstanding:
  assumes "first_bridge E m tenant nw tr = Some (r, tr')" and "net_ids nw u v w p q"
  shows "case r of
      Ok bridge \<Rightarrow> \<exists>x a b c. br_ID bridge = Some x
        \<and> outstanding tr' = outstanding tr \<union> {RPort a, RPort b, RRoute c, RBridge x}
    | Err e \<Rightarrow> \<exists>x. outstanding tr' \<subseteq>
        (outstanding tr \<union> {RBridge x}) - {RPort p, RPort q, RChain u, RChain v, RRouter w}
    | Panic \<Rightarrow> True"
proof -
  note U = undo_net_outstanding [OF assms(2), of E]
  obtain x t0 where x: "CreateUUID E tr = (x, t0)" by fastforce
  note t0 = CreateUUID_outstandingD [OF x]
  obtain err bridge t1 where b: "CreateBridge E \<lparr>br_Name = tn_Name tenant @ '' bridge0'', br_TenantID = tn_ID tenant,
      br_ID = Some x\<rparr> t0 = ((err, bridge), t1)" by (metis surj_pair)
  from CreateBridge_outstanding [OF b, of x]
  have id: "br_ID bridge = Some x" and t1: "outstanding t1 = outstanding tr \<union> gained err (RBridge x)"
    using t0 by auto
  show ?thesis
  proof (cases err)
    case (Some e)
    with assms(1) x b t1 U show ?thesis by (auto simp: first_bridge_def)
  next
    case None
    with assms(1) x b obtain res t2 where ips: "CreateIPsForTenantBridge E tenant (op_MidoNetBridgeCIDR (mg_conf m)) t1 = Some (res, t2)"
      by (auto simp: first_bridge_def split: bind_splits)
    from CreateIPs_etcd [OF ips] t1 None have t2: "outstanding t2 = outstanding tr \<union> {RBridge x}"
      by (simp add: outstanding_etcd)
    show ?thesis
    proof (cases res)
      case (Ok _)
      obtain res' t3 where l: "CreateBridgeLinkRouter E (br_ID bridge) (ro_ID (nw_router nw)) (op_MidoNetBridgeCIDR (mg_conf m)) t2
          = (res', t3)" by fastforce
      note L = CreateBridgeLinkRouter_outstanding [OF l]
      show ?thesis
      proof (cases res')
        case (Ok _)
        with assms(1) x b None ips \<open>res = Ok _\<close> l have "r = Ok bridge" "tr' = t3"
          by (simp_all add: first_bridge_def)
        with Ok L id t2 show ?thesis by auto
      next
        case (Err e)
        with assms(1) x b None ips \<open>res = Ok _\<close> l have "r = Err e" "tr' = undo (undo_net E nw) t3"
          by (simp_all add: first_bridge_def)
        with Err L t2 U show ?thesis by auto
      next
        case Panic
        with assms(1) x b None ips \<open>res = Ok _\<close> l show ?thesis by (simp add: first_bridge_def)
      qed
    next
      case (Err e)
      with assms(1) x b None ips id t2 U show ?thesis by (auto simp: first_bridge_def)
    next
      case Panic
      with assms(1) x b None ips show ?thesis by (auto simp: first_bridge_def)
    qed
  qed
qed

lemma save_network_outstanding:
  assumes "save_network E tenant nw bridge tr = (r, tr')" and "net_ids nw u v w p q" and "br_ID bridge = Some x"
  shows "(r = Ok () \<and> outstanding tr' = outstanding tr \<and>
        (\<exists>pre a. tr' = pre @ [EtcdEv (KeysSet (tenant_key (tn_ID tenant) ''/bridge/usage'') (UUID_String x) False 0) (Inr a)])) \<or>
    (\<exists>e. r = Err e \<and> outstanding tr' = outstanding tr - {RPort p, RPort q, RChain u, RChain v, RRouter w})"
proof -
  from assms(2) have w: "ro_ID (nw_router nw) = Some w" by (simp add: net_ids_def)
  obtain t where t: "outstanding t = outstanding tr"
    and s: "(case Keys_Set E (tenant_key (tn_ID tenant) ''/bridge/usage'') (UUID_String x) t of (res, tr) \<Rightarrow>
        case res of Inl err \<Rightarrow> (Err err, undo (undo_net E nw) tr) | Inr _ \<Rightarrow> (Ok (), tr)) = (r, tr')"
    using assms(1) unfolding save_network_def Let_def w assms(3) id_text_def option.case outcome.case
    by - (rule that [rotated], assumption, simp only: outstanding_etcd_call)
  show ?thesis
    using s t undo_net_outstanding [OF assms(2), of E] by (auto simp: etcd_call_eq split: sum.splits)
qed

end
