(* ===== verification/VethProps.thy ===== *)
theory VethProps
  imports Veth Resources
begin

text \<open>
  What the network set-up guarantees: the requests of a successful run, and the contract of
  the interface \<open>VethCtrl\<close>, which both implementations meet: only the host is asked for
  anything.
\<close>

subsection \<open>Requests to the host\<close>

definition is_host :: "event \<Rightarrow> bool" where
  "is_host e = (case e of HostEv _ _ \<Rightarrow> True | _ \<Rightarrow> False)"

definition host_only :: "history \<Rightarrow> history \<Rightarrow> bool" where
  "host_only tr tr' \<longleftrightarrow> (\<exists>evs. tr' = tr @ evs \<and> list_all is_host evs)"

lemma is_host_HostEv [simp]: "is_host (HostEv q a)"
  by (simp add: is_host_def)

lemma host_only_refl [simp]: "host_only tr tr"
  by (simp add: host_only_def)

lemma host_only_trans [trans]: "host_only a b \<Longrightarrow> host_only b c \<Longrightarrow> host_only a c"
  by (auto simp: host_only_def)

lemma host_only_append [simp]: "host_only tr (tr @ evs) \<longleftrightarrow> list_all is_host evs"
  by (simp add: host_only_def)

text \<open>The events are those requests, in that order, and none of them failed.\<close>

definition did :: "history \<Rightarrow> host_req list \<Rightarrow> bool" where
  "did evs qs \<longleftrightarrow> list_all2 (\<lambda>e q. \<exists>a. e = HostEv q (Inr a)) evs qs"

lemma did_Nil [simp]: "did [] []"
  by (simp add: did_def)

lemma did_Cons [simp]: "did (HostEv q (Inr a) # evs) (q # qs) \<longleftrightarrow> did evs qs"
  by (simp add: did_def)

lemma did_append: "did evs qs \<Longrightarrow> did evs' qs' \<Longrightarrow> did (evs @ evs') (qs @ qs')"
  unfolding did_def by (rule list_all2_appendI)

lemma host_do_eq:
  "host_do E q tr = (case host_srv E tr q of Inl e \<Rightarrow> Some e | Inr _ \<Rightarrow> None, tr @ [HostEv q (host_srv E tr q)])"
  by (simp add: host_do_def host_call_eq)

lemma host_do_None: "host_do E q tr = (None, tr') \<Longrightarrow> \<exists>a. tr' = tr @ [HostEv q (Inr a)]"
  by (auto simp: host_do_eq split: sum.splits)

lemma host_steps_None:
  "host_steps E qs tr = (None, tr') \<Longrightarrow> \<exists>evs. tr' = tr @ evs \<and> did evs (List.map snd qs)"
proof (induction E qs tr rule: host_steps.induct)
  case (2 E msg q qs tr)
  then obtain a where a: "host_srv E tr q = Inr a" by (auto simp: host_do_eq split: sum.splits)
  with 2 obtain evs where "tr' = (tr @ [HostEv q (Inr a)]) @ evs" "did evs (List.map snd qs)"
    by (force simp: host_do_eq)
  then show ?case by (intro exI [of _ "HostEv q (Inr a) # evs"]) simp
qed (simp add: exI [of _ "[]"])

subsection \<open>The contract of \<open>VethCtrl\<close>\<close>

named_theorems host_ops \<open>operations that ask only the host\<close>

lemma host_do_only [host_ops]: "host_only tr (snd (host_do E q tr))"
  by (simp add: host_do_eq)

lemma host_steps_only [host_ops]: "host_only tr (snd (host_steps E qs tr))"
proof (induction E qs tr rule: host_steps.induct)
  case (2 E msg q qs tr)
  show ?case
  proof (cases "host_srv E tr q")
    case (Inr a)
    have "host_only tr (tr @ [HostEv q (Inr a)])" by simp
    also have "host_only (tr @ [HostEv q (Inr a)]) (snd (host_steps E qs (tr @ [HostEv q (Inr a)])))"
      using 2 Inr by (simp add: host_do_eq)
    finally show ?thesis using Inr by (simp add: host_do_eq)
  qed (simp add: host_do_eq)
qed simp

lemma add_routes_only [host_ops]: "host_only tr (snd (add_routes E rs tr))"
proof (induction E rs tr rule: add_routes.induct)
  case (3 E r rs tr)
  show ?case
  proof (cases "host_srv E tr (route_add r)")
    case (Inr a)
    have "host_only tr (tr @ [HostEv (route_add r) (Inr a)])" by simp
    also have "host_only (tr @ [HostEv (route_add r) (Inr a)]) (snd (add_routes E rs (tr @ [HostEv (route_add r) (Inr a)])))"
      if "\<not> length (ParseIP (rc_NetMask r)) < 16"
      using 3 Inr that by (simp add: host_do_eq del: ParseIP.simps)
    finally show ?thesis using Inr by (simp add: host_do_eq del: ParseIP.simps)
  qed (simp add: host_do_eq del: ParseIP.simps)
qed simp_all

text \<open>Two operations one after the other.\<close>

lemma host_only_bind:
  "host_only tr (snd p) \<Longrightarrow> (\<And>x t. p = (x, t) \<Longrightarrow> host_only t (snd (f x t))) \<Longrightarrow> host_only tr (snd (case p of (x, t) \<Rightarrow> f x t))"
  by (cases p) (auto intro: host_only_trans)

lemma exec_twice_only [host_ops]: "host_only tr (snd (exec_twice E cmd tr))"
  unfolding exec_twice_def by (rule host_only_bind) (auto simp: host_ops split: option.split)

lemma shell_only: "host_only tr (snd (shell_DoNetworking E args conf r tr))"
  unfolding shell_DoNetworking_def ExecCreateBr_def ExecBindingIP_def
  by (rule host_only_bind, rule host_ops)
    (auto split: option.split intro!: host_only_bind host_ops)

lemma link_netns_only [host_ops]: "host_only tr (link_netns E args tr)"
  by (auto simp: link_netns_def host_do_eq Let_def split: sum.split)

lemma move_eth0_only [host_ops]: "host_only tr (snd (move_eth0 E tr))"
  unfolding move_eth0_def
  by (rule host_only_bind, rule host_ops) (auto simp: host_ops simp del: host_steps.simps split: option.split)

lemma create_veth_only [host_ops]: "host_only tr (snd (create_veth E args conf tr))"
  by (simp only: create_veth_def Let_def host_ops)

lemma config_eth0_only [host_ops]: "host_only tr (snd (config_eth0 E conf ip4 tr))"
  unfolding config_eth0_def by (rule host_only_bind, rule host_ops) (auto split: option.split intro!: host_only_bind host_ops)

lemma in_netns_only [host_ops]: "host_only tr (snd (in_netns E args conf r tr))"
  unfolding in_netns_def
  by (rule host_only_bind, rule host_ops)
    (auto split: option.split outcome.split intro!: host_only_bind host_ops)

lemma WithNetNSPath_only:
  "(\<And>t. host_only t (snd (f t))) \<Longrightarrow> host_only tr (snd (WithNetNSPath E path f tr))"
  unfolding WithNetNSPath_def
  by (rule host_only_bind, rule host_ops) (auto split: option.split outcome.split intro!: host_only_bind host_ops)

lemma inner_only: "host_only tr (snd (inner_DoNetworking E args conf r tr))"
proof -
  have "host_only (link_netns E args tr) (snd (inner_DoNetworking E args conf r tr))"
    unfolding inner_DoNetworking_def Let_def
    by (rule host_only_bind, rule WithNetNSPath_only, rule host_ops)
      (auto split: option.split outcome.split intro!: host_only_bind host_ops)
  with link_netns_only show ?thesis by (rule host_only_trans)
qed

locale veth_ctrl =
  fixes net :: "env \<Rightarrow> CmdArgs \<Rightarrow> Options \<Rightarrow> Result \<Rightarrow> history \<Rightarrow> unit outcome \<times> history"
  assumes net_only: "host_only tr (snd (net E args conf r tr))"
begin

lemma net_extends: "net E args conf r tr = (res, tr') \<Longrightarrow> \<exists>evs. tr' = tr @ evs \<and> list_all is_host evs"
  using net_only [of tr E args conf r] by (simp add: host_only_def)

text \<open>So nothing is made at the MidoNet API, and etcd is not asked.\<close>

lemma net_outstanding: "net E args conf r tr = (res, tr') \<Longrightarrow> outstanding tr' = outstanding tr"
proof -
  have "fold account evs s = s" if "list_all is_host evs" for evs s
    using that by (induction evs arbitrary: s) (auto simp: is_host_def account_def split: event.splits)
  moreover assume "net E args conf r tr = (res, tr')"
  ultimately show ?thesis using net_extends by fastforce
qed

lemma net_keeps_etcd: "net E args conf r tr = (res, tr') \<Longrightarrow> filter is_etcd tr' = filter is_etcd tr"
proof -
  have "filter is_etcd evs = []" if "list_all is_host evs" for evs
    using that by (induction evs) (auto simp: is_host_def is_etcd_def split: event.splits)
  moreover assume "net E args conf r tr = (res, tr')"
  ultimately show ?thesis using net_extends by fastforce
qed

end

interpretation shell_ctrl: veth_ctrl shell_DoNetworking
  by unfold_locales (rule shell_only)

interpretation inner_ctrl: veth_ctrl inner_DoNetworking
  by unfold_locales (rule inner_only)

interpretation any_ctrl: veth_ctrl "DoNetworking c" for c
proof
  show "host_only tr (snd (DoNetworking c E args conf r tr))" for tr E args conf r
    by (cases c) (simp_all add: shell_ctrl.net_only inner_ctrl.net_only)
qed

subsection \<open>A successful run of \<open>InnerVethCtrl\<close>\<close>

lemma did_one: "did evs [q] \<longleftrightarrow> (\<exists>a. evs = [HostEv q (Inr a)])"
  by (auto simp: did_def list_all2_Cons2)

lemma add_routes_Ok:
  "add_routes E rs tr = (Ok x, tr') \<Longrightarrow>
   \<exists>evs. tr' = tr @ evs \<and> None \<notin> set rs \<and> did evs (List.map route_add (List.map the rs))"
proof (induction E rs tr rule: add_routes.induct)
  case (3 E r rs tr)
  then obtain a where a: "host_srv E tr (route_add r) = Inr a" "\<not> length (ParseIP (rc_NetMask r)) < 16"
    by (auto simp: host_do_eq simp del: ParseIP.simps split: sum.splits if_splits)
  let ?e = "HostEv (route_add r) (Inr a)"
  from 3 a have "\<exists>evs. tr' = (tr @ [?e]) @ evs \<and> None \<notin> set rs \<and> did evs (List.map route_add (List.map the rs))"
    by (simp add: host_do_eq del: ParseIP.simps)
  then obtain evs where "tr' = (tr @ [?e]) @ evs" "None \<notin> set rs" "did evs (List.map route_add (List.map the rs))"
    by blast
  then show ?case by (intro exI [of _ "?e # evs"]) simp
qed (simp_all add: exI [of _ "[]"])

lemma config_eth0_Ok:
  assumes "config_eth0 E conf ip4 tr = (Ok x, tr')"
  shows "\<exists>a d evs. tr' = tr @ [HostEv (AddrAdd ''eth0'' (ic_IP ip4)) (Inr a), HostEv (RouteDel default_net) d] @ evs
    \<and> None \<notin> set (im_Route (op_IPAM conf))
    \<and> did evs (AddDefaultRoute (ic_Gateway ip4) ''eth0'' # List.map route_add (List.map the (im_Route (op_IPAM conf))))"
proof -
  obtain a where a: "host_srv E tr (AddrAdd ''eth0'' (ic_IP ip4)) = Inr a"
    using assms by (auto simp: config_eth0_def host_do_eq split: sum.splits)
  let ?t1 = "tr @ [HostEv (AddrAdd ''eth0'' (ic_IP ip4)) (Inr a)]"
  let ?t2 = "?t1 @ [HostEv (RouteDel default_net) (host_srv E ?t1 (RouteDel default_net))]"
  obtain g where g: "host_srv E ?t2 (AddDefaultRoute (ic_Gateway ip4) ''eth0'') = Inr g"
    using assms a by (auto simp: config_eth0_def host_do_eq split: sum.splits)
  let ?t3 = "?t2 @ [HostEv (AddDefaultRoute (ic_Gateway ip4) ''eth0'') (Inr g)]"
  have "add_routes E (im_Route (op_IPAM conf)) ?t3 = (Ok x, tr')"
    using assms a g by (simp add: config_eth0_def host_do_eq)
  from add_routes_Ok [OF this] obtain evs where "tr' = ?t3 @ evs" "None \<notin> set (im_Route (op_IPAM conf))"
    "did evs (List.map route_add (List.map the (im_Route (op_IPAM conf))))" by blast
  then show ?thesis
    by (intro exI [of _ a] exI [of _ "host_srv E ?t1 (RouteDel default_net)"]
        exI [of _ "HostEv (AddDefaultRoute (ic_Gateway ip4) ''eth0'') (Inr g) # evs"]) simp
qed

lemma move_eth0_None:
  assumes "move_eth0 E tr = (None, tr')"
  shows "\<exists>evs. tr' = tr @ evs \<and> ((\<exists>e. evs = [HostEv (LinkByName ''eth0'') (Inl e)]) \<or>
    did evs [LinkByName ''eth0'', LinkSetDown ''eth0'', LinkSetName ''eth0'' ''eth1'', LinkByName ''eth1'', LinkSetUp ''eth1''])"
proof (cases "host_srv E tr (LinkByName ''eth0'')")
  case (Inl e)
  with assms show ?thesis by (auto simp: move_eth0_def host_do_eq)
next
  case (Inr a)
  let ?e = "HostEv (LinkByName ''eth0'') (Inr a)"
  from assms Inr have "host_steps E [([], LinkSetDown ''eth0''), ([], LinkSetName ''eth0'' ''eth1''), ([], LinkByName ''eth1''),
      ([], LinkSetUp ''eth1'')] (tr @ [?e]) = (None, tr')"
    by (simp add: move_eth0_def host_do_eq del: host_steps.simps)
  from host_steps_None [OF this] obtain evs where "tr' = (tr @ [?e]) @ evs"
    "did evs [LinkSetDown ''eth0'', LinkSetName ''eth0'' ''eth1'', LinkByName ''eth1'', LinkSetUp ''eth1'']" by auto
  then show ?thesis by (intro exI [of _ "?e # evs"]) simp
qed

text \<open>
  The requests in the container's namespace: the new pair of devices, the address, the
  routes, and the move of the host's end.
\<close>

definition veth_requests :: "CmdArgs \<Rightarrow> Options \<Rightarrow> IPConfig \<Rightarrow> host_req list \<times> host_req list" where
  "veth_requests args conf ip4 =
     ([LinkAddVeth ''eth0'' (hostVethName args) (op_MTU conf), LinkByName (hostVethName args),
       LinkSetUp (hostVethName args), LinkByName ''eth0'', AddrAdd ''eth0'' (ic_IP ip4)],
      AddDefaultRoute (ic_Gateway ip4) ''eth0'' # List.map route_add (List.map the (im_Route (op_IPAM conf)))
        @ [LinkSetNs (hostVethName args)])"

lemma in_netns_Ok:
  assumes "in_netns E args conf r tr = (Ok x, tr')" and ip4: "cr_IP4 r = Some ip4"
  shows "\<exists>old new d more. tr' = tr @ old @ new @ [HostEv (RouteDel default_net) d] @ more
    \<and> ((\<exists>e. old = [HostEv (LinkByName ''eth0'') (Inl e)]) \<or>
       did old [LinkByName ''eth0'', LinkSetDown ''eth0'', LinkSetName ''eth0'' ''eth1'', LinkByName ''eth1'', LinkSetUp ''eth1''])
    \<and> did new (fst (veth_requests args conf ip4)) \<and> did more (snd (veth_requests args conf ip4))
    \<and> None \<notin> set (im_Route (op_IPAM conf))"
proof -
  obtain e1 t1 where m: "move_eth0 E tr = (e1, t1)" by fastforce
  obtain e2 t2 where c: "create_veth E args conf t1 = (e2, t2)" by fastforce
  obtain res t3 where a: "config_eth0 E conf ip4 t2 = (res, t3)" by fastforce
  note run = assms(1) [unfolded in_netns_def m prod.case]
  from run c have n: "e1 = None" "e2 = None" by (auto split: option.splits)
  note run = run [unfolded n c prod.case option.case ip4 a]
  from run obtain y where y: "res = Ok y" by (cases res) auto
  from run y obtain s where s: "tr' = t3 @ [HostEv (LinkSetNs (hostVethName args)) (Inr s)]"
    by (auto simp: host_do_eq split: sum.splits)
  from move_eth0_None m n obtain old where old: "t1 = tr @ old" "(\<exists>e. old = [HostEv (LinkByName ''eth0'') (Inl e)]) \<or>
       did old [LinkByName ''eth0'', LinkSetDown ''eth0'', LinkSetName ''eth0'' ''eth1'', LinkByName ''eth1'', LinkSetUp ''eth1'']"
    by blast
  from c n have "create_veth E args conf t1 = (None, t2)" by simp
  from host_steps_None [OF this [unfolded create_veth_def Let_def]] obtain new where
    new: "t2 = t1 @ new" "did new [LinkAddVeth ''eth0'' (hostVethName args) (op_MTU conf), LinkByName (hostVethName args),
       LinkSetUp (hostVethName args), LinkByName ''eth0'']" by auto
  from config_eth0_Ok a y obtain ad d more where more: "t3 = t2 @ [HostEv (AddrAdd ''eth0'' (ic_IP ip4)) (Inr ad),
      HostEv (RouteDel default_net) d] @ more" "None \<notin> set (im_Route (op_IPAM conf))"
    "did more (AddDefaultRoute (ic_Gateway ip4) ''eth0'' # List.map route_add (List.map the (im_Route (op_IPAM conf))))"
    by blast
  have "did (new @ [HostEv (AddrAdd ''eth0'' (ic_IP ip4)) (Inr ad)]) (fst (veth_requests args conf ip4))"
    using did_append [OF new(2), of "[HostEv (AddrAdd ''eth0'' (ic_IP ip4)) (Inr ad)]" "[AddrAdd ''eth0'' (ic_IP ip4)]"]
    by (simp add: veth_requests_def)
  moreover have "did (more @ [HostEv (LinkSetNs (hostVethName args)) (Inr s)]) (snd (veth_requests args conf ip4))"
    using did_append [OF more(3), of "[HostEv (LinkSetNs (hostVethName args)) (Inr s)]" "[LinkSetNs (hostVethName args)]"]
    by (simp add: veth_requests_def)
  moreover have "tr' = tr @ old @ (new @ [HostEv (AddrAdd ''eth0'' (ic_IP ip4)) (Inr ad)])
      @ [HostEv (RouteDel default_net) d] @ (more @ [HostEv (LinkSetNs (hostVethName args)) (Inr s)])"
    using s more(1) new(1) old(1) by simp
  ultimately show ?thesis using old(2) more(2) by blast
qed


text \<open>A host that does everything, and a container with an address and one route.\<close>

definition good_host :: env where
  "good_host = silent_env\<lparr>host_srv := \<lambda>_ _. Inr []\<rparr>"

definition sample_args :: CmdArgs where
  "sample_args = \<lparr>ca_ContainerID = ''0123456789abcdef'', ca_Netns = ''/proc/42/ns/net'', ca_IfName = ''eth0'',
     ca_Args = ''K8S_POD_NAMESPACE=t1;K8S_POD_INFRA_CONTAINER_ID=c1'', ca_Path = ''/opt/cni/bin'', ca_StdinData = []\<rparr>"

definition sample_ip4 :: IPConfig where
  "sample_ip4 = \<lparr>ic_IP = \<lparr>IPNet_IP = v4InV6Prefix @ [10, 0, 0, 2], IPNet_Mask = CIDRMask 24 32\<rparr>,
     ic_Gateway = v4InV6Prefix @ [10, 0, 0, 254]\<rparr>"

definition sample_result :: Result where
  "sample_result = \<lparr>cr_CNIVersion = ''0.2.0'', cr_IP4 = Some sample_ip4, cr_IP6 = None\<rparr>"

definition routed_conf :: Options where
  "routed_conf = Options_zero\<lparr>op_MTU := 1454,
     op_IPAM := (op_IPAM Options_zero)\<lparr>im_Route := [Some \<lparr>rc_Net = dotted [10, 1, 0, 0], rc_NetMask = dotted [255, 255, 0, 0], rc_GW = dotted [10, 0, 0, 1]\<rparr>]\<rparr>\<rparr>"

lemma inner_good_host: "\<exists>tr'. inner_DoNetworking good_host sample_args routed_conf sample_result tr = (Ok (), tr')"
proof -
  have d: "host_do good_host q t = (None, t @ [HostEv q (Inr [])])" for q t
    by (simp add: host_do_eq good_host_def)
  have m: "length (ParseIP (dotted [255, 255, 0, 0])) = 16"
    by (simp add: ParseIP_dotted v4InV6Prefix_def del: ParseIP.simps)
  have h: "host_steps good_host qs t = (None, t @ List.map (\<lambda>(_, q). HostEv q (Inr [])) qs)" for qs t
    by (induction qs arbitrary: t) (auto simp: d)
  note step = d h Let_def option.case outcome.case prod.case
  let ?t0 = "link_netns good_host sample_args tr @ [HostEv (EnterNetns (ca_Netns sample_args)) (Inr [])]"
  obtain t1 where 1: "move_eth0 good_host ?t0 = (None, t1)" unfolding move_eth0_def step by blast
  obtain t2 where 2: "create_veth good_host sample_args routed_conf t1 = (None, t2)" unfolding create_veth_def step by blast
  obtain t3 where 3: "config_eth0 good_host routed_conf sample_ip4 t2 = (Ok (), t3)"
    unfolding config_eth0_def step by (simp add: routed_conf_def d m del: ParseIP.simps)
  have "cr_IP4 sample_result = Some sample_ip4" by (simp add: sample_result_def)
  then obtain t4 where 4: "in_netns good_host sample_args routed_conf sample_result ?t0 = (Ok (), t4)"
    by (simp add: in_netns_def 1 2 3 step del: host_steps.simps)
  show ?thesis
    by (simp add: inner_DoNetworking_def WithNetNSPath_def 4 step del: host_steps.simps)
qed


end
