(* ===== verification/Growth.thy ===== *)
theory Growth
  imports Midonet EtcdTraffic
begin

text \<open>
  Every operation only appends to the history: what was exchanged before it stays what it
  was. The lemmas are collected in \<open>grows\<close>.
\<close>

lemma etcd_only_prefix: "etcd_only tr tr' \<Longrightarrow> prefix tr tr'"
  by (auto simp: etcd_only_def)

lemma prefix_snoc_trans: "prefix a b \<Longrightarrow> prefix a (b @ c)"
  by (simp add: prefix_prefix)

lemmas traffic = GetRouterIP_etcd CreateIPs_etcd ReleaseRouterIP_etcd with_lock_etcd

subsection \<open>The client\<close>

lemma etcd_call_grows: "prefix tr (snd (etcd_call E q tr))"
  by simp

lemma mido_call_grows: "mido_call E q tr = (a, tr') \<Longrightarrow> prefix tr tr'"
  by (auto simp: mido_call_eq)

lemma send_grows: "send E q tr = (r, tr') \<Longrightarrow> prefix tr tr'"
  by (auto simp: send_def mido_call_eq split: sum.splits if_splits)

lemma CreateUUID_grows: "CreateUUID E tr = (u, tr') \<Longrightarrow> prefix tr tr'"
  by (auto simp: CreateUUID_def Let_def)

lemma fresh_id_grows: "fresh_id E i tr = (u, tr') \<Longrightarrow> prefix tr tr'"
  by (auto simp: fresh_id_def dest: CreateUUID_grows split: option.splits)

lemmas basic_grows = send_grows CreateUUID_grows fresh_id_grows mido_call_grows
lemmas splits = prod.splits option.splits sum.splits if_splits outcome.splits

lemma create_grows:
  "CreateBridge E b tr = (r1, tr') \<Longrightarrow> prefix tr tr'"
  "CreateBridgePort E p tr = (r2, tr') \<Longrightarrow> prefix tr tr'"
  "CreateRouterPort E q tr = (r3, tr') \<Longrightarrow> prefix tr tr'"
  "CreatePortLink E l tr = (r4, tr') \<Longrightarrow> prefix tr tr'"
  "CreateRouter E ro tr = (r5, tr') \<Longrightarrow> prefix tr tr'"
  "CreateRoute E rt tr = (r6, tr') \<Longrightarrow> prefix tr tr'"
  "CreateChain E c tr = (r7, tr') \<Longrightarrow> prefix tr tr'"
  "CreateRule E ru tr = (r8, tr') \<Longrightarrow> prefix tr tr'"
  "BindingInterface E h tr = (r9, tr') \<Longrightarrow> prefix tr tr'"
  by (auto simp: CreateBridge_def CreateBridgePort_def CreateRouterPort_def CreatePortLink_def CreateRouter_def
      CreateRoute_def CreateChain_def CreateRule_def BindingInterface_def Let_def
      split: splits dest!: basic_grows elim: prefix_order.trans)

lemma snd_send_grows: "prefix tr (snd (send E q tr))"
  using send_grows [of E q tr] by (cases "send E q tr") simp

lemma delete_grows:
  "prefix tr (snd (DeleteBridges E i tr))" "prefix tr (snd (DeletePort E i tr))"
  "prefix tr (snd (DeletePortLink E i tr))" "prefix tr (snd (DeleteRouter E i tr))"
  "prefix tr (snd (DeleteRoute E c j i tr))" "prefix tr (snd (DeleteChain E i tr))"
  "prefix tr (snd (DeleteRule E i tr))" "prefix tr (snd (DeleteBinding E h tr))"
  by (simp_all add: DeleteBridges_def DeletePort_def DeletePortLink_def DeleteRouter_def DeleteRoute_def DeleteChain_def
      DeleteRule_def DeleteBinding_def snd_send_grows split: option.split sum.split prod.split)

lemma undo_grows:
  assumes "list_all (\<lambda>op. \<forall>t. prefix t (snd (op t))) ops"
  shows "prefix tr (undo ops tr)"
  using assms by (induction ops arbitrary: tr) (auto simp: undo_def intro: prefix_order.trans)

lemma undo_net_grows: "prefix tr (undo (undo_net E nw) tr)" "prefix tr (undo (undo_chains E a b r) tr)"
  by (rule undo_grows; simp add: undo_net_def undo_chains_def delete_grows)+

subsection \<open>The stages of \<open>initNetwork\<close>\<close>

lemma createRouterPort_grows: "createRouterPort E ip i tr = (r, tr') \<Longrightarrow> prefix tr tr'"
  by (auto simp: createRouterPort_def Let_def split: splits dest!: create_grows)

lemma undo_list_grows: "prefix a b \<Longrightarrow> list_all (\<lambda>op. \<forall>t. prefix t (snd (op t))) ops \<Longrightarrow> prefix a (undo ops b)"
  using undo_grows prefix_order.trans by blast

lemma CreateDefaultRoute_grows: "CreateDefaultRoute E m l r ro pr t tr = (res, tr') \<Longrightarrow> prefix tr tr'"
  by (auto simp: CreateDefaultRoute_def Let_def delete_grows split: splits dest!: basic_grows create_grows
      intro: undo_list_grows prefix_snoc_trans elim: prefix_order.trans)

lemma CreateDefaultRule_grows: "CreateDefaultRule E l ro tr = (res, tr') \<Longrightarrow> prefix tr tr'"
  by (auto simp: CreateDefaultRule_def delete_grows split: splits dest!: create_grows
      intro: undo_list_grows prefix_snoc_trans elim: prefix_order.trans)

lemma CreateBridgeLinkRouter_grows: "CreateBridgeLinkRouter E b ro iprange tr = (res, tr') \<Longrightarrow> prefix tr tr'"
  by (auto simp: CreateBridgeLinkRouter_def Let_def delete_grows split: splits
      dest!: createRouterPort_grows create_grows intro: undo_list_grows elim: prefix_order.trans)

lemma create_chains_grows: "create_chains E t tr = (r, tr') \<Longrightarrow> prefix tr tr'"
  by (auto simp: create_chains_def delete_grows split: splits dest!: basic_grows create_grows
      intro: undo_list_grows elim: prefix_order.trans)

lemma create_router_grows: "create_router E t a b tr = (r, tr') \<Longrightarrow> prefix tr tr'"
  by (auto simp: create_router_def delete_grows split: splits dest!: create_grows intro: undo_list_grows)

lemma link_addresses_grows: "link_addresses E m tr = Some (r, tr') \<Longrightarrow> prefix tr tr'"
  by (auto simp: link_addresses_def dest!: GetRouterIP_etcd etcd_only_prefix split: splits bind_splits)

lemma create_link_grows: "create_link E a b r ip0 ip1 p tr = (res, tr') \<Longrightarrow> prefix tr tr'"
  by (auto simp: create_link_def delete_grows undo_chains_def split: splits dest!: createRouterPort_grows create_grows
      intro: undo_list_grows elim: prefix_order.trans)

lemma create_routes_grows: "create_routes E m t nw p tr = (res, tr') \<Longrightarrow> prefix tr tr'"
  by (auto simp: create_routes_def split: splits dest!: CreateDefaultRoute_grows CreateDefaultRule_grows
      intro: prefix_order.trans undo_net_grows)

lemma first_bridge_grows: "first_bridge E m t nw tr = Some (res, tr') \<Longrightarrow> prefix tr tr'"
proof -
  assume f: "first_bridge E m t nw tr = Some (res, tr')"
  have "prefix a (undo (DeleteBridges E i # undo_net E nw) a)" for a i
    by (rule undo_grows) (simp add: undo_net_def undo_chains_def delete_grows)
  with f undo_net_grows(1) [of _ E nw] show ?thesis
    by (auto simp: first_bridge_def split: splits bind_splits
      dest!: CreateUUID_grows create_grows CreateBridgeLinkRouter_grows CreateIPs_etcd etcd_only_prefix)
      (meson prefix_order.trans)+
qed

lemma save_network_grows: "save_network E t nw b tr = (res, tr') \<Longrightarrow> prefix tr tr'"
  by (auto simp: save_network_def Let_def etcd_call_eq split: splits
      intro: prefix_order.trans [OF _ undo_net_grows(1)])

lemma finish_network_grows: "finish_network E m t nw p tr = Some (res, tr') \<Longrightarrow> prefix tr tr'"
  by (auto simp: finish_network_def split: splits bind_splits
      dest!: create_routes_grows first_bridge_grows save_network_grows elim: prefix_order.trans)

lemma initNetwork_grows: "initNetwork E m t tr = Some (res, tr') \<Longrightarrow> prefix tr tr'"
  by (auto simp: initNetwork_def connect_router_def split: splits bind_splits
      dest!: create_chains_grows create_router_grows link_addresses_grows create_link_grows finish_network_grows
      elim: prefix_order.trans)

subsection \<open>The operations on tenants and bindings\<close>

lemma with_lock_grows:
  assumes "with_lock E key nf lf body tr = Some (res, tr')"
    and "\<And>t r t'. body t = Some (r, t') \<Longrightarrow> prefix t t'"
  shows "prefix tr tr'"
  using assms(1)
proof (cases rule: with_lock_cases)
  case (ran pre t post)
  from assms(2) [OF ran(2)] ran(3) show ?thesis
    by (meson prefixI prefix_order.trans prefix_prefix)
qed simp

lemma init_body_grows:
  assumes "init_body E m t retry tr = Some (res, tr')"
    and "\<And>tr res tr'. retry tr = Some (res, tr') \<Longrightarrow> prefix tr tr'"
  shows "prefix tr tr'"
  using assms(1)
  by (auto simp: init_body_def etcd_call_eq split: splits bind_splits dest!: initNetwork_grows assms(2)
      dest: append_prefixD intro: prefix_snoc_trans intro: prefix_order.trans)

lemma InitTenant_grows:
  assumes "InitTenant E m t tr = Some (res, tr')"
  shows "prefix tr tr'"
proof -
  have "prefix tr (snd (res, tr'))"
  proof (rule InitTenant.raw_induct [where P = "\<lambda>_ _ _ tr r. prefix tr (snd r)", OF _ assms], goal_cases)
    case (1 f E m t tr r)
    then show ?case
      by (cases r) (fastforce split: if_splits elim!: with_lock_grows dest!: init_body_grows)
  qed
  then show ?thesis by simp
qed

end
