(* ===== verification/MidonetProps.thy ===== *)
theory MidonetProps
  imports Resources Growth
begin

text \<open>
  What the MidoNet manager guarantees: what is left behind when building a tenant's network
  fails, what is there when it succeeds, and how its operations keep the tenant, the
  bindings and the bridge in etcd.
\<close>

subsection \<open>Building a network\<close>

text \<open>
  What is made from the link on: two routes, three rules, the bridge \<open>z\<close>, and the two ports
  and the route that link it to the router.
\<close>

definition built :: "resource set \<Rightarrow> UUID \<Rightarrow> bool" where
  "built L z \<longleftrightarrow> (\<exists>x y f g h k l r. L = {RRoute x, RRoute y, RRule f, RRule g, RRule h, RPort k, RPort l, RRoute r, RBridge z})"

definition leak :: "resource set \<Rightarrow> bool" where
  "leak L \<longleftrightarrow> (\<exists>B z. built B z \<and> L \<subseteq> B)"

lemma leak_subset: "L \<subseteq> {RRoute x, RRoute y, RRule f, RRule g, RRule h, RPort k, RPort l, RRoute r, RBridge z} \<Longrightarrow> leak L"
  unfolding leak_def built_def by blast

lemma leak_empty: "leak {}"
  by (rule leak_subset) simp

definition usage_saved :: "string \<Rightarrow> UUID \<Rightarrow> history \<Rightarrow> bool" where
  "usage_saved tenantID z tr \<longleftrightarrow>
     (\<exists>pre ans. tr = pre @ [EtcdEv (KeysSet (tenant_key tenantID ''/bridge/usage'') (UUID_String z) False 0) (Inr ans)])"

lemma finish_network_outstanding:
  assumes "finish_network E m tenant nw provider tr = Some (res, tr')" and nw: "net_ids nw u v w p q"
  shows "case res of
      Ok _ \<Rightarrow> \<exists>B z. built B z \<and> outstanding tr' = outstanding tr \<union> B \<and> usage_saved (tn_ID tenant) z tr'
    | Err e \<Rightarrow> \<exists>L. leak L \<and> outstanding tr' \<subseteq> (outstanding tr \<union> L) - {RPort p, RPort q, RChain u, RChain v, RRouter w}
    | Panic \<Rightarrow> True"
proof -
  let ?N = "{RPort p, RPort q, RChain u, RChain v, RRouter w}"
  obtain err t1 where ro: "create_routes E m tenant nw provider tr = (err, t1)" by fastforce
  note RO = create_routes_outstanding [OF ro nw]
  show ?thesis
  proof (cases err)
    case (Some e)
    with assms(1) ro have "res = Err e" "tr' = t1" by (simp_all add: finish_network_def)
    moreover from Some RO obtain x y where "outstanding t1 \<subseteq> (outstanding tr \<union> {RRoute x, RRoute y}) - ?N" by auto
    moreover have "leak {RRoute x, RRoute y}" for x y by (rule leak_subset) blast
    ultimately show ?thesis by (simp only: outcome.case) blast
  next
    case None
    with RO obtain x y f g h where t1: "outstanding t1 = outstanding tr \<union> {RRoute x, RRoute y, RRule f, RRule g, RRule h}"
      by auto
    from assms(1) ro None obtain br t2 where b: "first_bridge E m tenant nw t1 = Some (br, t2)"
      by (auto simp: finish_network_def split: bind_splits)
    note B = first_bridge_outstanding [OF b nw]
    show ?thesis
    proof (cases br)
      case (Err e)
      with B obtain z where "outstanding t2 \<subseteq> (outstanding t1 \<union> {RBridge z}) - ?N" by auto
      with t1 have "outstanding t2 \<subseteq> (outstanding tr \<union> {RRoute x, RRoute y, RRule f, RRule g, RRule h, RBridge z}) - ?N"
        by auto
      moreover have "leak {RRoute x, RRoute y, RRule f, RRule g, RRule h, RBridge z}" by (rule leak_subset) blast
      moreover from Err assms(1) ro None b have "res = Err e" "tr' = t2" by (simp_all add: finish_network_def)
      ultimately show ?thesis by (simp only: outcome.case) blast
    next
      case Panic
      with assms(1) ro None b show ?thesis by (simp add: finish_network_def)
    next
      case (Ok bridge)
      with B obtain z k l r where z: "br_ID bridge = Some z"
        and t2: "outstanding t2 = outstanding t1 \<union> {RPort k, RPort l, RRoute r, RBridge z}" by auto
      let ?B = "{RRoute x, RRoute y, RRule f, RRule g, RRule h, RPort k, RPort l, RRoute r, RBridge z}"
      have B: "built ?B z" unfolding built_def by blast
      have t2': "outstanding t2 = outstanding tr \<union> ?B" using t1 t2 by auto
      from assms(1) ro None b Ok have "save_network E tenant nw bridge t2 = (res, tr')"
        by (simp add: finish_network_def)
      from save_network_outstanding [OF this nw z] show ?thesis
      proof (elim disjE exE conjE)
        fix e assume "res = Err e" "outstanding tr' = outstanding t2 - ?N"
        moreover have "leak ?B" by (rule leak_subset) (rule order.refl)
        ultimately show ?thesis unfolding t2' by (simp only: outcome.case) blast
      next
        fix pre a assume "res = Ok ()" "outstanding tr' = outstanding t2" "tr' = pre @ [EtcdEv (KeysSet
            (tenant_key (tn_ID tenant) ''/bridge/usage'') (UUID_String z) False 0) (Inr a)]"
        with B t2' show ?thesis unfolding usage_saved_def by (simp only: outcome.case) blast
      qed
    qed
  qed
qed

lemma connect_router_outstanding:
  assumes "connect_router E m tenant a b router tr = Some (res, tr')"
    and ids: "ch_ID a = Some u" "ch_ID b = Some v" "ro_ID router = Some w"
  shows "case res of
      Ok _ \<Rightarrow> \<exists>B z p q. built B z \<and> outstanding tr' = outstanding tr \<union> {RPort p, RPort q} \<union> B \<and> usage_saved (tn_ID tenant) z tr'
    | Err e \<Rightarrow> outstanding tr' = outstanding tr \<or>
        (\<exists>L. leak L \<and> outstanding tr' \<subseteq> (outstanding tr \<union> L) - {RChain u, RChain v, RRouter w})
    | Panic \<Rightarrow> True"
proof -
  from assms(1) obtain addr t1 where ad: "link_addresses E m tr = Some (addr, t1)"
    by (auto simp: connect_router_def split: bind_splits)
  have t1: "outstanding t1 = outstanding tr" using link_addresses_etcd [OF ad] by (rule outstanding_etcd)
  show ?thesis
  proof (cases addr)
    case (Ok ads)
    obtain ip0 ip1 provider where ads: "ads = (ip0, ip1, provider)" by (cases ads) auto
    obtain ls t2 where l: "create_link E a b router ip0 ip1 provider t1 = (ls, t2)" by fastforce
    note L = create_link_outstanding [OF l ids]
    show ?thesis
    proof (cases ls)
      case (Inl e)
      with assms(1) ad Ok ads l have "res = Err e" "tr' = t2" by (simp_all add: connect_router_def)
      moreover from Inl L t1 have "outstanding t2 \<subseteq> (outstanding tr \<union> {}) - {RChain u, RChain v, RRouter w}" by simp
      ultimately show ?thesis using leak_empty by (simp only: outcome.case) blast
    next
      case (Inr nw)
      with L t1 obtain p q where nw: "net_ids nw u v w p q" and t2: "outstanding t2 = outstanding tr \<union> {RPort p, RPort q}" by auto
      from assms(1) ad Ok ads l Inr have f: "finish_network E m tenant nw provider t2 = Some (res, tr')"
        by (simp add: connect_router_def)
      note F = finish_network_outstanding [OF f nw]
      show ?thesis
      proof (cases res)
        case (Err e)
        with F obtain M where "leak M" "outstanding tr' \<subseteq> (outstanding t2 \<union> M) - {RPort p, RPort q, RChain u, RChain v, RRouter w}"
          by auto
        moreover from this t2 have "outstanding tr' \<subseteq> (outstanding tr \<union> M) - {RChain u, RChain v, RRouter w}" by auto
        ultimately show ?thesis unfolding Err outcome.case by blast
      next
        case (Ok x)
        with F obtain B z where "built B z" "outstanding tr' = outstanding t2 \<union> B" "usage_saved (tn_ID tenant) z tr'" by auto
        then have "built B z \<and> outstanding tr' = outstanding tr \<union> {RPort p, RPort q} \<union> B \<and> usage_saved (tn_ID tenant) z tr'"
          by (simp only: t2)
        then show ?thesis unfolding Ok outcome.case by (intro exI)
      qed simp
    qed
  next
    case (Err e)
    with assms(1) ad t1 show ?thesis by (auto simp: connect_router_def)
  next
    case Panic
    with assms(1) ad show ?thesis by (simp add: connect_router_def)
  qed
qed


lemma initNetwork_outstanding:
  assumes "initNetwork E m tenant tr = Some (res, tr')"
  shows "case res of
      Ok _ \<Rightarrow> \<exists>a b c p q B z. built B z
        \<and> outstanding tr' = outstanding tr \<union> {RChain a, RChain b, RRouter c} \<union> {RPort p, RPort q} \<union> B
        \<and> usage_saved (tn_ID tenant) z tr'
    | Err e \<Rightarrow> (\<exists>a b c. outstanding tr' = outstanding tr \<union> {RChain a, RChain b, RRouter c}) \<or>
        (\<exists>L. leak L \<and> outstanding tr' \<subseteq> outstanding tr \<union> L)
    | Panic \<Rightarrow> True"
proof -
  obtain cs t1 where c: "create_chains E tenant tr = (cs, t1)" by fastforce
  note C = create_chains_outstanding [OF c]
  show ?thesis
  proof (cases cs)
    case (Inl e)
    with assms c have "res = Err e" "tr' = t1" by (simp_all add: initNetwork_def)
    moreover from Inl C have "outstanding t1 \<subseteq> outstanding tr \<union> {}" by simp
    ultimately show ?thesis using leak_empty by (simp only: outcome.case) blast
  next
    case (Inr ab)
    obtain a b where ab: "ab = (a, b)" by fastforce
    with C Inr obtain u v where uv: "ch_ID a = Some u" "ch_ID b = Some v" "outstanding t1 = outstanding tr \<union> {RChain u, RChain v}"
      by auto
    obtain rs t2 where r: "create_router E tenant a b t1 = (rs, t2)" by fastforce
    note R = create_router_outstanding [OF r uv(1,2)]
    show ?thesis
    proof (cases rs)
      case (Inl e)
      with assms c Inr ab r have "res = Err e" "tr' = t2" by (simp_all add: initNetwork_def)
      moreover from \<open>rs = Inl e\<close> R uv have "outstanding t2 \<subseteq> outstanding tr \<union> {}" by auto
      ultimately show ?thesis using leak_empty by (simp only: outcome.case) blast
    next
      case rs: (Inr router)
      with R obtain w where w: "ro_ID router = Some w" and "outstanding t2 = outstanding t1 \<union> {RRouter w}" by auto
      with uv have t2: "outstanding t2 = outstanding tr \<union> {RChain u, RChain v, RRouter w}" by auto
      from assms c Inr ab r rs have f: "connect_router E m tenant a b router t2 = Some (res, tr')"
        by (simp add: initNetwork_def)
      note F = connect_router_outstanding [OF f uv(1,2) w]
      show ?thesis
      proof (cases res)
        case (Err e)
        with F show ?thesis unfolding Err outcome.case t2 by blast
      next
        case (Ok x)
        with F show ?thesis unfolding Ok outcome.case t2 by blast
      qed simp
    qed
  qed
qed



subsection \<open>Tenants\<close>

text \<open>The information on a tenant was found, or was stored.\<close>

definition info_event :: "Tenant \<Rightarrow> event \<Rightarrow> bool" where
  "info_event t e \<longleftrightarrow>
     (\<exists>a. e = EtcdEv (KeysGet (tenant_key (tn_ID t) ''/info'') False) (Inr a)
        \<or> e = EtcdEv (KeysSet (tenant_key (tn_ID t) ''/info'') (show_json (Tenant_json t)) False 0) (Inr a))"

definition informed :: "Tenant \<Rightarrow> history \<Rightarrow> history \<Rightarrow> bool" where
  "informed t tr tr' \<longleftrightarrow>
     (\<exists>pre e un. tr' = pre @ e # un \<and> prefix tr pre \<and> info_event t e \<and> list_all (is_unlock (create_lock (tn_ID t))) un)"

lemma lock_key_create [simp]: "lock_key (create_lock i) = create_lock i"
  by (simp add: lock_key_def create_lock_def tenant_key_def)

lemma informed_mono: "informed t b c \<Longrightarrow> prefix a b \<Longrightarrow> informed t a c"
  unfolding informed_def using prefix_order.trans by blast

lemma informed_append: "informed t a b \<Longrightarrow> list_all (is_unlock (create_lock (tn_ID t))) un \<Longrightarrow> informed t a (b @ un)"
  unfolding informed_def by force

lemma informed_snoc: "info_event t e \<Longrightarrow> prefix a b \<Longrightarrow> informed t a (b @ [e])"
  unfolding informed_def by (intro exI [of _ b] exI [of _ e] exI [of _ "[]"]) simp

lemma init_body_informed:
  assumes "init_body E m t retry tr = Some (Ok x, tr')"
    and retry: "\<And>tr tr'. retry tr = Some (Ok (), tr') \<Longrightarrow> informed t tr tr'"
  shows "informed t tr tr'"
proof -
  let ?k = "tenant_key (tn_ID t) ''/info''"
  show ?thesis
  proof (cases "etcd_srv E tr (KeysGet ?k False)")
    case (Inr a)
    with assms(1) have "tr' = tr @ [EtcdEv (KeysGet ?k False) (Inr a)]" by (simp add: init_body_def etcd_call_eq)
    then show ?thesis by (simp add: informed_snoc info_event_def)
  next
    case (Inl err)
    with assms(1) obtain r t1 where net: "initNetwork E m t (tr @ [EtcdEv (KeysGet ?k False) (Inl err)]) = Some (r, t1)"
      by (auto simp: init_body_def etcd_call_eq split: if_splits bind_splits)
    from initNetwork_grows [OF net] have t1: "prefix tr t1" by (rule append_prefixD)
    let ?q = "KeysSet ?k (show_json (Tenant_json t)) False 0"
    have "informed t t1 tr'"
    proof (cases "etcd_srv E t1 ?q")
      case (Inr a)
      with assms(1) Inl net have "tr' = t1 @ [EtcdEv ?q (Inr a)]"
        by (auto simp: init_body_def etcd_call_eq split: if_splits outcome.splits)
      then show ?thesis by (simp add: informed_snoc info_event_def)
    next
      case Inl2: (Inl e)
      with assms(1) Inl net have "retry (t1 @ [EtcdEv ?q (Inl e)]) = Some (Ok (), tr')"
        by (auto simp: init_body_def etcd_call_eq split: if_splits outcome.splits option.splits)
      from informed_mono [OF retry [OF this]] show ?thesis by simp
    qed
    with t1 show ?thesis by (simp add: informed_mono)
  qed
qed

lemma InitTenant_informed:
  assumes "InitTenant E m t tr = Some (Ok x, tr')"
  shows "informed t tr tr'"
proof -
  have "fst (Ok x, tr') = Ok () \<longrightarrow> informed t tr (snd (Ok x, tr'))"
  proof (rule InitTenant.raw_induct [where P = "\<lambda>_ _ t tr r. fst r = Ok () \<longrightarrow> informed t tr (snd r)", OF _ assms], goal_cases)
    case (1 f E m t tr r)
    show ?case
    proof (cases r; clarsimp)
      fix tr' assume r: "r = (Ok (), tr')"
      with 1(2) have "with_lock E (create_lock (tn_ID t)) ''etcdsync.NewMutex failed when init tenant''
          ''etcdsync.Lock failed when init tenant'' (\<lambda>tr. init_body E m t (\<lambda>tr. f E m t tr) tr) tr = Some (Ok (), tr')"
        by (simp split: if_splits)
      then show "informed t tr tr'"
      proof (cases rule: with_lock_cases)
        case (ran pre u post)
        have "informed t (tr @ pre) u"
          by (rule init_body_informed [OF ran(2)]) (use 1(1) in fastforce)
        with informed_mono [OF this, of tr] ran(3,5) show ?thesis by (simp add: informed_append)
      qed simp
    qed
  qed
  then show ?thesis by simp
qed

text \<open>
  C35: when \<open>InitTenant\<close> succeeds, the last thing it did before it released its mutex was to
  find the information on the tenant in etcd or to store it there. What it stores is the
  JSON text that \<open>GetTenant\<close> reads the same tenant from.
\<close>

theorem InitTenant_stores:
  assumes "InitTenant E m t tr = Some (Ok x, tr')"
  shows "\<exists>pre a un. prefix tr pre \<and> list_all (is_unlock (create_lock (tn_ID t))) un
    \<and> (tr' = pre @ [EtcdEv (KeysGet (tenant_key (tn_ID t) ''/info'') False) (Inr a)] @ un
     \<or> tr' = pre @ [EtcdEv (KeysSet (tenant_key (tn_ID t) ''/info'') (show_json (Tenant_json t)) False 0) (Inr a)] @ un)"
  using InitTenant_informed [OF assms] unfolding informed_def info_event_def by auto

text \<open>
  C38: \<open>GetTenant\<close> gives back the tenant that \<open>InitTenant\<close> stored, with one request; it gives
  an error of the transport back; and it panics on an error of etcd other than a missing key,
  because it goes on to read a response it did not get.
\<close>

theorem GetTenant_answers:
  "(etcd_srv E tr (KeysGet (tenant_key i ''/info'') False) = Inr res \<and> re_Node res = Some n
      \<and> node_Value n = show_json (Tenant_json t) \<longrightarrow>
      GetTenant E m i tr = Some (Ok t, tr @ [EtcdEv (KeysGet (tenant_key i ''/info'') False) (Inr res)]))
   \<and> (etcd_srv E tr (KeysGet (tenant_key i ''/info'') False) = Inl err \<and> client_error_code err = None \<longrightarrow>
      GetTenant E m i tr = Some (Err err, tr @ [EtcdEv (KeysGet (tenant_key i ''/info'') False) (Inl err)]))
   \<and> (etcd_srv E tr (KeysGet (tenant_key i ''/info'') False) = Inl err \<and> client_error_code err = Some code
      \<and> code \<noteq> ErrorCodeKeyNotFound \<longrightarrow>
      GetTenant E m i tr = Some (Panic, tr @ [EtcdEv (KeysGet (tenant_key i ''/info'') False) (Inl err)]))"
  by (simp add: GetTenant_def etcd_call_eq Tenant_roundtrip)

subsection \<open>Bindings\<close>

text \<open>
  C34: \<open>Bingding\<close> is idempotent: when the container is bound already it makes no request to
  MidoNet. Otherwise, when it succeeds, it has made exactly these requests: it read the bridge
  in use, made a port of it, bound the interface on this host to the port, and stored a text
  that reads back as that binding.
\<close>

theorem Bingding_binds:
  assumes "Bingding E m ifName t c tr = (Ok x, tr')"
  shows "\<exists>a. tr' = tr @ [EtcdEv (KeysGet (binding_key t c) False) (Inr a)] \<or>
    (\<exists>e res n bridge host u p h st b st' b' a. re_Node res = Some n \<and> String2UUID (node_Value n) = Inr bridge
      \<and> String2UUID (op_MidoNetHostUUID (mg_conf m)) = Inr host
      \<and> p = \<lparr>po_ID = Some u, po_Type = ''Bridge'', po_DeviceID = Some bridge, po_PeerID = None, bp_VlanID = None\<rparr>
      \<and> h = \<lparr>hp_HostID = Some host, hp_InterfaceName = ifName, hp_PortID = Some u\<rparr>
      \<and> ok_status st \<and> ok_status st'
      \<and> Unmarshal HostInterfacePort_fields HostInterfacePort_zero (show_json (HostInterfacePort_json h)) = Some h
      \<and> tr' = tr @ [EtcdEv (KeysGet (binding_key t c) False) (Inl e),
          EtcdEv (KeysGet (tenant_key t ''/bridge/usage'') False) (Inr res), UuidEv u,
          MidoEv (PostBridgePort (Some bridge) p) (Inr (st, b)), MidoEv (PostBinding host h) (Inr (st', b')),
          EtcdEv (KeysSet (binding_key t c) (show_json (HostInterfacePort_json h)) False 0) (Inr a)])"
proof (cases "etcd_srv E tr (KeysGet (binding_key t c) False)")
  case (Inr a)
  with assms show ?thesis by (auto simp: Bingding_def etcd_call_eq)
next
  case (Inl e)
  let ?t1 = "tr @ [EtcdEv (KeysGet (binding_key t c) False) (Inl e)]"
  from Inl assms obtain res n bridge host where
    g: "etcd_srv E ?t1 (KeysGet (tenant_key t ''/bridge/usage'') False) = Inr res" "re_Node res = Some n"
      "String2UUID (node_Value n) = Inr bridge" "String2UUID (op_MidoNetHostUUID (mg_conf m)) = Inr host"
    by (auto simp: Bingding_def etcd_call_eq split: sum.splits option.splits)
  have valid: "valid_uuid host" "valid_uuid (version4 r)" for r
    using g(4) by (auto intro: String2UUID_valid valid_version4)
  show ?thesis
    using assms Inl g valid
    by (auto simp: Bingding_def etcd_call_eq CreateBridgePort_def fresh_id_def CreateUUID_def Let_def send_def mido_call_eq
        BindingInterface_def binding_check_def HostInterfacePort_roundtrip split: sum.splits option.splits if_splits prod.splits)
qed

lemma Bingding_port:
  assumes "Bingding E m ifName t c tr = (r, tr')"
  shows "\<exists>evs. tr' = tr @ evs \<and>
    (\<forall>b p st body. MidoEv (PostBridgePort b p) (Inr (st, body)) \<in> set evs \<and> ok_status st \<longrightarrow>
      (\<exists>u. po_ID p = Some u \<and> outstanding tr' = outstanding tr \<union> {RPort u}))"
  using assms
  by (auto simp: Bingding_def etcd_call_eq CreateBridgePort_def fresh_id_def CreateUUID_def Let_def send_def mido_call_eq
        BindingInterface_def DeleteBinding_def binding_check_def account_def creates_def deletes_def
        split: sum.splits option.splits if_splits prod.splits)

text \<open>
  \<open>Bingding\<close> does not remove the port it made when it fails afterwards, and the caller
  tries again with a new one: the port stays at the API.
\<close>

theorem Bingding_failure_leaves_port:
  assumes "Bingding E m ifName t c tr = (Err e, tr @ evs)"
    and "MidoEv (PostBridgePort b p) (Inr (st, body)) \<in> set evs" and "ok_status st"
  shows "\<exists>u. po_ID p = Some u \<and> outstanding (tr @ evs) = outstanding tr \<union> {RPort u}"
  using Bingding_port [OF assms(1)] assms(2,3) by (simp only: same_append_eq) blast

subsection \<open>A new bridge\<close>

lemma key_value_etcd: "key_value E k tr = (r, tr') \<Longrightarrow> etcd_only tr tr'"
  by (auto simp: key_value_def etcd_call_eq split: sum.splits option.splits)

definition bridge_parts :: "resource set \<Rightarrow> UUID \<Rightarrow> bool" where
  "bridge_parts B z \<longleftrightarrow> (\<exists>p q r. B = {RPort p, RPort q, RRoute r, RBridge z})"

lemma next_pool_etcd: "next_pool E m t tr = Some (r, tr') \<Longrightarrow> etcd_only tr tr'"
  by (auto simp: next_pool_def split: prod.splits outcome.splits sum.splits bind_splits
      dest!: key_value_etcd CreateIPs_etcd elim: etcd_only_trans)

lemma stored_router_etcd: "stored_router E t tr = (r, tr') \<Longrightarrow> etcd_only tr tr'"
  by (auto simp: stored_router_def split: prod.splits outcome.splits option.splits dest!: key_value_etcd)

text \<open>How a run of the steps after the creation of the bridge ends.\<close>

lemma next_bridge_outstanding:
  assumes "next_bridge E m t tr = Some (res, tr')"
  shows "case res of
      Ok _ \<Rightarrow> \<exists>B z pre a. bridge_parts B z \<and> outstanding tr' = outstanding tr \<union> B
        \<and> tr' = pre @ [EtcdEv (KeysSet (tenant_key (tn_ID t) ''/bridge/usage'') (UUID_String z) False 0) (Inr a)]
    | _ \<Rightarrow> \<exists>B z. bridge_parts B z \<and> outstanding tr' \<subseteq> outstanding tr \<union> B"
proof -
  obtain u t0 where u: "CreateUUID E tr = (u, t0)" by fastforce
  obtain err b t1 where b: "CreateBridge E \<lparr>br_Name = tn_Name t @ '' bridge-'' @ UUID_String u, br_TenantID = tn_ID t,
      br_ID = Some u\<rparr> t0 = ((err, b), t1)" by (metis surj_pair)
  from CreateBridge_outstanding [OF b, of u] CreateUUID_outstandingD [OF u]
  have t1: "outstanding t1 = outstanding tr \<union> gained err (RBridge u)" by auto
  have B: "bridge_parts {RPort p, RPort q, RRoute r, RBridge u} u" for p q r unfolding bridge_parts_def by blast
  have ?thesis if "res \<noteq> Ok ()" "outstanding tr' \<subseteq> insert (RBridge u) (outstanding tr)"
  proof -
    from that(2) have "outstanding tr' \<subseteq> outstanding tr \<union> {RPort u, RPort u, RRoute u, RBridge u}" by auto
    with B have "\<exists>B z. bridge_parts B z \<and> outstanding tr' \<subseteq> outstanding tr \<union> B" by blast
    with that(1) show ?thesis by (cases res) simp_all
  qed
  note early = this
  show ?thesis
  proof (cases err)
    case (Some e)
    with assms u b t1 show ?thesis by (intro early) (auto simp: next_bridge_def)
  next
    case None
    with assms u b obtain pool t2 where p: "next_pool E m t t1 = Some (pool, t2)"
      by (auto simp: next_bridge_def split: bind_splits)
    obtain rv t3 where r: "stored_router E t t2 = (rv, t3)" by fastforce
    have t23: "outstanding t2 = insert (RBridge u) (outstanding tr)" "outstanding t3 = insert (RBridge u) (outstanding tr)"
      using outstanding_etcd [OF next_pool_etcd [OF p]] outstanding_etcd [OF stored_router_etcd [OF r]] t1 None by simp_all
    note run = assms u b None p r
    show ?thesis
    proof (cases "\<exists>new router. pool = Ok new \<and> rv = Ok router")
      case False
      with run t23 show ?thesis by (intro early) (auto simp: next_bridge_def split: outcome.splits)
    next
      case True
      then obtain new router where ok: "pool = Ok new" "rv = Ok router" by blast
      obtain res3 t4 where l: "CreateBridgeLinkRouter E (br_ID b) (ro_ID router) new t3 = (res3, t4)" by fastforce
      note L = CreateBridgeLinkRouter_outstanding [OF l]
      show ?thesis
      proof (cases res3)
        case (Ok y)
        with L t23 obtain p q c where t4: "outstanding t4 = outstanding tr \<union> {RPort p, RPort q, RRoute c, RBridge u}" by auto
        let ?q = "KeysSet (tenant_key (tn_ID t) ''/bridge/usage'') (UUID_String u) False 0"
        have "res = (case etcd_srv E t4 ?q of Inl e \<Rightarrow> Err e | Inr _ \<Rightarrow> Ok ())" "tr' = t4 @ [EtcdEv ?q (etcd_srv E t4 ?q)]"
          using run ok l Ok by (auto simp: next_bridge_def etcd_call_eq)
        moreover from this t4 have "outstanding tr' = outstanding tr \<union> {RPort p, RPort q, RRoute c, RBridge u}" by simp
        ultimately show ?thesis using B [of p q c] by (cases "etcd_srv E t4 ?q") (simp only: outcome.case sum.case, blast)+
      qed (use run ok l L t23 in \<open>intro early; auto simp: next_bridge_def\<close>)+
    qed
  qed
qed

lemma outstanding_lock_events: "list_all (lock_event k) evs \<Longrightarrow> outstanding (tr @ evs) = outstanding tr"
  using lock_event_is_etcd by (intro outstanding_etcd) (auto simp: list_all_iff)

lemma outstanding_unlocks: "list_all (is_unlock k) evs \<Longrightarrow> outstanding (tr @ evs) = outstanding tr"
  using list_all_unlock outstanding_lock_events by blast

lemma CreateNewBridge_cases:
  assumes "CreateNewBridge E m t tr = Some (res, tr')" and "hostname_srv E = Some h"
  obtains (failed) "res \<noteq> Ok ()" "outstanding tr' = outstanding tr"
  | (enough) pre r dir un where "res = Ok ()" "re_Node r = Some dir" "2 \<le> length (node_Nodes dir)"
      "outstanding tr' = outstanding tr" "tr' = pre @ EtcdEv (KeysGet (pod_available (tn_ID t)) True) (Inr r) # un"
      "list_all (is_unlock (bridge_lock (tn_ID t))) un"
  | (grown) t0 t1 un where "outstanding t0 = outstanding tr" "next_bridge E m t t0 = Some (res, t1)" "tr' = t1 @ un"
      "outstanding tr' = outstanding t1" "list_all (is_unlock (bridge_lock (tn_ID t))) un"
  using assms(1) unfolding CreateNewBridge_def
proof (cases rule: with_lock_cases)
  case refused
  with assms(2) show ?thesis by (simp add: bridge_lock_def tenant_key_def)
next
  case (ran pre t1 post)
  let ?q = "KeysGet (pod_available (tn_ID t)) True"
  have "lock_key (bridge_lock (tn_ID t)) = bridge_lock (tn_ID t)"
    by (simp add: lock_key_def bridge_lock_def tenant_key_def)
  with ran(5) have un: "list_all (is_unlock (bridge_lock (tn_ID t))) post" by (simp only:)
  have out: "outstanding (tr @ pre) = outstanding tr" "outstanding tr' = outstanding t1"
    using outstanding_lock_events [OF ran(1)] outstanding_unlocks [OF ran(5)] ran(3) by simp_all
  show ?thesis
  proof (cases "\<exists>r dir. etcd_srv E (tr @ pre) ?q = Inr r \<and> re_Node r = Some dir \<and> node_Dir dir")
    case False
    with ran(2) have "res \<noteq> Ok () \<and> t1 = (tr @ pre) @ [EtcdEv ?q (etcd_srv E (tr @ pre) ?q)]"
      by (cases "etcd_srv E (tr @ pre) ?q") (auto simp: etcd_call_eq split: option.splits)
    with out show ?thesis by (intro failed) simp_all
  next
    case True
    then obtain r dir where listed: "etcd_srv E (tr @ pre) ?q = Inr r" "re_Node r = Some dir" "node_Dir dir" by blast
    have t0: "outstanding ((tr @ pre) @ [EtcdEv ?q (Inr r)]) = outstanding tr" using out(1) by simp
    show ?thesis
    proof (cases "length (node_Nodes dir) < 2")
      case True
      with ran(2) listed have "next_bridge E m t ((tr @ pre) @ [EtcdEv ?q (Inr r)]) = Some (res, t1)"
        by (simp add: etcd_call_eq)
      with t0 ran(3) out(2) un show ?thesis by (intro grown)
    next
      case False
      with ran(2) listed have "res = Ok ()" "t1 = (tr @ pre) @ [EtcdEv ?q (Inr r)]" by (simp_all add: etcd_call_eq)
      with False listed(2) t0 out(2) ran(3) un show ?thesis by (intro enough [of r dir "tr @ pre" post]) simp_all
    qed
  qed
qed


subsection \<open>\<open>DeleteTenant\<close>\<close>

lemma mido_call_neutral:
  "mido_call E q tr = (a, tr') \<Longrightarrow> creates q = None \<Longrightarrow> deletes q = None \<Longrightarrow> outstanding tr' = outstanding tr"
  by (auto simp: mido_call_eq account_def split: sum.splits if_splits)

lemma get_neutral [simp]:
  "creates (mido_req.GetRouters i) = None" "deletes (mido_req.GetRouters i) = None"
  "creates (GetRouterPorts u) = None" "deletes (GetRouterPorts u) = None"
  "creates (GetRouterPeerPorts u) = None" "deletes (GetRouterPeerPorts u) = None"
  by (simp_all add: creates_def deletes_def)

lemma GetPorts_outstanding:
  "GetPortByRouter E u tr = (r, tr') \<Longrightarrow> outstanding tr' = outstanding tr"
  "GetPeerPortByRouter E u tr = (r, tr') \<Longrightarrow> outstanding tr' = outstanding tr"
  using mido_call_neutral [of E _ tr] by (fastforce simp: GetPortByRouter_def GetPeerPortByRouter_def split: prod.splits)+

lemma router_addresses_outstanding:
  "router_addresses E rs as tr = (r, tr') \<Longrightarrow> outstanding tr' = outstanding tr"
proof (induction rs arbitrary: as tr)
  case (Cons x rs)
  show ?case
  proof (cases "Option.bind x ro_ID")
    case None
    with Cons.prems show ?thesis by simp
  next
    case (Some u)
    obtain ps t1 where p: "GetPortByRouter E u tr = (ps, t1)" by fastforce
    obtain qs t2 where q: "GetPeerPortByRouter E u t1 = (qs, t2)" by fastforce
    from GetPorts_outstanding(1) [OF p] GetPorts_outstanding(2) [OF q] have "outstanding t2 = outstanding tr" by simp
    moreover from Cons.prems Some p q have "t2 = tr' \<or> (\<exists>as. router_addresses E rs as t2 = (r, tr'))"
      by (auto split: option.splits outcome.splits)
    ultimately show ?thesis using Cons.IH by auto
  qed
qed simp

lemma GetRouterIPs_outstanding:
  assumes "GetRouterIPsByTenant E i tr = (r, tr')"
  shows "outstanding tr' = outstanding tr"
proof -
  obtain rs t1 where g: "GetRouters E i tr = (rs, t1)" by fastforce
  obtain a t where c: "mido_call E (mido_req.GetRouters i) tr = (a, t)" by fastforce
  from g c have "t1 = tr \<or> t1 = t" by (auto simp: GetRouters_def split: if_splits sum.splits prod.splits mido_body.splits)
  with mido_call_neutral [OF c] have "outstanding t1 = outstanding tr" by auto
  with assms g router_addresses_outstanding show ?thesis
    by (auto simp: GetRouterIPsByTenant_def split: option.splits)
qed

lemma delete_provider_route_outstanding:
  assumes "delete_provider_route E m i tr = (r, tr')"
  shows "\<exists>x. outstanding tr - {RRoute x} \<subseteq> outstanding tr'"
proof (cases "String2UUID (mc_ProviderRouterID (op_MidoNetAPIConf (mg_conf m)))")
  case (Inl e)
  with assms show ?thesis by (auto simp: delete_provider_route_def)
next
  case (Inr provider)
  obtain val t1 where k: "key_value E (''/midonet/tenant/'' @ i @ ''/provider_router_route'') tr = (val, t1)" by fastforce
  note t1 = outstanding_etcd [OF key_value_etcd [OF k]]
  from assms Inr k have "tr' = t1 \<or> (\<exists>route. tr' = snd (DeleteRoute E (mg_client m) (Some provider) (Some route) t1))"
    by (auto simp: delete_provider_route_def split: outcome.splits sum.splits)
  with t1 show ?thesis by auto
qed

lemma delete_dirs_eq:
  "\<exists>evs. delete_dirs E ds tr = tr @ evs \<and> List.map event_req evs = List.map (\<lambda>d. Some (KeysDelete d True True)) ds
    \<and> list_all is_etcd evs"
proof (induction ds arbitrary: tr)
  case (Cons d ds)
  let ?e = "EtcdEv (KeysDelete d True True) (etcd_srv E tr (KeysDelete d True True))"
  from Cons [of "tr @ [?e]"] obtain evs where "delete_dirs E ds (tr @ [?e]) = (tr @ [?e]) @ evs"
    "List.map event_req evs = List.map (\<lambda>d. Some (KeysDelete d True True)) ds" "list_all is_etcd evs" by blast
  then show ?case by (intro exI [of _ "?e # evs"]) (simp add: delete_dirs_def)
qed (simp add: delete_dirs_def)


subsection \<open>Sample runs\<close>

text \<open>A MidoNet API that accepts everything, and an etcd with one pair of addresses for a link left.\<close>

definition link_pool :: Response where
  "link_pool = \<lparr>re_Action = ''get'', re_Node =
     Some (Node ''/midonet-cni/ip/router/available'' [] True
       [Node ''/midonet-cni/ip/router/available/172.16.0.2'' (cidr_text [172, 16, 0, 2] 24) False [],
        Node ''/midonet-cni/ip/router/available/172.16.0.3'' (cidr_text [172, 16, 0, 3] 24) False [],
        Node ''/midonet-cni/ip/router/available/iprange'' (cidr_text [172, 16, 0, 0] 24) False []]), re_Index = 9\<rparr>"

definition net_env :: env where
  "net_env = silent_env\<lparr>
     etcd_srv := \<lambda>_ q. case q of
       KeysGet k rec \<Rightarrow> if rec then Inr link_pool else Inl (EtcdError 100 ''Key not found'')
     | _ \<Rightarrow> Inr \<lparr>re_Action = ''set'', re_Node = None, re_Index = 9\<rparr>,
     mido_srv := \<lambda>_ _. Inr (201, BodyText [])\<rparr>"

definition net_manager :: Manager where
  "net_manager = \<lparr>mg_conf = Options_zero\<lparr>op_MidoNetBridgeCIDR := cidr_text [192, 168, 0, 0] 24,
      op_MidoNetAPIConf := (op_MidoNetAPIConf Options_zero)\<lparr>mc_ProviderRouterID := UUID_String (version4 [])\<rparr>\<rparr>,
    mg_client = \<lparr>cl_version = 5, cl_token = ''token'', cl_endpoints = []\<rparr>\<rparr>"

text \<open>The same API with an etcd that cannot be reached.\<close>

definition half_env :: env where
  "half_env = silent_env\<lparr>mido_srv := \<lambda>_ _. Inr (201, BodyText [])\<rparr>"

lemma initNetwork_half: "\<exists>e tr'. initNetwork half_env net_manager sample_tenant [] = Some (Err e, tr')"
  by (simp add: initNetwork_def create_chains_def create_router_def CreateChain_def CreateRouter_def CreateUUID_def
      fresh_id_def send_def mido_call_eq connect_router_def link_addresses_def CreateEtcdIpam_def CreateETCDClient_def
      GetRouterIP_def with_lock_def Mutex_New_def Lock_def lock_def Unlock_def defaultTry_def Let_def
      numeral_3_eq_3 etcd_call_eq router_ip_body_def half_env_def silent_env_def sample_tenant_def ok_status_def)


lemma send_net_env [simp]: "send net_env q tr = (None, tr @ [MidoEv q (Inr (201, BodyText []))])"
  by (simp add: send_def mido_call_eq net_env_def ok_status_def)

lemma etcd_net_env [simp]:
  "etcd_srv net_env tr (KeysSet k v x n) = Inr \<lparr>re_Action = ''set'', re_Node = None, re_Index = 9\<rparr>"
  "etcd_srv net_env tr (KeysDelete k x y) = Inr \<lparr>re_Action = ''set'', re_Node = None, re_Index = 9\<rparr>"
  "etcd_srv net_env tr (KeysGet k True) = Inr link_pool"
  by (simp_all add: net_env_def)

lemma hostname_net_env [simp]: "hostname_srv net_env = Some ''node1''" "etcd_new net_env c = None"
  by (simp_all add: net_env_def silent_env_def)

lemma link_addresses_net_env:
  "\<exists>t. link_addresses net_env net_manager tr =
     Some (Ok (cidr_text [172, 16, 0, 2] 24, cidr_text [172, 16, 0, 3] 24, version4 []), t)"
proof -
  have "String2UUID (UUID_String (version4 [])) = Inr (version4 [])"
    by (simp add: String2UUID_String valid_version4)
  then show ?thesis
    by (simp add: link_addresses_def CreateEtcdIpam_def CreateETCDClient_def
      GetRouterIP_def with_lock_def Mutex_New_def Lock_def lock_def Unlock_def defaultTry_def Let_def
      numeral_3_eq_3 etcd_call_eq router_ip_body_def net_manager_def
      link_pool_def has_suffix_def)
qed

lemma fresh_net_env: "\<exists>u t. fresh_id net_env i tr = (u, t)"
  by (meson surj_pair)

lemma createRouterPort_net_env:
  assumes "length b = 4" and "n \<le> 32"
  shows "\<exists>p t u. createRouterPort net_env (cidr_text b n) r tr = (Inr p, t) \<and> po_ID p = Some u"
proof -
  obtain u t where "fresh_id net_env None tr = (u, t)" using fresh_net_env by blast
  with assms show ?thesis by (simp add: createRouterPort_def ParseCIDR_text CreateRouterPort_def Let_def)
qed

lemma CreatePortLink_net_env:
  "\<exists>t. CreatePortLink net_env \<lparr>pl_PortID = Some u, pl_PeerID = Some v\<rparr> tr = (None, t)"
  by (simp add: CreatePortLink_def)

lemma create_link_net_env:
  assumes "ch_ID a = Some u" "ch_ID b = Some v" "ro_ID r = Some w"
  shows "\<exists>nw t p q. create_link net_env a b r (cidr_text [172, 16, 0, 2] 24) (cidr_text [172, 16, 0, 3] 24) x tr = (Inr nw, t)
    \<and> nw_router nw = r \<and> po_ID (nw_local nw) = Some p \<and> po_ID (nw_remote nw) = Some q"
proof -
  obtain p t1 p1 where 1: "createRouterPort net_env (cidr_text [172, 16, 0, 2] 24) (Some x) tr = (Inr p, t1)" "po_ID p = Some p1"
    using createRouterPort_net_env [of "[172, 16, 0, 2]" 24 "Some x" tr] by auto
  obtain q t2 q1 where 2: "createRouterPort net_env (cidr_text [172, 16, 0, 3] 24) (ro_ID r) t1 = (Inr q, t2)" "po_ID q = Some q1"
    using createRouterPort_net_env [of "[172, 16, 0, 3]" 24 "ro_ID r" t1] by auto
  obtain t3 where 3: "CreatePortLink net_env \<lparr>pl_PortID = po_ID q, pl_PeerID = po_ID p\<rparr> t2 = (None, t3)"
    using CreatePortLink_net_env [of q1 p1 t2] 1 2 by auto
  show ?thesis using 1 2 3 by (simp add: create_link_def)
qed

lemma CreateRoute_net_env: "rt_RouterID r = Some u \<Longrightarrow> \<exists>r' t. CreateRoute net_env r tr = ((None, r'), t)"
  by (auto simp: CreateRoute_def Let_def split: prod.split)

lemma CreateRule_net_env: "ru_ChainID r = Some u \<Longrightarrow> \<exists>r' t. CreateRule net_env r tr = ((None, r'), t)"
  by (auto simp: CreateRule_def Let_def split: prod.split)

lemma create_routes_net_env:
  assumes "ro_ID (nw_router nw) = Some w" "ro_InboundFilterID (nw_router nw) = Some u"
    "ro_OutboundFilterID (nw_router nw) = Some v"
  shows "\<exists>t. create_routes net_env m tn nw x tr = (None, t)"
proof -
  obtain t1 where 1: "CreateDefaultRoute net_env m (nw_local nw) (nw_remote nw) (Some w) (Some x) (tn_ID tn) tr = (None, t1)"
    by (auto simp: CreateDefaultRoute_def CreateUUID_def Let_def CreateRoute_def fresh_id_def etcd_call_eq)
  obtain r1 t2 where 2: "CreateRule net_env (ruleOne (nw_router nw)) t1 = ((None, r1), t2)"
    using CreateRule_net_env [of "ruleOne (nw_router nw)" v t1] assms by (auto simp: ruleOne_def)
  obtain r2 t3 where 3: "CreateRule net_env (ruleTwo (nw_local nw) (nw_router nw)) t2 = ((None, r2), t3)"
    using CreateRule_net_env [of "ruleTwo (nw_local nw) (nw_router nw)" v t2] assms by (auto simp: ruleTwo_def)
  obtain r3 t4 where 4: "CreateRule net_env (ruleThree (nw_local nw) (nw_router nw)) t3 = ((None, r3), t4)"
    using CreateRule_net_env [of "ruleThree (nw_local nw) (nw_router nw)" u t3] assms by (auto simp: ruleThree_def)
  show ?thesis using 1 2 3 4 assms by (simp add: create_routes_def CreateDefaultRule_def)
qed

lemma CreateBridgeLinkRouter_net_env:
  "\<exists>t. CreateBridgeLinkRouter net_env (Some z) (Some w) (cidr_text [192, 168, 0, 0] 24) tr = (Ok (), t)"
proof -
  have net: "is_network [192, 168, 0, 0] 24" by (simp add: is_network_def val4_def)
  have g: "gateway (v4_net [192, 168, 0, 0] 24) = Ok (v4InV6Prefix @ [192, 168, 0, 254])"
    by (simp add: gateway_v4 clear_def val4_def bytes4_def)
  have "IP_String (v4InV6Prefix @ [192, 168, 0, 254]) @ ''/'' @ itoa 24 = cidr_text [192, 168, 0, 254] 24"
    by (simp add: cidr_text_def IP_String_v4 go_simps)
  moreover obtain p t1 p1 where 1: "createRouterPort net_env (cidr_text [192, 168, 0, 254] 24) (Some w) tr = (Inr p, t1)" "po_ID p = Some p1"
    using createRouterPort_net_env [of "[192, 168, 0, 254]" 24 "Some w" tr] by auto
  obtain q t2 q1 where 2: "CreateBridgePort net_env \<lparr>po_ID = None, po_Type = [], po_DeviceID = Some z, po_PeerID = None,
      bp_VlanID = None\<rparr> t1 = ((None, q), t2)" "po_ID q = Some q1"
    by (auto simp: CreateBridgePort_def Let_def fresh_id_def CreateUUID_def)
  obtain t3 where 3: "CreatePortLink net_env \<lparr>pl_PortID = po_ID p, pl_PeerID = po_ID q\<rparr> t2 = (None, t3)"
    using CreatePortLink_net_env [of p1 q1 t2] 1 2 by auto
  have 4: "Mask_Size (IPNet_Mask (v4_net [192, 168, 0, 0] 24)) = 24"
    by (simp add: v4_net_def go_simps)
  obtain r4 t4 where 5: "CreateRoute net_env \<lparr>rt_ID = None, rt_DstNetworkAddr = IP_String (IPNet_IP (v4_net [192, 168, 0, 0] 24)),
      rt_DstNetworkLength = int 24, rt_NextHopGateway = [], rt_NextHopPort = po_ID p, rt_SrcNetworkAddr = ''0.0.0.0'',
      rt_SrcNetworkLength = 0, rt_Type = ''Normal'', rt_RouterID = Some w\<rparr> t3 = ((None, r4), t4)"
    by (auto simp: CreateRoute_def Let_def fresh_id_def CreateUUID_def)
  ultimately show ?thesis using 1 2 3 4 5 g by (simp add: CreateBridgeLinkRouter_def ParseCIDR_text Let_def)
qed

lemma first_bridge_net_env:
  assumes "ro_ID (nw_router nw) = Some w"
  shows "\<exists>b t u. first_bridge net_env net_manager tn nw tr = Some (Ok b, t) \<and> br_ID b = Some u"
proof -
  obtain u t1 where 1: "CreateUUID net_env tr = (u, t1)" by fastforce
  obtain t2 where 2: "CreateBridge net_env \<lparr>br_Name = tn_Name tn @ '' bridge0'', br_TenantID = tn_ID tn, br_ID = Some u\<rparr> t1
      = ((None, \<lparr>br_Name = tn_Name tn @ '' bridge0'', br_TenantID = tn_ID tn, br_ID = Some u\<rparr>), t2)"
    by (auto simp: CreateBridge_def fresh_id_def Let_def)
  have net: "is_network [192, 168, 0, 0] 24" by (simp add: is_network_def val4_def)
  obtain t3 where 3: "CreateIPsForTenantBridge net_env tn (cidr_text [192, 168, 0, 0] 24) t2 = Some (Ok (), t3)"
    using CreateIPs_network [OF net, of net_env t2 tn] by auto
  obtain t4 where "CreateBridgeLinkRouter net_env (Some u) (Some w) (cidr_text [192, 168, 0, 0] 24) t3 = (Ok (), t4)"
    using CreateBridgeLinkRouter_net_env by blast
  with 1 2 3 assms show ?thesis by (simp add: first_bridge_def net_manager_def)
qed

lemma save_network_net_env:
  assumes "ro_ID (nw_router nw) = Some w" "br_ID b = Some u"
  shows "\<exists>t. save_network net_env tn nw b tr = (Ok (), t)"
  using assms by (simp add: save_network_def Let_def id_text_def etcd_call_eq)

lemma initNetwork_net_env: "\<exists>tr'. initNetwork net_env net_manager sample_tenant tr = Some (Ok (), tr')"
proof -
  obtain a b t1 u v where 1: "create_chains net_env sample_tenant tr = (Inr (a, b), t1)" "ch_ID a = Some u" "ch_ID b = Some v"
    by (auto simp: create_chains_def CreateUUID_def CreateChain_def fresh_id_def Let_def sample_tenant_def)
  obtain r t2 w where 2: "create_router net_env sample_tenant a b t1 = (Inr r, t2)" "ro_ID r = Some w"
      "ro_InboundFilterID r = Some u" "ro_OutboundFilterID r = Some v"
    using 1 by (auto simp: create_router_def CreateUUID_def CreateRouter_def fresh_id_def Let_def)
  obtain t3 where 3: "link_addresses net_env net_manager t2 =
     Some (Ok (cidr_text [172, 16, 0, 2] 24, cidr_text [172, 16, 0, 3] 24, version4 []), t3)"
    using link_addresses_net_env by blast
  obtain nw t4 where 4: "create_link net_env a b r (cidr_text [172, 16, 0, 2] 24) (cidr_text [172, 16, 0, 3] 24) (version4 []) t3
      = (Inr nw, t4)" "nw_router nw = r"
    using create_link_net_env [of a u b v r w] 1 2 by blast
  obtain t5 where 5: "create_routes net_env net_manager sample_tenant nw (version4 []) t4 = (None, t5)"
    using create_routes_net_env [of nw w u v] 2 4 by blast
  obtain br t6 z where 6: "first_bridge net_env net_manager sample_tenant nw t5 = Some (Ok br, t6)" "br_ID br = Some z"
    using first_bridge_net_env [of nw w] 2 4 by blast
  obtain t7 where 7: "save_network net_env sample_tenant nw br t6 = (Ok (), t7)"
    using save_network_net_env [of nw w br z] 2 4 6 by blast
  show ?thesis using 1 2 3 4 5 6 7 by (simp add: initNetwork_def connect_router_def finish_network_def)
qed



lemma with_lock_net_env:
  assumes "key \<noteq> []" and "\<And>t. \<exists>t'. body t = Some (r, t')"
  shows "\<exists>t'. with_lock net_env key nf lf body tr = Some (r, t')"
proof -
  obtain t' where "body (tr @ [EtcdEv (KeysSet (lock_key key) (''node1-'' @ stamp_srv net_env tr) True 20)
      (Inr \<lparr>re_Action = ''set'', re_Node = None, re_Index = 9\<rparr>)]) = Some (r, t')" using assms(2) by blast
  with assms(1) show ?thesis
    by (simp add: with_lock_def Mutex_New_def Lock_def lock_def Unlock_def defaultTry_def numeral_3_eq_3 etcd_call_eq lock_key_def)
qed

lemma info_net_env [simp]: "etcd_srv net_env tr (KeysGet k False) = Inl (EtcdError 100 ''Key not found'')"
  by (simp add: net_env_def)

lemma InitTenant_net_env: "\<exists>tr'. InitTenant net_env net_manager sample_tenant [] = Some (Ok (), tr')"
proof -
  have "\<exists>t'. init_body net_env net_manager sample_tenant retry t = Some (Ok (), t')" for retry t
  proof -
    obtain t' where "initNetwork net_env net_manager sample_tenant
        (t @ [EtcdEv (KeysGet (tenant_key ''t1'' ''/info'') False) (Inl (EtcdError 100 ''Key not found''))]) = Some (Ok (), t')"
      using initNetwork_net_env by blast
    then show ?thesis by (simp add: init_body_def etcd_call_eq ErrorCodeKeyNotFound_def) (simp add: sample_tenant_def etcd_call_eq)
  qed
  from with_lock_net_env [OF _ this] show ?thesis
    by (subst InitTenant.simps) (simp add: sample_tenant_def create_lock_def tenant_key_def)
qed

theorem InitTenant_stores_witness:
  "\<exists>tr'. InitTenant net_env net_manager sample_tenant [] = Some (Ok (), tr') \<and>
    (\<exists>pre a un. prefix [] pre \<and> list_all (is_unlock (create_lock (tn_ID sample_tenant))) un
     \<and> (tr' = pre @ [EtcdEv (KeysGet (tenant_key (tn_ID sample_tenant) ''/info'') False) (Inr a)] @ un
      \<or> tr' = pre @ [EtcdEv (KeysSet (tenant_key (tn_ID sample_tenant) ''/info'') (show_json (Tenant_json sample_tenant)) False 0)
            (Inr a)] @ un))"
proof -
  obtain tr' where run: "InitTenant net_env net_manager sample_tenant [] = Some (Ok (), tr')"
    using InitTenant_net_env by blast
  show ?thesis by (rule exI [of _ tr'], rule conjI, rule run, rule InitTenant_stores [OF run])
qed

text \<open>An etcd that has one text under every key.\<close>

definition text_answer :: "string \<Rightarrow> Response" where
  "text_answer s = \<lparr>re_Action = ''get'', re_Node = Some (Node ''/k'' s False []), re_Index = 1\<rparr>"

definition text_env :: "string \<Rightarrow> env" where
  "text_env s = silent_env\<lparr>etcd_srv := \<lambda>_ _. Inr (text_answer s)\<rparr>"

theorem GetTenant_answers_witness:
  "(\<exists>tr'. GetTenant (text_env (show_json (Tenant_json sample_tenant))) net_manager ''t1'' [] = Some (Ok sample_tenant, tr'))
   \<and> (\<exists>tr'. GetTenant silent_env net_manager ''t1'' [] = Some (Err (OtherError ''connection refused''), tr'))
   \<and> (\<exists>tr'. GetTenant failing_pool_env net_manager ''t1'' [] = Some (Panic, tr'))"
proof (intro conjI)
  let ?s = "show_json (Tenant_json sample_tenant)"
  show "\<exists>tr'. GetTenant (text_env ?s) net_manager ''t1'' [] = Some (Ok sample_tenant, tr')"
    using GetTenant_answers [of "text_env ?s" "[]" "''t1''" "text_answer ?s" "Node ''/k'' ?s False []" sample_tenant]
    by (simp add: text_env_def) (simp add: text_answer_def)
  show "\<exists>tr'. GetTenant silent_env net_manager ''t1'' [] = Some (Err (OtherError ''connection refused''), tr')"
    using GetTenant_answers [of silent_env "[]" "''t1''" _ _ _ _ "OtherError ''connection refused''"]
    by (simp add: silent_env_def)
  show "\<exists>tr'. GetTenant failing_pool_env net_manager ''t1'' [] = Some (Panic, tr')"
    using GetTenant_answers [of failing_pool_env "[]" "''t1''" _ _ _ _ "EtcdError 300 ''Raft Internal Error''" 300]
    by (simp add: failing_pool_env_def ErrorCodeKeyNotFound_def)
qed

text \<open>A bridge in use, and an API that refuses the bindings for which \<open>refuse\<close> holds.\<close>

definition bind_env :: "bool \<Rightarrow> env" where
  "bind_env refuse = silent_env\<lparr>
     etcd_srv := \<lambda>_ q. case q of
       KeysGet k _ \<Rightarrow>
         if k = tenant_key ''t1'' ''/bridge/usage'' then Inr \<lparr>re_Action = ''get'', re_Node = Some (Node k (UUID_String (version4 [])) False []), re_Index = 1\<rparr>
         else Inl (EtcdError 100 ''Key not found'')
     | _ \<Rightarrow> Inr \<lparr>re_Action = ''set'', re_Node = None, re_Index = 9\<rparr>,
     mido_srv := \<lambda>_ q. case q of
       PostBinding _ _ \<Rightarrow> Inr (if refuse then 500 else 201, BodyText [])
     | _ \<Rightarrow> Inr (201, BodyText [])\<rparr>"

definition bind_manager :: Manager where
  "bind_manager = net_manager\<lparr>mg_conf := Options_zero\<lparr>op_MidoNetHostUUID := UUID_String (version4 [])\<rparr>\<rparr>"

definition bind_port :: BridgePort where
  "bind_port = \<lparr>po_ID = Some (version4 []), po_Type = ''Bridge'', po_DeviceID = Some (version4 []), po_PeerID = None, bp_VlanID = None\<rparr>"

lemma bind_env [simp]:
  "etcd_srv (bind_env x) tr (KeysGet k b) = (if k = ''/midonet-cni/tenant/t1/bridge/usage''
     then Inr \<lparr>re_Action = ''get'', re_Node = Some (Node k (UUID_String (version4 [])) False []), re_Index = 1\<rparr>
     else Inl (EtcdError 100 ''Key not found''))"
  "etcd_srv (bind_env x) tr (KeysSet k v b n) = Inr \<lparr>re_Action = ''set'', re_Node = None, re_Index = 9\<rparr>"
  "mido_srv (bind_env x) tr (PostBinding h p) = Inr (if x then 500 else 201, BodyText [])"
  "mido_srv (bind_env x) tr (PostBridgePort d q) = Inr (201, BodyText [])"
  "random_srv (bind_env x) tr = []"
  by (simp_all add: bind_env_def tenant_key_def silent_env_def)

lemma Bingding_bind_env:
  "\<exists>evs. Bingding (bind_env refuse) bind_manager ''veth0'' ''t1'' ''c1'' [] =
      (if refuse then Err (ErrorString []) else Ok (), [] @ evs)
    \<and> MidoEv (PostBridgePort (Some (version4 [])) bind_port) (Inr (201, BodyText [])) \<in> set evs"
proof -
  have "String2UUID (UUID_String (version4 [])) = Inr (version4 [])"
    by (simp add: String2UUID_String valid_version4)
  then show ?thesis
    by (simp add: Bingding_def etcd_call_eq CreateBridgePort_def fresh_id_def CreateUUID_def Let_def send_def mido_call_eq
        BindingInterface_def binding_check_def bind_manager_def bind_port_def body_text_def ok_status_def
        binding_key_def tenant_key_def)
qed


theorem Bingding_binds_witness:
  "\<exists>tr'. Bingding (bind_env False) bind_manager ''veth0'' ''t1'' ''c1'' [] = (Ok (), tr') \<and>
   (\<exists>a. tr' = [] @ [EtcdEv (KeysGet (binding_key ''t1'' ''c1'') False) (Inr a)] \<or>
    (\<exists>e res n bridge host u p h st b st' b' a. re_Node res = Some n \<and> String2UUID (node_Value n) = Inr bridge
      \<and> String2UUID (op_MidoNetHostUUID (mg_conf bind_manager)) = Inr host
      \<and> p = \<lparr>po_ID = Some u, po_Type = ''Bridge'', po_DeviceID = Some bridge, po_PeerID = None, bp_VlanID = None\<rparr>
      \<and> h = \<lparr>hp_HostID = Some host, hp_InterfaceName = ''veth0'', hp_PortID = Some u\<rparr>
      \<and> ok_status st \<and> ok_status st'
      \<and> Unmarshal HostInterfacePort_fields HostInterfacePort_zero (show_json (HostInterfacePort_json h)) = Some h
      \<and> tr' = [] @ [EtcdEv (KeysGet (binding_key ''t1'' ''c1'') False) (Inl e),
          EtcdEv (KeysGet (tenant_key ''t1'' ''/bridge/usage'') False) (Inr res), UuidEv u,
          MidoEv (PostBridgePort (Some bridge) p) (Inr (st, b)), MidoEv (PostBinding host h) (Inr (st', b')),
          EtcdEv (KeysSet (binding_key ''t1'' ''c1'') (show_json (HostInterfacePort_json h)) False 0) (Inr a)]))"
proof -
  obtain evs where run: "Bingding (bind_env False) bind_manager ''veth0'' ''t1'' ''c1'' [] = (Ok (), evs)"
    using Bingding_bind_env [of False] by auto
  show ?thesis by (rule exI, rule conjI, rule run, rule Bingding_binds [OF run])
qed

theorem Bingding_failure_leaves_port_witness:
  "\<exists>evs. Bingding (bind_env True) bind_manager ''veth0'' ''t1'' ''c1'' [] = (Err (ErrorString []), [] @ evs)
    \<and> (\<exists>u. po_ID bind_port = Some u \<and> outstanding ([] @ evs) = outstanding [] \<union> {RPort u})"
proof -
  obtain evs where run: "Bingding (bind_env True) bind_manager ''veth0'' ''t1'' ''c1'' [] = (Err (ErrorString []), [] @ evs)"
    and ev: "MidoEv (PostBridgePort (Some (version4 [])) bind_port) (Inr (201, BodyText [])) \<in> set evs"
    using Bingding_bind_env [of True] by auto
  show ?thesis
    by (rule exI, rule conjI, rule run, rule Bingding_failure_leaves_port [OF run ev]) (simp add: ok_status_def)
qed



end
