(* ===== verification/K8sProps.thy ===== *)
theory K8sProps
  imports K8s VethProps Growth MidonetProps
begin

text \<open>
  What the two commands guarantee: how \<open>CmdAddK8s\<close> comes by its result and gives it back the
  next time, and under which conditions \<open>CmdDelK8s\<close> returns the container's address.
\<close>

subsection \<open>Histories grow\<close>

lemma key_value_grows: "key_value E k tr = (r, tr') \<Longrightarrow> prefix tr tr'"
  by (auto simp: key_value_def etcd_call_eq split: sum.splits option.splits)

lemma NewClient_grows: "NewClient E c tr = (r, tr') \<Longrightarrow> prefix tr tr'"
  by (auto simp: NewClient_def login_def mido_call_eq Let_def split: sum.splits prod.splits option.splits if_splits)

lemma NewManager_grows: "NewManager E c tr = (r, tr') \<Longrightarrow> prefix tr tr'"
  by (auto simp: NewManager_def Let_def split: sum.splits prod.splits option.splits dest: NewClient_grows)

lemma GetTenant_grows: "GetTenant E m i tr = Some (r, tr') \<Longrightarrow> prefix tr tr'"
  by (auto simp: GetTenant_def etcd_call_eq Let_def split: sum.splits option.splits if_splits bind_splits
      dest!: InitTenant_grows append_prefixD)

lemma next_pool_grows: "next_pool E m t tr = Some (r, tr') \<Longrightarrow> prefix tr tr'"
  by (auto simp: next_pool_def split: prod.splits outcome.splits sum.splits bind_splits
      dest!: key_value_grows CreateIPs_etcd etcd_only_prefix elim: prefix_order.trans)

lemma stored_router_grows: "stored_router E t tr = (r, tr') \<Longrightarrow> prefix tr tr'"
  by (auto simp: stored_router_def split: prod.splits outcome.splits option.splits dest!: key_value_grows)

lemma next_bridge_grows: "next_bridge E m t tr = Some (r, tr') \<Longrightarrow> prefix tr tr'"
  by (auto simp: next_bridge_def etcd_call_eq split: prod.splits outcome.splits option.splits bind_splits
      dest!: next_pool_grows stored_router_grows CreateBridgeLinkRouter_grows CreateUUID_grows create_grows
      intro: prefix_snoc_trans elim: prefix_order.trans)

lemma CreateNewBridge_grows:
  assumes "CreateNewBridge E m t tr = Some (r, tr')"
  shows "prefix tr tr'"
  using assms unfolding CreateNewBridge_def
  by (rule with_lock_grows)
    (auto simp: etcd_call_eq split: sum.splits option.splits if_splits dest!: next_bridge_grows append_prefixD)

lemma GetNewIP_grows: "GetNewIP E t c tr = (r, tr') \<Longrightarrow> prefix tr tr'"
  by (rule etcd_only_prefix, rule GetNewIP_etcd)

lemma Bingding_grows: "Bingding E m i t c tr = (r, tr') \<Longrightarrow> prefix tr tr'"
  by (auto simp: Bingding_def etcd_call_eq CreateBridgePort_def fresh_id_def CreateUUID_def Let_def send_def mido_call_eq
        BindingInterface_def DeleteBinding_def binding_check_def
        split: sum.splits option.splits if_splits prod.splits)

lemma bind_twice_grows: "bind_twice E m args t c tr = (r, tr') \<Longrightarrow> prefix tr tr'"
  by (auto simp: bind_twice_def Let_def split: if_splits outcome.splits prod.splits
      dest!: Bingding_grows elim: prefix_order.trans)

subsection \<open>Where the parts of a result come from\<close>

text \<open>
  The container's address in the requests made: read from what was stored for it, or the
  value of a key of the pool that this call deleted, and stored for the container.
\<close>

definition address_from :: "history \<Rightarrow> string \<Rightarrow> string \<Rightarrow> IPInfo \<Rightarrow> bool" where
  "address_from evs t c info \<longleftrightarrow>
     (\<exists>res n. EtcdEv (KeysGet (pod_key t c) False) (Inr res) \<in> set evs \<and> re_Node res = Some n
        \<and> Unmarshal IPInfo_fields IPInfo_zero (node_Value n) = Some info) \<or>
     (\<exists>node a sa ip ipn gw. EtcdEv (KeysDelete (node_Key node) False False) (Inr a) \<in> set evs
        \<and> EtcdEv (KeysSet (pod_key t c) (node_Value node) False 0) sa \<in> set evs
        \<and> ParseCIDR (node_Value node) = Inr (ip, ipn) \<and> gateway ipn = Ok gw
        \<and> info = \<lparr>ii_ContainerID = c, ii_IPNet = \<lparr>IPNet_IP = ip, IPNet_Mask = IPNet_Mask ipn\<rparr>, ii_Getway = gw\<rparr>)"

text \<open>The container's binding: found, or stored.\<close>

definition bound :: "history \<Rightarrow> string \<Rightarrow> string \<Rightarrow> bool" where
  "bound evs t c \<longleftrightarrow> (\<exists>a. EtcdEv (KeysGet (binding_key t c) False) (Inr a) \<in> set evs)
     \<or> (\<exists>v a. EtcdEv (KeysSet (binding_key t c) v False 0) (Inr a) \<in> set evs)"

lemma address_from_mono: "address_from evs t c i \<Longrightarrow> set evs \<subseteq> set evs' \<Longrightarrow> address_from evs' t c i"
  unfolding address_from_def by blast

lemma bound_mono: "bound evs t c \<Longrightarrow> set evs \<subseteq> set evs' \<Longrightarrow> bound evs' t c"
  unfolding bound_def by blast

lemma allocate_address:
  assumes "allocate_ip E t c tr = (Ok info, tr')"
  shows "\<exists>evs. tr' = tr @ evs \<and> address_from evs t c info"
  using assms
proof (rule allocate_ip_Ok, goal_cases)
  case (1 res dir node pre a sa ip ipn gw)
  then show ?case
    by (intro exI [of _ "EtcdEv (KeysGet (pod_available t) True) (Inr res) # pre
       @ [EtcdEv (KeysDelete (node_Key node) False False) (Inr a), EtcdEv (KeysSet (pod_key t c) (node_Value node) False 0) sa]"])
      (auto simp: address_from_def)
qed

lemma GetNewIP_address:
  assumes "GetNewIP E t c tr = (Ok info, tr')"
  shows "\<exists>evs. tr' = tr @ evs \<and> address_from evs (tn_ID t) c info"
proof (cases "etcd_srv E tr (KeysGet (pod_key (tn_ID t) c) False)")
  case (Inl e)
  let ?e = "EtcdEv (KeysGet (pod_key (tn_ID t) c) False) (Inl e)"
  from Inl assms have "allocate_ip E (tn_ID t) c (tr @ [?e]) = (Ok info, tr')" by (simp add: GetNewIP_def etcd_call_eq)
  from allocate_address [OF this] obtain evs where "tr' = (tr @ [?e]) @ evs" "address_from evs (tn_ID t) c info" by blast
  then show ?thesis by (intro exI [of _ "?e # evs"]) (auto elim: address_from_mono)
next
  case (Inr res)
  let ?e = "EtcdEv (KeysGet (pod_key (tn_ID t) c) False) (Inr res)"
  from Inr assms obtain n where n: "re_Node res = Some n" by (auto simp: GetNewIP_def etcd_call_eq split: option.splits)
  show ?thesis
  proof (cases "Unmarshal IPInfo_fields IPInfo_zero (node_Value n)")
    case None
    with Inr n assms have "allocate_ip E (tn_ID t) c (tr @ [?e]) = (Ok info, tr')" by (simp add: GetNewIP_def etcd_call_eq)
    from allocate_address [OF this] obtain evs where "tr' = (tr @ [?e]) @ evs" "address_from evs (tn_ID t) c info" by blast
    then show ?thesis by (intro exI [of _ "?e # evs"]) (auto elim: address_from_mono)
  next
    case (Some i)
    with Inr n assms have "tr' = tr @ [?e]" "i = info" by (simp_all add: GetNewIP_def etcd_call_eq)
    with Some n show ?thesis by (intro exI [of _ "[?e]"]) (auto simp: address_from_def)
  qed
qed

lemma new_address_from:
  assumes "new_address E m t c tr = Some (Ok info, tr')"
  shows "\<exists>evs. tr' = tr @ evs \<and> address_from evs (tn_ID t) c info"
proof -
  obtain r t1 where g: "GetNewIP E t c tr = (r, t1)" by fastforce
  show ?thesis
  proof (cases r)
    case (Ok i)
    with assms g have "GetNewIP E t c tr = (Ok info, tr')" by (simp add: new_address_def)
    then show ?thesis by (rule GetNewIP_address)
  next
    case (Err e)
    with assms g obtain b t2 where b: "CreateNewBridge E m t t1 = Some (Ok b, t2)"
      and g2: "GetNewIP E t c t2 = (Ok info, tr')"
      by (auto simp: new_address_def split: if_splits bind_splits outcome.splits prod.splits)
    from GetNewIP_grows [OF g] CreateNewBridge_grows [OF b] obtain pre where "t2 = tr @ pre"
      by (metis prefixE prefix_order.trans)
    moreover from GetNewIP_address [OF g2] obtain evs where "tr' = t2 @ evs" "address_from evs (tn_ID t) c info" by blast
    ultimately show ?thesis by (intro exI [of _ "pre @ evs"]) (auto elim: address_from_mono)
  next
    case Panic
    with assms g show ?thesis by (simp add: new_address_def)
  qed
qed

lemma Bingding_bound:
  assumes "Bingding E m i t c tr = (Ok x, tr')"
  shows "\<exists>evs. tr' = tr @ evs \<and> bound evs t c"
proof -
  obtain evs where evs: "tr' = tr @ evs" using Bingding_grows [OF assms] by (auto elim: prefixE)
  have "bound evs t c"
    using assms evs unfolding bound_def
    by (auto simp: Bingding_def etcd_call_eq CreateBridgePort_def fresh_id_def CreateUUID_def Let_def send_def mido_call_eq
        BindingInterface_def DeleteBinding_def binding_check_def
        split: sum.splits option.splits if_splits prod.splits)
  with evs show ?thesis by blast
qed

lemma bind_twice_bound:
  assumes "bind_twice E m args t c tr = (Ok x, tr')"
  shows "12 \<le> length (ca_ContainerID args) \<and> (\<exists>evs. tr' = tr @ evs \<and> bound evs t c)"
proof -
  let ?i = "''vif'' @ take 12 (ca_ContainerID args)"
  obtain r t1 where b: "Bingding E m ?i t c tr = (r, t1)" by fastforce
  from assms have len: "12 \<le> length (ca_ContainerID args)" by (auto simp: bind_twice_def split: if_splits)
  show ?thesis
  proof (cases r)
    case (Err e)
    with assms b len have "Bingding E m ?i t c t1 = (Ok x, tr')" by (auto simp: bind_twice_def split: if_splits)
    from Bingding_bound [OF this] obtain evs where "tr' = t1 @ evs" "bound evs t c" by blast
    moreover from Bingding_grows [OF b] obtain pre where "t1 = tr @ pre" by (auto elim: prefixE)
    ultimately have "tr' = tr @ (pre @ evs) \<and> bound (pre @ evs) t c" by (auto elim: bound_mono)
    with len show ?thesis by blast
  next
    case (Ok y)
    with assms b len have "Bingding E m ?i t c tr = (Ok x, tr')" by (auto simp: bind_twice_def split: if_splits)
    with len Bingding_bound show ?thesis by blast
  qed (use assms b in \<open>auto simp: bind_twice_def split: if_splits\<close>)
qed

subsection \<open>\<open>CmdAddK8s\<close>\<close>

lemma set_up_Ok:
  assumes "set_up E args opts c r tr = (Ok r', tr')"
  shows "r' = r \<and> (\<exists>v evs a. Result_json r = Some v \<and> tr' = tr @ evs @ [EtcdEv (KeysSet (result_key c) (show_json v) False 0) a])"
proof -
  obtain res t1 where d: "DoNetworking (GetVethCtrl (op_VethCtrlType opts)) E args opts r tr = (res, t1)" by fastforce
  from any_ctrl.net_extends [OF d] obtain evs where "t1 = tr @ evs" by blast
  with assms d show ?thesis by (auto simp: set_up_def etcd_call_eq split: outcome.splits option.splits)
qed

lemma add_container_Ok:
  assumes "add_container E args opts i c tr = Some (Ok r, tr')"
  shows "\<exists>info v evs a t. r = cni_result info \<and> Result_json r = Some v \<and> 12 \<le> length (ca_ContainerID args)
    \<and> tr' = tr @ evs @ [EtcdEv (KeysSet (result_key c) (show_json v) False 0) a]
    \<and> address_from evs t c info \<and> bound evs t c"
proof -
  obtain mgr o' t1 where n: "NewManager E opts tr = ((mgr, o'), t1)" by (metis surj_pair)
  from assms n obtain m where m: "mgr = Inr m" by (auto simp: add_container_def split: sum.splits)
  with assms n obtain tn t2 where g: "GetTenant E m i t1 = Some (Ok tn, t2)"
    by (auto simp: add_container_def split: outcome.splits bind_splits)
  with assms n m obtain info t3 where a: "new_address E m tn c t2 = Some (Ok info, t3)"
    by (auto simp: add_container_def split: outcome.splits sum.splits bind_splits)
  obtain b t4 where b: "bind_twice E m args (tn_ID tn) c t3 = (b, t4)" by fastforce
  with assms n m g a obtain y where y: "b = Ok y" and s: "set_up E args o' c (cni_result info) t4 = (Ok r, tr')"
    by (auto simp: add_container_def split: outcome.splits sum.splits)
  from NewManager_grows [OF n] GetTenant_grows [OF g] obtain pre where pre: "t2 = tr @ pre"
    by (metis prefixE prefix_order.trans)
  from new_address_from [OF a] obtain e1 where e1: "t3 = t2 @ e1" "address_from e1 (tn_ID tn) c info" by blast
  from bind_twice_bound b y obtain e2 where e2: "t4 = t3 @ e2" "bound e2 (tn_ID tn) c" "12 \<le> length (ca_ContainerID args)"
    by blast
  from set_up_Ok [OF s] obtain v e3 q where e3: "r = cni_result info" "Result_json r = Some v"
    "tr' = t4 @ e3 @ [EtcdEv (KeysSet (result_key c) (show_json v) False 0) q]" by auto
  let ?evs = "pre @ e1 @ e2 @ e3"
  have "address_from ?evs (tn_ID tn) c info" using e1(2) by (rule address_from_mono) auto
  moreover have "bound ?evs (tn_ID tn) c" using e2(2) by (rule bound_mono) auto
  moreover have "tr' = tr @ ?evs @ [EtcdEv (KeysSet (result_key c) (show_json v) False 0) q]"
    using pre e1 e2 e3 by simp
  ultimately show ?thesis using e2(3) e3(1,2) by blast
qed

lemma CmdAddK8s_cases:
  assumes "CmdAddK8s E args opts tr = Some (Ok r, tr')"
  obtains (stored) k res n where "cni_LoadArgs (ca_Args args) K8sArgs_zero = Ok k" "re_Node res = Some n"
      "Unmarshal Result_fields Result_zero (node_Value n) = Some r"
      "etcd_srv E tr (KeysGet (result_key (ka_POD_INFRA_CONTAINER_ID k)) False) = Inr res"
      "tr' = tr @ [EtcdEv (KeysGet (result_key (ka_POD_INFRA_CONTAINER_ID k)) False) (Inr res)]"
    | (added) k a where "cni_LoadArgs (ca_Args args) K8sArgs_zero = Ok k"
      "add_container E args opts (ka_POD_NAMESPACE k) (ka_POD_INFRA_CONTAINER_ID k)
         (tr @ [EtcdEv (KeysGet (result_key (ka_POD_INFRA_CONTAINER_ID k)) False) a]) = Some (Ok r, tr')"
proof -
  from assms obtain k where k: "cni_LoadArgs (ca_Args args) K8sArgs_zero = Ok k"
    by (auto simp: CmdAddK8s_def split: outcome.splits)
  show thesis
    using assms k
    by (auto simp: CmdAddK8s_def last_result_def etcd_call_eq split: option.splits sum.splits outcome.splits
        intro: stored added)
qed


text \<open>A call for a container whose result is stored makes one request and gives it back.\<close>

lemma CmdAddK8s_repeats:
  assumes "cni_LoadArgs (ca_Args args) K8sArgs_zero = Ok k" and "CreateETCDClient E (op_ETCDConf opts) = None"
    and "length b = 4" and "n \<le> 32" and "length g = 4" and "Result_json (v4_result b n g) = Some v"
    and "etcd_srv E tr (KeysGet (result_key (ka_POD_INFRA_CONTAINER_ID k)) False) = Inr res"
    and "re_Node res = Some node" and "node_Value node = show_json v"
  shows "CmdAddK8s E args opts tr = Some (Ok (v4_result b n g),
    tr @ [EtcdEv (KeysGet (result_key (ka_POD_INFRA_CONTAINER_ID k)) False) (Inr res)])"
proof -
  from v4_result_roundtrip [OF assms(3-5)] assms(6)
  have "Unmarshal Result_fields Result_zero (show_json v) = Some (v4_result b n g)" by simp
  with assms show ?thesis by (simp add: CmdAddK8s_def last_result_def etcd_call_eq)
qed

subsection \<open>\<open>CmdDelK8s\<close>\<close>

text \<open>
  C30: when the binding of a container is not found, \<open>CmdDelK8s\<close> still succeeds: it deletes the
  stored result and the link to the namespace, and does nothing about the container's
  address, which stays out of the pool. This is what follows an addition that took an
  address and then failed to bind the interface.
\<close>

theorem CmdDelK8s_keeps_address:
  assumes "im_Type (op_IPAM opts) = ''etcd''" and "cni_LoadArgs (ca_Args args) K8sArgs_zero = Ok k"
    and "CreateETCDClient E (op_ETCDConf opts) = None" and "c = ka_POD_INFRA_CONTAINER_ID k" and "t = ka_POD_NAMESPACE k"
    and "\<And>d. etcd_srv E (tr @ [EtcdEv (KeysDelete (result_key c) False False) d]) (KeysGet (binding_key t c) False) = Inl e"
  shows "\<exists>d h. CmdDelK8s E args opts tr = Some (Ok Result_zero,
    tr @ [EtcdEv (KeysDelete (result_key c) False False) d, EtcdEv (KeysGet (binding_key t c) False) (Inl e),
      HostEv (RemoveFile (netns_link args)) h])"
  using assms by (simp add: CmdDelK8s_def del_container_def del_done_def etcd_call_eq host_call_eq)

text \<open>The requests that give an address back: its key in the pool, the deletion of the container's key.\<close>

definition gives_back :: "string \<Rightarrow> string \<Rightarrow> event \<Rightarrow> bool" where
  "gives_back t c e \<longleftrightarrow>
     (\<exists>a. e = EtcdEv (KeysDelete (pod_key t c) False False) a) \<or>
     (\<exists>ip v a. e = EtcdEv (KeysSet (pod_available t @ ''/'' @ ip) v False 0) a)"

definition port_gone :: "UUID \<Rightarrow> event \<Rightarrow> bool" where
  "port_gone p e \<longleftrightarrow> (\<exists>st body. e = MidoEv (mido_req.DeletePort p) (Inr (st, body)) \<and> ok_status st)"

lemma try_times_DeleteBinding:
  "try_times n (DeleteBinding E h) tr = (r, tr') \<Longrightarrow> \<exists>evs. tr' = tr @ evs \<and> list_all (\<lambda>e. \<not> is_etcd e) evs"
proof (induction n arbitrary: tr)
  case (Suc n)
  obtain err t1 where d: "DeleteBinding E h tr = (err, t1)" by fastforce
  then obtain e1 where e1: "t1 = tr @ e1" "list_all (\<lambda>e. \<not> is_etcd e) e1"
    by (auto simp: DeleteBinding_def send_def mido_call_eq is_etcd_def split: sum.splits if_splits)
  from Suc d e1 show ?case by (auto split: option.splits dest!: Suc.IH)
qed simp

lemma try_times_DeletePort:
  "try_times n (DeletePort E i) tr = (r, tr') \<Longrightarrow>
   \<exists>evs. tr' = tr @ evs \<and> list_all (\<lambda>e. \<not> is_etcd e) evs \<and> (r \<longrightarrow> (\<exists>p. i = Some p \<and> list_ex (port_gone p) evs))"
proof (induction n arbitrary: tr)
  case (Suc n)
  obtain err t1 where d: "DeletePort E i tr = (err, t1)" by fastforce
  then obtain e1 where e1: "t1 = tr @ e1" "list_all (\<lambda>e. \<not> is_etcd e) e1"
    "err = None \<longrightarrow> (\<exists>p. i = Some p \<and> list_ex (port_gone p) e1)"
    by (auto simp: DeletePort_def send_def mido_call_eq is_etcd_def port_gone_def split: sum.splits if_splits option.splits)
  show ?case
  proof (cases err)
    case None
    with Suc.prems d e1 show ?thesis by auto
  next
    case (Some x)
    with Suc.prems d have "try_times n (DeletePort E i) t1 = (r, tr')" by simp
    from Suc.IH [OF this] e1 show ?thesis by auto
  qed
qed simp

lemma remove_port_gone:
  assumes "remove_port E opts text tr = (r, tr')"
  shows "\<exists>evs. tr' = tr @ evs \<and> list_all (\<lambda>e. \<not> is_etcd e) evs \<and> (r \<longrightarrow> (\<exists>h p.
    Unmarshal HostInterfacePort_fields HostInterfacePort_zero text = Some h \<and> hp_PortID h = Some p \<and> list_ex (port_gone p) evs))"
proof (cases "Unmarshal HostInterfacePort_fields HostInterfacePort_zero text")
  case None
  with assms show ?thesis by (simp add: remove_port_def)
next
  case (Some h)
  obtain cl c' t1 where n: "NewClient E (op_MidoNetAPIConf opts) tr = ((cl, c'), t1)" by (metis surj_pair)
  then obtain e1 where e1: "t1 = tr @ e1" "list_all (\<lambda>e. \<not> is_etcd e) e1"
    by (auto simp: NewClient_def login_def mido_call_eq Let_def is_etcd_def split: sum.splits prod.splits option.splits if_splits)
  show ?thesis
  proof (cases cl)
    case (Inl e)
    with assms Some n e1 show ?thesis by (auto simp: remove_port_def)
  next
    case (Inr client)
    obtain b t2 where b: "try_times 2 (DeleteBinding E h) t1 = (b, t2)" by fastforce
    with assms Some n Inr have p: "try_times 2 (DeletePort E (hp_PortID h)) t2 = (r, tr')" by (simp add: remove_port_def)
    from try_times_DeleteBinding [OF b] try_times_DeletePort [OF p] e1 Some show ?thesis by fastforce
  qed
qed

lemma not_gives_back:
  "\<not> is_etcd e \<Longrightarrow> \<not> gives_back t c e"
  "\<not> gives_back t c (EtcdEv (KeysDelete (result_key c') False False) a)"
  "\<not> gives_back t c (EtcdEv (KeysGet k b) a)"
  by (auto simp: gives_back_def result_key_def pod_key_def)

lemma ReleaseIP_grows: "ReleaseIP E t v tr = Some (r, tr') \<Longrightarrow> prefix tr tr'"
  by (rule etcd_only_prefix, rule ReleaseIP_etcd)

lemma release_address_grows: "release_address E opts t c tr = Some (r, tr') \<Longrightarrow> prefix tr tr'"
  by (auto simp: release_address_def etcd_call_eq split: sum.splits option.splits bind_splits outcome.splits
      dest!: ReleaseIP_grows append_prefixD intro: prefix_snoc_trans)

text \<open>The port is gone before any of the events that give the address back.\<close>

definition port_first :: "history \<Rightarrow> string \<Rightarrow> string \<Rightarrow> UUID \<Rightarrow> bool" where
  "port_first evs t c p \<longleftrightarrow>
     (\<exists>pre e post. evs = pre @ e # post \<and> port_gone p e \<and> list_all (\<lambda>e. \<not> gives_back t c e) pre)"

lemma port_first_Cons: "port_first evs t c p \<Longrightarrow> \<not> gives_back t c e \<Longrightarrow> port_first (e # evs) t c p"
  unfolding port_first_def by (metis append_Cons list.pred_inject(2))

lemma port_first_append: "port_first evs t c p \<Longrightarrow> port_first (evs @ evs') t c p"
  unfolding port_first_def by force

lemma list_all_not_etcd: "list_all (\<lambda>e. \<not> is_etcd e) evs \<Longrightarrow> list_all (\<lambda>e. \<not> gives_back t c e) evs"
  using not_gives_back(1) by (auto simp: list_all_iff)

lemma unbind_port_first:
  assumes "unbind E opts t c text tr = Some (r, tr')"
  shows "\<exists>evs. tr' = tr @ evs \<and> (list_ex (gives_back t c) evs \<longrightarrow> (\<exists>h p.
    Unmarshal HostInterfacePort_fields HostInterfacePort_zero text = Some h \<and> hp_PortID h = Some p \<and> port_first evs t c p))"
proof -
  obtain d t1 where m: "remove_port E opts text tr = (d, t1)" by fastforce
  from remove_port_gone [OF m] obtain e1 where e1: "t1 = tr @ e1" "list_all (\<lambda>e. \<not> is_etcd e) e1" and port: "d \<longrightarrow> (\<exists>h p.
    Unmarshal HostInterfacePort_fields HostInterfacePort_zero text = Some h \<and> hp_PortID h = Some p \<and> list_ex (port_gone p) e1)"
    by blast
  let ?e = "EtcdEv (KeysDelete (binding_key t c) False False) (etcd_srv E t1 (KeysDelete (binding_key t c) False False))"
  have ne: "\<not> gives_back t c ?e" by (auto simp: gives_back_def binding_key_def pod_key_def)
  show ?thesis
  proof (cases d)
    case False
    with assms m have "tr' = tr @ (e1 @ [?e])" using e1(1) by (simp add: unbind_def etcd_call_eq)
    moreover have "\<not> list_ex (gives_back t c) (e1 @ [?e])"
      using list_all_not_etcd [OF e1(2)] ne by (auto simp: list_ex_iff list_all_iff)
    ultimately show ?thesis by blast
  next
    case True
    with assms m have "release_address E opts t c (t1 @ [?e]) = Some (r, tr')" by (simp add: unbind_def etcd_call_eq)
    from release_address_grows [OF this] obtain e2 where "tr' = (t1 @ [?e]) @ e2" by (auto elim: prefixE)
    then have tr': "tr' = tr @ (e1 @ ?e # e2)" using e1(1) by simp
    from True port obtain h p where hp: "Unmarshal HostInterfacePort_fields HostInterfacePort_zero text = Some h"
      "hp_PortID h = Some p" "list_ex (port_gone p) e1" by blast
    then obtain x where "x \<in> set e1" "port_gone p x" by (auto simp: list_ex_iff)
    then obtain pre post where "e1 = pre @ x # post" by (metis split_list)
    with \<open>port_gone p x\<close> list_all_not_etcd [OF e1(2)] have "port_first e1 t c p" unfolding port_first_def by fastforce
    with hp tr' show ?thesis using port_first_append by blast
  qed
qed

lemma del_container_port_first:
  assumes "del_container E args opts t c tr = Some (r, tr')"
  shows "\<exists>evs. tr' = tr @ evs \<and> (list_ex (gives_back t c) evs \<longrightarrow> (\<exists>res n h p.
    EtcdEv (KeysGet (binding_key t c) False) (Inr res) \<in> set evs \<and> re_Node res = Some n
    \<and> Unmarshal HostInterfacePort_fields HostInterfacePort_zero (node_Value n) = Some h \<and> hp_PortID h = Some p
    \<and> port_first evs t c p))"
proof -
  let ?d = "EtcdEv (KeysDelete (result_key c) False False) (etcd_srv E tr (KeysDelete (result_key c) False False))"
  let ?q = "KeysGet (binding_key t c) False"
  have host: "\<not> gives_back t c (HostEv q h)" for q h by (simp add: gives_back_def)
  show ?thesis
  proof (cases "etcd_srv E (tr @ [?d]) ?q")
    case (Inl e)
    with assms have "\<exists>h. tr' = tr @ [?d, EtcdEv ?q (Inl e), HostEv (RemoveFile (netns_link args)) h]"
      by (auto simp: del_container_def etcd_call_eq del_done_def host_call_eq)
    with not_gives_back(2,3) host show ?thesis by fastforce
  next
    case (Inr res)
    show ?thesis
    proof (cases "re_Node res")
      case None
      with Inr assms have "tr' = tr @ [?d, EtcdEv ?q (Inr res)]" by (simp add: del_container_def etcd_call_eq)
      with not_gives_back(2,3) show ?thesis by fastforce
    next
      case (Some n)
      with Inr assms obtain x t1 where u: "unbind E opts t c (node_Value n) (tr @ [?d, EtcdEv ?q (Inr res)]) = Some (x, t1)"
        and e: "tr' = t1 \<or> (\<exists>h. tr' = t1 @ [HostEv (RemoveFile (netns_link args)) h])"
        by (auto simp: del_container_def etcd_call_eq del_done_def host_call_eq split: bind_splits outcome.splits)
      from unbind_port_first [OF u] obtain e1 where t1: "t1 = tr @ (?d # EtcdEv ?q (Inr res) # e1)" and
        port: "list_ex (gives_back t c) e1 \<longrightarrow> (\<exists>h p. Unmarshal HostInterfacePort_fields HostInterfacePort_zero (node_Value n) = Some h
          \<and> hp_PortID h = Some p \<and> port_first e1 t c p)" by auto
      from e obtain e2 where e2: "tr' = t1 @ e2" "\<not> list_ex (gives_back t c) e2" using host by (auto simp del: append_assoc)
      let ?evs = "?d # EtcdEv ?q (Inr res) # e1 @ e2"
      have "tr' = tr @ ?evs" using t1 e2(1) by simp
      moreover have "list_ex (gives_back t c) ?evs \<longrightarrow> list_ex (gives_back t c) e1"
        using e2(2) not_gives_back(2,3) by auto
      moreover have "port_first e1 t c p \<Longrightarrow> port_first ?evs t c p" for p
        using not_gives_back(2,3) by (intro port_first_Cons) (auto intro: port_first_append)
      moreover have "EtcdEv ?q (Inr res) \<in> set ?evs" by simp
      ultimately show ?thesis using Some port by blast
    qed
  qed
qed

text \<open>
  C7: \<open>CmdDelK8s\<close> gives the container's address back, into the pool or by deleting the
  container's key, only after the API confirmed that the port of its binding was deleted: no
  other container can be given the address while the port is there.
\<close>

theorem CmdDelK8s_port_first:
  assumes "CmdDelK8s E args opts tr = Some (res, tr @ evs)" and "cni_LoadArgs (ca_Args args) K8sArgs_zero = Ok k"
    and "c = ka_POD_INFRA_CONTAINER_ID k" and "t = ka_POD_NAMESPACE k" and "e \<in> set evs"
    and "(\<exists>a. e = EtcdEv (KeysDelete (pod_key t c) False False) a) \<or>
      (\<exists>ip v a. e = EtcdEv (KeysSet (pod_available t @ ''/'' @ ip) v False 0) a)"
  shows "\<exists>b n h p pre st body post. EtcdEv (KeysGet (binding_key t c) False) (Inr b) \<in> set evs \<and> re_Node b = Some n
    \<and> Unmarshal HostInterfacePort_fields HostInterfacePort_zero (node_Value n) = Some h \<and> hp_PortID h = Some p
    \<and> evs = pre @ MidoEv (mido_req.DeletePort p) (Inr (st, body)) # post \<and> ok_status st \<and> e \<notin> set pre"
proof -
  have g: "gives_back t c e" using assms(6) unfolding gives_back_def .
  with assms(5) have ex: "list_ex (gives_back t c) evs" by (auto simp: list_ex_iff)
  with assms(1-4) have "del_container E args opts t c tr = Some (res, tr @ evs)"
    by (auto simp: CmdDelK8s_def split: if_splits option.splits)
  from del_container_port_first [OF this] ex obtain b n h p where f: "EtcdEv (KeysGet (binding_key t c) False) (Inr b) \<in> set evs"
    "re_Node b = Some n" "Unmarshal HostInterfacePort_fields HostInterfacePort_zero (node_Value n) = Some h" "hp_PortID h = Some p"
    "port_first evs t c p" by auto
  from f(5) obtain pre x post where x: "evs = pre @ x # post" "port_gone p x" "list_all (\<lambda>e. \<not> gives_back t c e) pre"
    unfolding port_first_def by blast
  from x(3) g have "e \<notin> set pre" by (auto simp: list_all_iff)
  with f x show ?thesis unfolding port_gone_def by blast
qed

subsection \<open>The commands on concrete services\<close>

text \<open>
  A tenant with two addresses left in its pool, a container that is bound already, and a host
  that does everything.
\<close>

definition sample_k8s :: K8sArgs where
  "sample_k8s = K8sArgs_zero\<lparr>ka_POD_NAMESPACE := ''t1'', ka_POD_INFRA_CONTAINER_ID := ''c1''\<rparr>"

lemma sample_LoadArgs: "cni_LoadArgs (ca_Args sample_args) K8sArgs_zero = Ok sample_k8s"
  unfolding sample_args_def sample_k8s_def by code_simp

lemma sample_ids: "ka_POD_NAMESPACE sample_k8s = ''t1''" "ka_POD_INFRA_CONTAINER_ID sample_k8s = ''c1''"
  by (simp_all add: sample_k8s_def)

definition added_env :: env where
  "added_env = pool_env\<lparr>etcd_srv := \<lambda>tr q. case q of
       KeysGet k False \<Rightarrow>
         if k = tenant_key ''t1'' ''/info'' then Inr (text_answer (show_json (Tenant_json sample_tenant)))
         else if k = binding_key ''t1'' ''c1'' then Inr (text_answer ''{}'')
         else Inl (EtcdError 100 ''Key not found'')
     | _ \<Rightarrow> etcd_srv pool_env tr q,
     mido_srv := \<lambda>_ _. Inr (201, BodyText []), host_srv := \<lambda>_ _. Inr []\<rparr>"

definition shell_conf :: Options where
  "shell_conf = Options_zero\<lparr>op_VethCtrlType := ''shell'', op_IPAM := (op_IPAM Options_zero)\<lparr>im_Type := ''etcd''\<rparr>\<rparr>"

lemma added_env_pool:
  "GetNewIP added_env sample_tenant ''c1'' tr =
    (Ok \<lparr>ii_ContainerID = ''c1'', ii_IPNet = \<lparr>IPNet_IP = v4InV6Prefix @ [10, 0, 0, 2], IPNet_Mask = CIDRMask 24 32\<rparr>,
         ii_Getway = v4InV6Prefix @ [10, 0, 0, 254]\<rparr>, snd (GetNewIP added_env sample_tenant ''c1'' tr))"
proof -
  have g: "gateway (v4_net [10, 0, 0, 2] 24) = Ok (v4InV6Prefix @ [10, 0, 0, 254])"
    by (simp add: gateway_v4 clear_def val4_def bytes4_def)
  have k: "pod_key ''t1'' ''c1'' \<noteq> tenant_key ''t1'' ''/info''" "pod_key ''t1'' ''c1'' \<noteq> binding_key ''t1'' ''c1''"
    by (simp_all add: pod_key_def tenant_key_def binding_key_def)
  show ?thesis
    using g k by (simp add: GetNewIP_def allocate_ip_def etcd_call_eq added_env_def pool_env_def has_suffix_def
        pod_available_def sample_tenant_def ParseCIDR_text) (simp add: v4_net_def)
qed

lemma added_env_run: "\<exists>tr'. CmdAddK8s added_env sample_args shell_conf [] = Some (Ok (v4_result [10, 0, 0, 2] 24 [10, 0, 0, 254]), tr')"
proof -
  have keys: "result_key ''c1'' \<noteq> tenant_key ''t1'' ''/info''" "result_key ''c1'' \<noteq> binding_key ''t1'' ''c1''"
    "binding_key ''t1'' ''c1'' \<noteq> tenant_key ''t1'' ''/info''"
    by (simp_all add: result_key_def tenant_key_def binding_key_def)
  have n: "etcd_new added_env = (\<lambda>_. None)" by (simp add: added_env_def pool_env_def silent_env_def)
  have host: "host_srv added_env = (\<lambda>_ _. Inr [])" by (simp add: added_env_def)
  have mido: "mido_srv added_env = (\<lambda>_ _. Inr (201, BodyText []))" by (simp add: added_env_def)
  have get: "etcd_srv added_env tr (KeysGet (result_key ''c1'') False) = Inl (EtcdError 100 ''Key not found'')"
    "etcd_srv added_env tr (KeysGet (tenant_key ''t1'' ''/info'') False) = Inr (text_answer (show_json (Tenant_json sample_tenant)))"
    "etcd_srv added_env tr (KeysGet (binding_key ''t1'' ''c1'') False) = Inr (text_answer ''{}'')" for tr
    using keys by (simp_all add: added_env_def)
  have last: "last_result added_env ''c1'' tr = (Ok None, tr @ [EtcdEv (KeysGet (result_key ''c1'') False) (Inl (EtcdError 100 ''Key not found''))])" for tr
    by (simp add: last_result_def etcd_call_eq get)
  have mgr: "\<exists>m o' t. NewManager added_env shell_conf tr = ((Inr m, o'), t) \<and> op_VethCtrlType o' = ''shell''" for tr
    by (simp add: NewManager_def NewClient_def login_def mido_call_eq mido n CreateETCDClient_def Let_def shell_conf_def)
  have ten: "\<exists>t. GetTenant added_env m ''t1'' tr = Some (Ok sample_tenant, t)" for m tr
    by (simp add: GetTenant_def etcd_call_eq get text_answer_def Tenant_roundtrip del: show_json.simps)
  have addr: "\<exists>t. new_address added_env m sample_tenant ''c1'' tr = Some (Ok \<lparr>ii_ContainerID = ''c1'',
      ii_IPNet = \<lparr>IPNet_IP = v4InV6Prefix @ [10, 0, 0, 2], IPNet_Mask = CIDRMask 24 32\<rparr>,
      ii_Getway = v4InV6Prefix @ [10, 0, 0, 254]\<rparr>, t)" for m tr
    unfolding new_address_def by (subst added_env_pool) simp
  have bnd: "\<exists>t. bind_twice added_env m sample_args ''t1'' ''c1'' tr = (Ok (), t)" for m tr
    by (simp add: bind_twice_def sample_args_def Bingding_def etcd_call_eq get)
  have net: "\<exists>t. set_up added_env sample_args o' ''c1'' (v4_result [10, 0, 0, 2] 24 [10, 0, 0, 254]) tr
      = (Ok (v4_result [10, 0, 0, 2] 24 [10, 0, 0, 254]), t)" if "op_VethCtrlType o' = ''shell''" for o' tr
    using that v4_result_roundtrip [of "[10, 0, 0, 2]" 24 "[10, 0, 0, 254]"]
    by (auto simp: set_up_def GetVethCtrl_def shell_DoNetworking_def ExecCreateBr_def ExecBindingIP_def exec_twice_def
        host_do_def host_call_eq host v4_result_def)
  have ipam: "\<exists>x. CreateEtcdIpam added_env opts = Inr x" for opts by (simp add: CreateEtcdIpam_def n CreateETCDClient_def)
  have r: "cni_result \<lparr>ii_ContainerID = ''c1'', ii_IPNet = \<lparr>IPNet_IP = v4InV6Prefix @ [10, 0, 0, 2], IPNet_Mask = CIDRMask 24 32\<rparr>,
      ii_Getway = v4InV6Prefix @ [10, 0, 0, 254]\<rparr> = v4_result [10, 0, 0, 2] 24 [10, 0, 0, 254]"
    by (simp add: cni_result_def v4_result_def)
  let ?tr = "[EtcdEv (KeysGet (result_key ''c1'') False) (Inl (EtcdError 100 ''Key not found''))]"
  obtain m o' t1 where 1: "NewManager added_env shell_conf ?tr = ((Inr m, o'), t1)" "op_VethCtrlType o' = ''shell''" using mgr by blast
  obtain t2 where 2: "GetTenant added_env m ''t1'' t1 = Some (Ok sample_tenant, t2)" using ten by blast
  obtain t3 where 3: "new_address added_env m sample_tenant ''c1'' t2 = Some (Ok \<lparr>ii_ContainerID = ''c1'',
      ii_IPNet = \<lparr>IPNet_IP = v4InV6Prefix @ [10, 0, 0, 2], IPNet_Mask = CIDRMask 24 32\<rparr>,
      ii_Getway = v4InV6Prefix @ [10, 0, 0, 254]\<rparr>, t3)" using addr by blast
  obtain t4 where 4: "bind_twice added_env m sample_args ''t1'' ''c1'' t3 = (Ok (), t4)" using bnd by blast
  have i: "tn_ID sample_tenant = ''t1''" by (simp add: sample_tenant_def)
  obtain x where 5: "CreateEtcdIpam added_env o' = Inr x" using ipam by blast
  obtain t6 where 6: "set_up added_env sample_args o' ''c1'' (v4_result [10, 0, 0, 2] 24 [10, 0, 0, 254]) t4
      = (Ok (v4_result [10, 0, 0, 2] 24 [10, 0, 0, 254]), t6)" using net 1(2) by blast
  have "add_container added_env sample_args shell_conf ''t1'' ''c1'' ?tr = Some (Ok (v4_result [10, 0, 0, 2] 24 [10, 0, 0, 254]), t6)"
    using 4 by (simp add: add_container_def 1 2 3 5 6 r i)
  then show ?thesis
    by (simp add: CmdAddK8s_def sample_LoadArgs CreateETCDClient_def n sample_ids last)
qed

text \<open>A container that is bound and has an address.\<close>

definition sample_binding :: HostInterfacePort where
  "sample_binding = \<lparr>hp_HostID = Some (version4 []), hp_InterfaceName = ''vif0123456789ab'', hp_PortID = Some (version4 [])\<rparr>"

definition bound_env :: env where
  "bound_env = silent_env\<lparr>
     etcd_srv := \<lambda>_ q. case q of
       KeysGet k _ \<Rightarrow>
         if k = binding_key ''t1'' ''c1'' then Inr (text_answer (show_json (HostInterfacePort_json sample_binding)))
         else if k = pod_key ''t1'' ''c1'' then Inr (text_answer (cidr_text [10, 0, 0, 2] 24))
         else Inl (EtcdError 100 ''Key not found'')
     | _ \<Rightarrow> Inr \<lparr>re_Action = ''delete'', re_Node = None, re_Index = 9\<rparr>,
     mido_srv := \<lambda>_ _. Inr (204, BodyText [])\<rparr>"

lemma bound_env_run:
  "\<exists>evs a. CmdDelK8s bound_env sample_args shell_conf [] = Some (Ok Result_zero, evs)
    \<and> EtcdEv (KeysDelete (pod_key ''t1'' ''c1'') False False) a \<in> set evs"
proof -
  have keys: "pod_key ''t1'' ''c1'' \<noteq> binding_key ''t1'' ''c1''"
    "pod_available ''t1'' @ ''/iprange'' \<noteq> binding_key ''t1'' ''c1''"
    "pod_available ''t1'' @ ''/iprange'' \<noteq> pod_key ''t1'' ''c1''"
    by (simp_all add: pod_key_def binding_key_def pod_available_def)
  have n: "etcd_new bound_env = (\<lambda>_. None)" by (simp add: bound_env_def silent_env_def)
  have mido: "mido_srv bound_env = (\<lambda>_ _. Inr (204, BodyText []))" by (simp add: bound_env_def)
  have get: "etcd_srv bound_env tr (KeysGet (binding_key ''t1'' ''c1'') False) = Inr (text_answer (show_json (HostInterfacePort_json sample_binding)))"
    "etcd_srv bound_env tr (KeysGet (pod_key ''t1'' ''c1'') False) = Inr (text_answer (cidr_text [10, 0, 0, 2] 24))"
    "etcd_srv bound_env tr (KeysGet (pod_available ''t1'' @ ''/iprange'') False) = Inl (EtcdError 100 ''Key not found'')"
    "etcd_srv bound_env tr (KeysDelete k False False) = Inr \<lparr>re_Action = ''delete'', re_Node = None, re_Index = 9\<rparr>" for tr k
    using keys by (simp_all add: bound_env_def del: show_json.simps)
  have ok: "ok_status 204" by (simp add: ok_status_def)
  have b: "Unmarshal HostInterfacePort_fields HostInterfacePort_zero (show_json (HostInterfacePort_json sample_binding)) = Some sample_binding"
    by (rule HostInterfacePort_roundtrip) (simp_all add: sample_binding_def valid_version4)
  have del: "DeleteBinding bound_env sample_binding tr = (None, tr @ [MidoEv (mido_req.DeleteBinding (version4 []) (version4 [])) (Inr (204, BodyText []))])"
    "DeletePort bound_env (hp_PortID sample_binding) tr = (None, tr @ [MidoEv (mido_req.DeletePort (version4 [])) (Inr (204, BodyText []))])" for tr
    by (simp_all add: DeleteBinding_def DeletePort_def binding_check_def send_def mido_call_eq mido ok sample_binding_def)
  have rem: "\<exists>t. remove_port bound_env shell_conf (show_json (HostInterfacePort_json sample_binding)) tr = (True, t)" for tr
    by (simp add: remove_port_def b NewClient_def login_def mido_call_eq mido Let_def del numeral_2_eq_2 del: show_json.simps)
  have rel: "\<exists>pre a. release_address bound_env shell_conf ''t1'' ''c1'' tr
      = Some (Ok (), pre @ [EtcdEv (KeysDelete (pod_key ''t1'' ''c1'') False False) a])" for tr
    by (simp add: release_address_def ReleaseIP_def current_net_def etcd_call_eq get CreateEtcdIpam_def CreateETCDClient_def n text_answer_def)
  let ?t = "[EtcdEv (KeysDelete (result_key ''c1'') False False) (Inr \<lparr>re_Action = ''delete'', re_Node = None, re_Index = 9\<rparr>),
    EtcdEv (KeysGet (binding_key ''t1'' ''c1'') False) (Inr (text_answer (show_json (HostInterfacePort_json sample_binding))))]"
  obtain t1 where 1: "remove_port bound_env shell_conf (show_json (HostInterfacePort_json sample_binding)) ?t = (True, t1)" using rem by blast
  obtain t2 where 2: "Keys_Delete bound_env (binding_key ''t1'' ''c1'') t1 = t2" by blast
  obtain pre a where 3: "release_address bound_env shell_conf ''t1'' ''c1'' (snd t2)
    = Some (Ok (), pre @ [EtcdEv (KeysDelete (pod_key ''t1'' ''c1'') False False) a])" using rel by blast
  have u: "unbind bound_env shell_conf ''t1'' ''c1'' (show_json (HostInterfacePort_json sample_binding)) ?t
    = Some (Ok (), pre @ [EtcdEv (KeysDelete (pod_key ''t1'' ''c1'') False False) a])"
    using 1 2 3 by (cases t2) (simp add: unbind_def)
  have "del_container bound_env sample_args shell_conf ''t1'' ''c1'' []
    = Some (del_done bound_env sample_args (pre @ [EtcdEv (KeysDelete (pod_key ''t1'' ''c1'') False False) a]))"
    using u by (simp add: del_container_def etcd_call_eq get text_answer_def del: show_json.simps)
  moreover have "im_Type (op_IPAM shell_conf) = ''etcd''" by (simp add: shell_conf_def)
  ultimately have run: "CmdDelK8s bound_env sample_args shell_conf []
    = Some (del_done bound_env sample_args (pre @ [EtcdEv (KeysDelete (pod_key ''t1'' ''c1'') False False) a]))"
    by (simp add: CmdDelK8s_def sample_LoadArgs CreateETCDClient_def n sample_ids)
  show ?thesis
    unfolding run del_done_def host_call_eq by (rule exI, rule exI [of _ a], rule conjI, rule refl) simp
qed

lemma added_env_stores: "\<exists>v. Result_json (v4_result [10, 0, 0, 2] 24 [10, 0, 0, 254]) = Some v"
  using v4_result_roundtrip [of "[10, 0, 0, 2]" 24 "[10, 0, 0, 254]"] by auto


theorem CmdDelK8s_keeps_address_witness:
  "\<exists>d h. CmdDelK8s pool_env sample_args shell_conf [] = Some (Ok Result_zero,
    [] @ [EtcdEv (KeysDelete (result_key ''c1'') False False) d,
      EtcdEv (KeysGet (binding_key ''t1'' ''c1'') False) (Inl (EtcdError 100 ''Key not found'')),
      HostEv (RemoveFile (netns_link sample_args)) h])"
  by (rule CmdDelK8s_keeps_address [OF _ sample_LoadArgs])
    (simp_all add: CreateETCDClient_def shell_conf_def sample_ids pool_env_def silent_env_def)

theorem CmdDelK8s_port_first_witness:
  "\<exists>evs e. CmdDelK8s bound_env sample_args shell_conf [] = Some (Ok Result_zero, [] @ evs) \<and> e \<in> set evs
    \<and> (\<exists>b n h p pre st body post. EtcdEv (KeysGet (binding_key ''t1'' ''c1'') False) (Inr b) \<in> set evs \<and> re_Node b = Some n
    \<and> Unmarshal HostInterfacePort_fields HostInterfacePort_zero (node_Value n) = Some h \<and> hp_PortID h = Some p
    \<and> evs = pre @ MidoEv (mido_req.DeletePort p) (Inr (st, body)) # post \<and> ok_status st \<and> e \<notin> set pre)"
proof -
  from bound_env_run obtain evs a where run: "CmdDelK8s bound_env sample_args shell_conf [] = Some (Ok Result_zero, [] @ evs)"
    and e: "EtcdEv (KeysDelete (pod_key ''t1'' ''c1'') False False) a \<in> set evs" by auto
  show ?thesis
    by (intro exI [of _ evs] exI [of _ "EtcdEv (KeysDelete (pod_key ''t1'' ''c1'') False False) a"] conjI run e,
      rule CmdDelK8s_port_first [OF run sample_LoadArgs _ _ e]) (simp_all add: sample_ids)
qed

end
