(* ===== verification/Store.thy ===== *)
theory Store
  imports World
begin

text \<open>
  The contents of etcd as a run sees them: the map that the requests of a history leave, and
  the interface of the keys API that the commands rely on for the keys nobody else changes.
\<close>

subsection \<open>The contents after a history\<close>

text \<open>A request changes the contents when it is answered without an error.\<close>

definition store_step :: "event \<Rightarrow> (string \<rightharpoonup> string) \<Rightarrow> (string \<rightharpoonup> string)" where
  "store_step e m =
     (case e of
        EtcdEv (KeysSet k v _ _) (Inr _) \<Rightarrow> m(k \<mapsto> v)
      | EtcdEv (KeysUpdate k v) (Inr _) \<Rightarrow> m(k \<mapsto> v)
      | EtcdEv (KeysDelete k _ recursive) (Inr _) \<Rightarrow>
          (\<lambda>k'. if k' = k \<or> recursive \<and> prefix (k @ ''/'') k' then None else m k')
      | _ \<Rightarrow> m)"

definition store :: "(string \<rightharpoonup> string) \<Rightarrow> history \<Rightarrow> (string \<rightharpoonup> string)" where
  "store m tr = fold store_step tr m"

lemma store_Nil [simp]: "store m [] = m"
  by (simp add: store_def)

lemma store_append [simp]: "store m (tr @ evs) = store (store m tr) evs"
  by (simp add: store_def)

lemma store_Cons [simp]: "store m (e # evs) = store (store_step e m) evs"
  by (simp add: store_def)

lemma store_step_simps [simp]:
  "store_step (EtcdEv q (Inl err)) m = m"
  "store_step (EtcdEv (KeysGet k r) a) m = m"
  "store_step (EtcdEv (KeysSet k v x y) (Inr b)) m = m(k \<mapsto> v)"
  "store_step (EtcdEv (KeysDelete k d False) (Inr b)) m = m(k := None)"
  "store_step (EtcdEv (WatchNext k i) a) m = m"
  "store_step (MidoEv mq ma) m = m" "store_step (HostEv hq ha) m = m"
  by (auto simp: store_step_def split: etcd_req.split sum.split)

text \<open>The event leaves the key alone.\<close>

definition keeps :: "string \<Rightarrow> event \<Rightarrow> bool" where
  "keeps k e \<longleftrightarrow> (\<forall>m. store_step e m k = m k)"

lemma keeps_simps [simp]:
  "keeps k (EtcdEv (KeysGet k' r) a)" "keeps k (EtcdEv (WatchNext k' i) a)"
  "keeps k (MidoEv mq ma)" "keeps k (HostEv hq ha)" "keeps k (UuidEv u)"
  "k \<noteq> k' \<Longrightarrow> keeps k (EtcdEv (KeysSet k' v x y) a)"
  "k \<noteq> k' \<Longrightarrow> keeps k (EtcdEv (KeysDelete k' d False) a)"
  by (auto simp: keeps_def store_step_def split: sum.split)

lemma store_keeps: "list_all (keeps k) evs \<Longrightarrow> store m evs k = m k"
  by (induction evs arbitrary: m) (simp_all add: keeps_def)

subsection \<open>The interface\<close>

text \<open>
  What etcd promises about the keys in \<open>K\<close>, which only this run's requests change: a \<open>Get\<close>
  finds what the last change left. \<open>m\<close> is what was there at the beginning.
\<close>

locale etcd_reads =
  fixes E :: env and K :: "string set" and m :: "string \<rightharpoonup> string"
  assumes found: "k \<in> K \<Longrightarrow> store m tr k = Some v \<Longrightarrow>
      \<exists>res n. etcd_srv E tr (KeysGet k False) = Inr res \<and> re_Node res = Some n \<and> node_Value n = v"
    and missing: "k \<in> K \<Longrightarrow> store m tr k = None \<Longrightarrow> \<exists>e. etcd_srv E tr (KeysGet k False) = Inl e"
begin

lemma get_Some:
  assumes "k \<in> K" and "store m tr k = Some v"
  obtains res n where "etcd_srv E tr (KeysGet k False) = Inr res" "re_Node res = Some n" "node_Value n = v"
  using found [OF assms] by blast

lemma store_of_answer:
  assumes "k \<in> K" and "etcd_srv E tr (KeysGet k False) = Inr res" and "re_Node res = Some n"
  shows "store m tr k = Some (node_Value n)"
proof (cases "store m tr k")
  case None
  with missing [OF assms(1) None] assms(2) show ?thesis by simp
next
  case (Some v)
  with found [OF assms(1) Some] assms(2,3) show ?thesis by auto
qed

end

text \<open>And it accepts changes: a \<open>Set\<close>, and the deletion of a key that is there.\<close>

locale etcd_store = etcd_reads +
  assumes set_accepted: "k \<in> K \<Longrightarrow> \<exists>a. etcd_srv E tr (KeysSet k v False 0) = Inr a"
    and delete_accepted: "k \<in> K \<Longrightarrow> store m tr k \<noteq> None \<Longrightarrow> \<exists>a. etcd_srv E tr (KeysDelete k False False) = Inr a"
begin

lemma set_store:
  assumes "k \<in> K"
  shows "store m (snd (Keys_Set E k v tr)) = (store m tr)(k \<mapsto> v)"
proof -
  from set_accepted [OF assms] obtain a where "etcd_srv E tr (KeysSet k v False 0) = Inr a" by blast
  then show ?thesis by (simp add: etcd_call_eq)
qed

lemma delete_store:
  assumes "k \<in> K" and "store m tr k \<noteq> None"
  shows "store m (snd (Keys_Delete E k tr)) = (store m tr)(k := None)"
proof -
  from delete_accepted [OF assms] obtain a where "etcd_srv E tr (KeysDelete k False False) = Inr a" by blast
  then show ?thesis by (simp add: etcd_call_eq)
qed

end

text \<open>The promises for some keys are promises for fewer.\<close>

lemma etcd_store_subset:
  assumes "etcd_store E K m" and "L \<subseteq> K"
  shows "etcd_store E L m"
  using assms unfolding etcd_store_def etcd_reads_def etcd_store_axioms_def by blast

subsection \<open>An etcd that keeps its promises\<close>

text \<open>
  The keys of an etcd, with the answers of \<open>E\<close> for what the map does not say: lists of a
  directory and watchers.
\<close>

definition store_env :: "(string \<rightharpoonup> string) \<Rightarrow> env \<Rightarrow> env" where
  "store_env m E = E\<lparr>etcd_srv := \<lambda>tr q.
     case q of
       KeysGet k False \<Rightarrow>
         (case store m tr k of
            None \<Rightarrow> Inl (EtcdError ErrorCodeKeyNotFound ''Key not found'')
          | Some v \<Rightarrow> Inr \<lparr>re_Action = ''get'', re_Node = Some (Node k v False []), re_Index = length tr\<rparr>)
     | KeysSet k v True _ \<Rightarrow>
         (if store m tr k \<noteq> None then Inl (EtcdError ErrorCodeNodeExist ''Key already exists'')
          else Inr \<lparr>re_Action = ''create'', re_Node = Some (Node k v False []), re_Index = length tr\<rparr>)
     | KeysSet k v False _ \<Rightarrow> Inr \<lparr>re_Action = ''set'', re_Node = Some (Node k v False []), re_Index = length tr\<rparr>
     | KeysDelete k _ False \<Rightarrow>
         (if store m tr k = None then Inl (EtcdError ErrorCodeKeyNotFound ''Key not found'')
          else Inr \<lparr>re_Action = ''delete'', re_Node = Some (Node k [] False []), re_Index = length tr\<rparr>)
     | _ \<Rightarrow> etcd_srv E tr q\<rparr>"

interpretation env_store: etcd_store "store_env m E" K m for m E K
  by unfold_locales (simp_all add: store_env_def)

end
