(* ===== verification/Lifecycle.thy ===== *)
theory Lifecycle
  imports K8sProps Store
begin

text \<open>
  The life of a container's address: what the two commands leave in etcd, when the keys of the
  container are changed by nobody else. A second addition gives back the result of the first,
  and a deletion puts the address back into the pool and removes the container's keys.
\<close>

subsection \<open>Adding twice\<close>

lemma CmdAddK8s_stored:
  assumes "etcd_reads E {result_key c} m" and "cni_LoadArgs (ca_Args args) K8sArgs_zero = Ok k"
    and "c = ka_POD_INFRA_CONTAINER_ID k" and "CmdAddK8s E args opts tr = Some (Ok (v4_result b n g), tr1)"
    and "length b = 4" and "n \<le> 32" and "length g = 4" and "last tr1 = EtcdEv q (Inr a)"
  shows "\<exists>v. store m tr1 (result_key c) = Some v \<and> Unmarshal Result_fields Result_zero v = Some (v4_result b n g)"
  using assms(4)
proof (cases rule: CmdAddK8s_cases)
  case (stored k' res node)
  with assms(2,3) have "c = ka_POD_INFRA_CONTAINER_ID k'" by simp
  with stored have "store m tr (result_key c) = Some (node_Value node)"
    by (intro etcd_reads.store_of_answer [OF assms(1), of _ tr res]) simp_all
  with stored show ?thesis by simp
next
  case (added k' a')
  with assms(2,3) have c: "ka_POD_INFRA_CONTAINER_ID k' = c" by simp
  from add_container_Ok [OF added(2), unfolded c] obtain v pre x where
    v: "Result_json (v4_result b n g) = Some v" and tr1: "tr1 = pre @ [EtcdEv (KeysSet (result_key c) (show_json v) False 0) x]"
    by (metis append_assoc)
  from tr1 assms(8) have "store m tr1 (result_key c) = Some (show_json v)" by (auto simp del: store_step_simps simp: store_step_def)
  moreover from v4_result_roundtrip [OF assms(5-7)] v
  have "Unmarshal Result_fields Result_zero (show_json v) = Some (v4_result b n g)" by simp
  ultimately show ?thesis by blast
qed

text \<open>
  C15: \<open>CmdAddK8s\<close> is idempotent: when it succeeded with an IPv4 address and its last request
  was accepted, a second call for the container, however much later and with whatever
  configuration, makes a single request and gives the same result, as long as nobody else
  changes the key of the result and the requests in between leave it alone.
\<close>

theorem CmdAddK8s_twice:
  assumes "etcd_reads E {result_key c} m" and "cni_LoadArgs (ca_Args args) K8sArgs_zero = Ok k"
    and "c = ka_POD_INFRA_CONTAINER_ID k" and "CmdAddK8s E args opts tr = Some (Ok (v4_result b n g), tr1)"
    and "length b = 4" and "n \<le> 32" and "length g = 4" and "last tr1 = EtcdEv q (Inr a)"
    and "list_all (keeps (result_key c)) evs"
    and "ca_Args args' = ca_Args args" and "CreateETCDClient E (op_ETCDConf opts') = None"
  shows "\<exists>res. CmdAddK8s E args' opts' (tr1 @ evs) = Some (Ok (v4_result b n g),
    (tr1 @ evs) @ [EtcdEv (KeysGet (result_key c) False) (Inr res)])"
proof -
  from CmdAddK8s_stored [OF assms(1-8)] obtain v where
    s: "store m tr1 (result_key c) = Some v" "Unmarshal Result_fields Result_zero v = Some (v4_result b n g)" by blast
  then have "store m (tr1 @ evs) (result_key c) = Some v" using store_keeps [OF assms(9)] by simp
  then obtain res node where "etcd_srv E (tr1 @ evs) (KeysGet (result_key c) False) = Inr res"
    "re_Node res = Some node" "node_Value node = v"
    by (rule etcd_reads.get_Some [OF assms(1), of "result_key c", simplified])
  with assms(2,3,10,11) s(2) show ?thesis
    by (simp add: CmdAddK8s_def last_result_def etcd_call_eq)
qed

subsection \<open>The keys\<close>

lemma lock_event_keeps:
  assumes "lock_event key e" and "k \<noteq> key"
  shows "keeps k e"
proof (cases e)
  case (EtcdEv q a)
  with assms show ?thesis by (cases q) auto
qed (use assms in \<open>auto simp: lock_event_def\<close>)

lemma lock_keeps: "list_all (lock_event key) evs \<Longrightarrow> k \<noteq> key \<Longrightarrow> list_all (keeps k) evs"
  using lock_event_keeps by (auto simp: list_all_iff)

lemma unlock_keeps: "list_all (is_unlock key) evs \<Longrightarrow> k \<noteq> key \<Longrightarrow> list_all (keeps k) evs"
  by (rule lock_keeps) (auto simp: list_all_iff intro: is_unlock_lock_event)

lemma not_etcd_keeps: "list_all (\<lambda>e. \<not> is_etcd e) evs \<Longrightarrow> list_all (keeps k) evs"
  by (auto simp: list_all_iff is_etcd_def keeps_def store_step_def split: event.splits)

text \<open>A container's keys, the pool's and the lock's are different keys, as its identifier has no slash.\<close>

lemma container_keys:
  assumes "CHR ''/'' \<notin> set c"
  shows "result_key c \<noteq> binding_key t c" "result_key c \<noteq> pod_key t c" "result_key c \<noteq> pod_available t @ x"
    "binding_key t c \<noteq> pod_key t c" "binding_key t c \<noteq> pod_available t @ x"
    "pod_key t c \<noteq> pod_available t @ ''/'' @ x" "pod_available t @ ''/'' @ dotted a \<noteq> pod_available t @ ''/iprange''"
    "binding_key t c \<noteq> ''/midonet-cni/tenant/'' @ y" "pod_key t c \<noteq> ''/midonet-cni/tenant/'' @ y"
    "pod_available t @ x \<noteq> ''/midonet-cni/tenant/'' @ y"
proof -
  have "c \<noteq> ''available'' @ ''/'' @ x" using assms by auto
  then show "pod_key t c \<noteq> pod_available t @ ''/'' @ x" by (simp add: pod_key_def pod_available_def)
  have "CHR ''.'' \<in> set (dotted a)" by (simp add: dotted_def)
  then have "dotted a \<noteq> ''iprange''" by auto
  then show "pod_available t @ ''/'' @ dotted a \<noteq> pod_available t @ ''/iprange''" by simp
qed (simp_all add: result_key_def binding_key_def pod_key_def pod_available_def)

subsection \<open>Giving the address back\<close>

lemma ReleaseIP_store:
  assumes "is_network b n" and "length a = 4" and "val4 b \<le> val4 a" and "val4 a < val4 b + 2 ^ (32 - n)"
    and "hostname_srv E = Some h" and "\<And>idx u. watch_ends E (''/midonet-cni/tenant/'' @ t @ ''/bridge/create'') idx u"
    and "etcd_store E K m" and "pod_available t @ ''/iprange'' \<in> K" and "pod_available t @ ''/'' @ dotted a \<in> K"
    and "store m tr (pod_available t @ ''/iprange'') = Some (cidr_text b n)"
  shows "\<exists>evs. ReleaseIP E t (cidr_text a n) tr = Some (Ok (), tr @ evs)
    \<and> store m (tr @ evs) (pod_available t @ ''/'' @ dotted a) = Some (cidr_text a n)
    \<and> (\<forall>k. k \<noteq> pod_available t @ ''/'' @ dotted a \<and> k \<noteq> ''/midonet-cni/tenant/'' @ t @ ''/bridge/create'' \<longrightarrow>
        list_all (keeps k) evs)"
proof -
  let ?k = "pod_available t @ ''/'' @ dotted a" and ?l = "''/midonet-cni/tenant/'' @ t @ ''/bridge/create''"
  from assms(7) have rd: "etcd_reads E K m" by (simp add: etcd_store_def)
  from etcd_reads.found [OF rd assms(8,10)] obtain res node where
    g: "etcd_srv E tr (KeysGet (pod_available t @ ''/iprange'') False) = Inr res" "re_Node res = Some node" "node_Value node = cidr_text b n"
    by blast
  have rel: "ReleaseIP E t (cidr_text a n) tr = with_lock E ?l
      ''etcdsync.NewMutex failed when release old ip'' ''etcdsync.Lock failed when release old ip''
      (\<lambda>tr. Some (Ok (), snd (Keys_Set E ?k (cidr_text a n) tr)))
      (tr @ [EtcdEv (KeysGet (pod_available t @ ''/iprange'') False) (Inr res)])"
    by (rule ReleaseIP_current [OF assms(1-4) g])
  have l: "lock_key ?l = ?l" by (simp add: lock_key_def)
  then obtain r tr' where run: "ReleaseIP E t (cidr_text a n) tr = Some (r, tr')"
    unfolding rel using assms(6) with_lock_returns [OF assms(5), of ?l] by (metis list.distinct(1) append_Cons)
  let ?g = "EtcdEv (KeysGet (pod_available t @ ''/iprange'') False) (Inr res)"
  from run [unfolded rel] show ?thesis
  proof (cases rule: with_lock_cases)
    case refused
    with assms(5) show ?thesis by simp
  next
    case (ran pre s post)
    from etcd_store.set_accepted [OF assms(7,9)] obtain x where x: "etcd_srv E ((tr @ [?g]) @ pre) (KeysSet ?k (cidr_text a n) False 0) = Inr x"
      by blast
    let ?s = "EtcdEv (KeysSet ?k (cidr_text a n) False 0) (Inr x)"
    from ran(2) x have r: "r = Ok ()" "s = tr @ ?g # pre @ [?s]" by (simp_all add: etcd_call_eq)
    have u: "list_all (keeps k) pre" "list_all (keeps k) post" if "k \<noteq> ?l" for k
      using lock_keeps [OF ran(1)] unlock_keeps [OF ran(5)] that l by simp_all
    have "?k \<noteq> ?l" by (simp add: pod_available_def)
    then have "store m (tr @ ?g # pre @ ?s # post) ?k = Some (cidr_text a n)"
      using store_keeps [OF u(2)] by simp
    moreover have "list_all (keeps k) (?g # pre @ ?s # post)" if "k \<noteq> ?k" "k \<noteq> ?l" for k
      using u [OF that(2)] that(1) by simp
    moreover have "ReleaseIP E t (cidr_text a n) tr = Some (Ok (), tr @ ?g # pre @ ?s # post)"
      using run r ran(3) by simp
    ultimately show ?thesis by blast
  qed
qed

text \<open>The MidoNet API can be logged in to, and deletes the port.\<close>

definition api_deletes :: "env \<Rightarrow> MidoNetAPIConf \<Rightarrow> UUID \<Rightarrow> bool" where
  "api_deletes E api p \<longleftrightarrow> (\<forall>tr. \<exists>client api' tr'. NewClient E api tr = ((Inr client, api'), tr'))
     \<and> (\<forall>tr. \<exists>st body. mido_srv E tr (mido_req.DeletePort p) = Inr (st, body) \<and> ok_status st)"

lemma remove_port_works:
  assumes "api_deletes E (op_MidoNetAPIConf opts) p" and "opt_valid (hp_HostID b)" and "hp_PortID b = Some p" and "valid_uuid p"
  shows "\<exists>evs. remove_port E opts (show_json (HostInterfacePort_json b)) tr = (True, tr @ evs) \<and> list_all (\<lambda>e. \<not> is_etcd e) evs"
proof -
  from assms(2-4) have b: "Unmarshal HostInterfacePort_fields HostInterfacePort_zero (show_json (HostInterfacePort_json b)) = Some b"
    by (intro HostInterfacePort_roundtrip) simp_all
  from assms(1) obtain client api' t1 where n: "NewClient E (op_MidoNetAPIConf opts) tr = ((Inr client, api'), t1)"
    unfolding api_deletes_def by blast
  obtain x t2 where d: "try_times 2 (DeleteBinding E b) t1 = (x, t2)" by fastforce
  from assms(1) obtain st body where "mido_srv E t2 (mido_req.DeletePort p) = Inr (st, body)" "ok_status st"
    unfolding api_deletes_def by blast
  then have "try_times 2 (DeletePort E (hp_PortID b)) t2 = (True, t2 @ [MidoEv (mido_req.DeletePort p) (Inr (st, body))])"
    using assms(3) by (simp add: numeral_2_eq_2 DeletePort_def send_def mido_call_eq)
  with b n d have r: "remove_port E opts (show_json (HostInterfacePort_json b)) tr = (True, t2 @ [MidoEv (mido_req.DeletePort p) (Inr (st, body))])"
    by (simp add: remove_port_def del: show_json.simps)
  from remove_port_gone [OF this] r show ?thesis by auto
qed

lemma release_address_store:
  assumes "is_network b n" and "length a = 4" and "val4 b \<le> val4 a" and "val4 a < val4 b + 2 ^ (32 - n)"
    and "hostname_srv E = Some h" and "\<And>idx u. watch_ends E (''/midonet-cni/tenant/'' @ t @ ''/bridge/create'') idx u"
    and "etcd_store E K m" and "{pod_key t c, pod_available t @ ''/iprange'', pod_available t @ ''/'' @ dotted a} \<subseteq> K"
    and "store m tr (pod_key t c) = Some (cidr_text a n)" and "store m tr (pod_available t @ ''/iprange'') = Some (cidr_text b n)"
    and "CreateETCDClient E (op_ETCDConf opts) = None" and "CHR ''/'' \<notin> set c"
  shows "\<exists>evs. release_address E opts t c tr = Some (Ok (), tr @ evs)
    \<and> store m (tr @ evs) (pod_available t @ ''/'' @ dotted a) = Some (cidr_text a n) \<and> store m (tr @ evs) (pod_key t c) = None
    \<and> list_all (keeps (binding_key t c)) evs"
proof -
  let ?pool = "pod_available t @ ''/'' @ dotted a" and ?pod = "pod_key t c"
  from assms(7) have rd: "etcd_reads E K m" by (simp add: etcd_store_def)
  note d = container_keys [OF assms(12)]
  obtain res node where g: "etcd_srv E tr (KeysGet ?pod False) = Inr res" "re_Node res = Some node" "node_Value node = cidr_text a n"
    using etcd_reads.found [OF rd _ assms(9)] assms(8) by blast
  let ?g = "EtcdEv (KeysGet ?pod False) (Inr res)"
  have "store m (tr @ [?g]) (pod_available t @ ''/iprange'') = Some (cidr_text b n)" using assms(10) by simp
  from ReleaseIP_store [OF assms(1-7) _ _ this] assms(8) obtain evs where
    rel: "ReleaseIP E t (cidr_text a n) (tr @ [?g]) = Some (Ok (), (tr @ [?g]) @ evs)"
    and pool: "store m ((tr @ [?g]) @ evs) ?pool = Some (cidr_text a n)"
    and frame: "\<And>k. k \<noteq> ?pool \<Longrightarrow> k \<noteq> ''/midonet-cni/tenant/'' @ t @ ''/bridge/create'' \<Longrightarrow> list_all (keeps k) evs" by auto
  let ?t = "(tr @ [?g]) @ evs"
  have pod: "store m ?t ?pod = Some (cidr_text a n)"
    using store_keeps [OF frame [OF d(6,9)]] assms(9) by simp
  from etcd_store.delete_accepted [OF assms(7), of ?pod ?t] pod assms(8)
  obtain x where x: "etcd_srv E ?t (KeysDelete ?pod False False) = Inr x" by auto
  let ?d = "EtcdEv (KeysDelete ?pod False False) (Inr x)"
  have "release_address E opts t c tr = Some (Ok (), tr @ (?g # evs @ [?d]))"
    using g rel x assms(11) by (simp add: release_address_def etcd_call_eq CreateEtcdIpam_def)
  moreover have "store m (tr @ (?g # evs @ [?d])) ?pool = Some (cidr_text a n)" using pool d(6) [symmetric] by simp
  moreover have "store m (tr @ (?g # evs @ [?d])) ?pod = None" by simp
  moreover have "list_all (keeps (binding_key t c)) (?g # evs @ [?d])"
    using frame [OF d(5,8)] d(4) by simp
  ultimately show ?thesis by blast
qed

lemma CmdDelK8s_releases:
  assumes "im_Type (op_IPAM opts) = ''etcd''" and "cni_LoadArgs (ca_Args args) K8sArgs_zero = Ok k"
    and "c = ka_POD_INFRA_CONTAINER_ID k" and "t = ka_POD_NAMESPACE k" and "CHR ''/'' \<notin> set c"
    and "CreateETCDClient E (op_ETCDConf opts) = None" and "hostname_srv E = Some h"
    and "\<And>idx u. watch_ends E (''/midonet-cni/tenant/'' @ t @ ''/bridge/create'') idx u"
    and "api_deletes E (op_MidoNetAPIConf opts) p"
    and "etcd_store E {binding_key t c, pod_key t c, pod_available t @ ''/iprange'', pod_available t @ ''/'' @ dotted a} m"
    and "is_network b n" and "length a = 4" and "val4 b \<le> val4 a" and "val4 a < val4 b + 2 ^ (32 - n)"
    and "store m tr (pod_available t @ ''/iprange'') = Some (cidr_text b n)"
    and "store m tr (pod_key t c) = Some (cidr_text a n)"
    and "store m tr (binding_key t c) = Some (show_json (HostInterfacePort_json i))"
    and "opt_valid (hp_HostID i)" and "hp_PortID i = Some p" and "valid_uuid p"
  shows "\<exists>tr'. CmdDelK8s E args opts tr = Some (Ok Result_zero, tr')
    \<and> store m tr' (pod_available t @ ''/'' @ dotted a) = Some (cidr_text a n)
    \<and> store m tr' (pod_key t c) = None \<and> store m tr' (binding_key t c) = None"
proof -
  let ?K = "{binding_key t c, pod_key t c, pod_available t @ ''/iprange'', pod_available t @ ''/'' @ dotted a}"
  let ?bind = "binding_key t c" and ?pool = "pod_available t @ ''/'' @ dotted a" and ?pod = "pod_key t c"
  from assms(10) have rd: "etcd_reads E ?K m" by (simp add: etcd_store_def)
  note d = container_keys [OF assms(5)]
  let ?r = "EtcdEv (KeysDelete (result_key c) False False) (etcd_srv E tr (KeysDelete (result_key c) False False))"
  have kr: "list_all (keeps k) [?r]" if "k \<in> ?K" for k using that d(1-3) [symmetric] by auto
  have s1: "store m (tr @ [?r]) k = store m tr k" if "k \<in> ?K" for k using store_keeps [OF kr [OF that]] by simp
  obtain res node where g: "etcd_srv E (tr @ [?r]) (KeysGet ?bind False) = Inr res" "re_Node res = Some node"
      "node_Value node = show_json (HostInterfacePort_json i)"
    using etcd_reads.found [OF rd, of ?bind "tr @ [?r]"] s1 [of ?bind] assms(17) by auto
  let ?t1 = "tr @ [?r, EtcdEv (KeysGet ?bind False) (Inr res)]"
  obtain e1 where rem: "remove_port E opts (show_json (HostInterfacePort_json i)) ?t1 = (True, ?t1 @ e1)"
    and ne: "list_all (\<lambda>e. \<not> is_etcd e) e1" using remove_port_works [OF assms(9,18-20)] by blast
  let ?t2 = "?t1 @ e1"
  have s2: "store m ?t2 k = store m tr k" if "k \<in> ?K" for k
    using store_keeps [OF not_etcd_keeps [OF ne]] s1 [OF that] by simp
  from etcd_store.delete_accepted [OF assms(10), of ?bind ?t2] s2 [of ?bind] assms(17)
  obtain x where x: "etcd_srv E ?t2 (KeysDelete ?bind False False) = Inr x" by auto
  let ?t3 = "?t2 @ [EtcdEv (KeysDelete ?bind False False) (Inr x)]"
  have s3: "store m ?t3 ?pod = Some (cidr_text a n)" "store m ?t3 (pod_available t @ ''/iprange'') = Some (cidr_text b n)"
    using s2 [of ?pod] s2 [of "pod_available t @ ''/iprange''"] assms(15,16) d(4,5) [symmetric] by simp_all
  obtain e2 where rel: "release_address E opts t c ?t3 = Some (Ok (), ?t3 @ e2)"
    and e2: "store m (?t3 @ e2) ?pool = Some (cidr_text a n)" "store m (?t3 @ e2) ?pod = None" "list_all (keeps ?bind) e2"
    using release_address_store [OF assms(11-14,7,8,10) _ s3 assms(6,5)] by auto
  have bind: "store m (?t3 @ e2) ?bind = None" using store_keeps [OF e2(3)] by simp
  have u: "unbind E opts t c (show_json (HostInterfacePort_json i)) ?t1 = Some (Ok (), ?t3 @ e2)"
    using rem x rel by (simp add: unbind_def etcd_call_eq del: show_json.simps)
  let ?h = "HostEv (RemoveFile (netns_link args)) (host_srv E (?t3 @ e2) (RemoveFile (netns_link args)))"
  have "del_container E args opts t c tr = Some (Ok Result_zero, (?t3 @ e2) @ [?h])"
    using g u by (simp add: del_container_def etcd_call_eq del_done_def host_call_eq del: show_json.simps)
  with assms(1-4,6) have "CmdDelK8s E args opts tr = Some (Ok Result_zero, (?t3 @ e2) @ [?h])"
    by (simp add: CmdDelK8s_def)
  moreover have "store m ((?t3 @ e2) @ [?h]) = store m (?t3 @ e2)" by simp
  ultimately show ?thesis using e2(1,2) bind by metis
qed

text \<open>
  \<open>CmdDelK8s\<close> gives the address back. For a container that is bound and has an address of
  the current network, with an etcd that accepts changes and an API that deletes the port, it
  returns, and the address is in the pool again under its own key and with the value it was
  created with, the container's address and binding are gone, and the port was deleted.
\<close>

theorem CmdDelK8s_gives_back:
  assumes "im_Type (op_IPAM opts) = ''etcd''" and "cni_LoadArgs (ca_Args args) K8sArgs_zero = Ok k"
    and "c = ka_POD_INFRA_CONTAINER_ID k" and "t = ka_POD_NAMESPACE k" and "CHR ''/'' \<notin> set c"
    and "CreateETCDClient E (op_ETCDConf opts) = None" and "hostname_srv E = Some h"
    and "\<And>idx u. watch_ends E (''/midonet-cni/tenant/'' @ t @ ''/bridge/create'') idx u"
    and "api_deletes E (op_MidoNetAPIConf opts) p"
    and "etcd_store E {binding_key t c, pod_key t c, pod_available t @ ''/iprange'', pod_available t @ ''/'' @ dotted a} m"
    and "is_network b n" and "length a = 4" and "val4 b \<le> val4 a" and "val4 a < val4 b + 2 ^ (32 - n)"
    and "store m tr (pod_available t @ ''/iprange'') = Some (cidr_text b n)"
    and "store m tr (pod_key t c) = Some (cidr_text a n)"
    and "store m tr (binding_key t c) = Some (show_json (HostInterfacePort_json i))"
    and "opt_valid (hp_HostID i)" and "hp_PortID i = Some p" and "valid_uuid p"
  shows "\<exists>tr'. CmdDelK8s E args opts tr = Some (Ok Result_zero, tr')
    \<and> store m tr' (pod_available t @ ''/'' @ dotted a) = Some (cidr_text a n)
    \<and> store m tr' (pod_key t c) = None \<and> store m tr' (binding_key t c) = None"
  using assms by (rule CmdDelK8s_releases)

subsection \<open>On concrete services\<close>

text \<open>An etcd that keeps its promises, a host that does everything and an API that accepts everything.\<close>

definition kept_env :: "(string \<rightharpoonup> string) \<Rightarrow> env" where
  "kept_env m = store_env m (added_env\<lparr>etcd_srv := \<lambda>tr q. case q of
       WatchNext _ _ \<Rightarrow> Inl (OtherError ''connection closed'')
     | _ \<Rightarrow> etcd_srv added_env tr q,
     mido_srv := \<lambda>_ _. Inr (204, BodyText [])\<rparr>)"

lemma kept_env_reads: "etcd_reads (kept_env m) K m" and kept_env_store: "etcd_store (kept_env m) K m"
  unfolding kept_env_def by (rule env_store.etcd_reads_axioms, rule env_store.etcd_store_axioms)

lemma kept_env_new: "CreateETCDClient (kept_env m) conf = None"
  by (simp add: CreateETCDClient_def kept_env_def store_env_def added_env_def pool_env_def silent_env_def)

definition bound_store :: "string \<rightharpoonup> string" where
  "bound_store = [pod_available ''t1'' @ ''/iprange'' \<mapsto> cidr_text [10, 0, 0, 0] 24,
     pod_key ''t1'' ''c1'' \<mapsto> cidr_text [10, 0, 0, 2] 24,
     binding_key ''t1'' ''c1'' \<mapsto> show_json (HostInterfacePort_json sample_binding)]"

theorem CmdDelK8s_gives_back_witness:
  "\<exists>tr'. CmdDelK8s (kept_env bound_store) sample_args shell_conf [] = Some (Ok Result_zero, tr')
    \<and> store bound_store tr' (pod_available ''t1'' @ ''/'' @ dotted [10, 0, 0, 2]) = Some (cidr_text [10, 0, 0, 2] 24)
    \<and> store bound_store tr' (pod_key ''t1'' ''c1'') = None \<and> store bound_store tr' (binding_key ''t1'' ''c1'') = None"
proof -
  have mido: "mido_srv (kept_env bound_store) = (\<lambda>_ _. Inr (204, BodyText []))"
    by (simp add: kept_env_def store_env_def)
  have api: "api_deletes (kept_env bound_store) (op_MidoNetAPIConf shell_conf) (version4 [])"
    by (simp add: api_deletes_def NewClient_def login_def mido_call_eq mido Let_def ok_status_def)
  have w: "watch_ends (kept_env bound_store) k idx u" for k idx u
    by (rule watch_fails [where e = "OtherError ''connection closed''"]) (simp add: kept_env_def store_env_def)
  have s: "store bound_store [] (pod_available ''t1'' @ ''/iprange'') = Some (cidr_text [10, 0, 0, 0] 24)"
    "store bound_store [] (pod_key ''t1'' ''c1'') = Some (cidr_text [10, 0, 0, 2] 24)"
    "store bound_store [] (binding_key ''t1'' ''c1'') = Some (show_json (HostInterfacePort_json sample_binding))"
    by (simp_all add: bound_store_def pod_key_def pod_available_def binding_key_def del: show_json.simps)
  show ?thesis
    by (rule CmdDelK8s_gives_back [OF _ sample_LoadArgs _ _ _ kept_env_new _ w api kept_env_store _ _ _ _ s])
      (simp_all add: shell_conf_def sample_ids kept_env_def store_env_def added_env_def pool_env_def silent_env_def
        is_network_def val4_def sample_binding_def valid_version4)
qed

theorem CmdAddK8s_twice_witness:
  "\<exists>v tr1 e res. CmdAddK8s (kept_env [result_key ''c1'' \<mapsto> v]) sample_args shell_conf [] = Some (Ok (v4_result [10, 0, 0, 2] 24 [10, 0, 0, 254]), tr1)
    \<and> CmdAddK8s (kept_env [result_key ''c1'' \<mapsto> v]) sample_args Options_zero
      (tr1 @ [EtcdEv (KeysDelete (binding_key ''t1'' ''c1'') False False) e]) = Some (Ok (v4_result [10, 0, 0, 2] 24 [10, 0, 0, 254]),
      (tr1 @ [EtcdEv (KeysDelete (binding_key ''t1'' ''c1'') False False) e])
        @ [EtcdEv (KeysGet (result_key ''c1'') False) (Inr res)])"
proof -
  from added_env_stores obtain j where j: "Result_json (v4_result [10, 0, 0, 2] 24 [10, 0, 0, 254]) = Some j" by blast
  let ?E = "kept_env [result_key ''c1'' \<mapsto> show_json j]"
  have "etcd_srv ?E [] (KeysGet (result_key ''c1'') False)
      = Inr \<lparr>re_Action = ''get'', re_Node = Some (Node (result_key ''c1'') (show_json j) False []), re_Index = 0\<rparr>"
    by (simp add: kept_env_def store_env_def)
  with CmdAddK8s_repeats [OF sample_LoadArgs kept_env_new _ _ _ j, of "[result_key ''c1'' \<mapsto> show_json j]" "[]"]
  obtain tr1 q a where run: "CmdAddK8s ?E sample_args shell_conf [] = Some (Ok (v4_result [10, 0, 0, 2] 24 [10, 0, 0, 254]), tr1)"
    and l: "last tr1 = EtcdEv q (Inr a)" by (auto simp: sample_ids)
  have "list_all (keeps (result_key ''c1'')) [EtcdEv (KeysDelete (binding_key ''t1'' ''c1'') False False) e]" for e
    by (simp add: result_key_def binding_key_def)
  from CmdAddK8s_twice [OF kept_env_reads sample_LoadArgs _ run _ _ _ l this refl kept_env_new]
  have "\<exists>res. CmdAddK8s ?E sample_args Options_zero
      (tr1 @ [EtcdEv (KeysDelete (binding_key ''t1'' ''c1'') False False) (Inl CtxCanceled)])
      = Some (Ok (v4_result [10, 0, 0, 2] 24 [10, 0, 0, 254]),
      (tr1 @ [EtcdEv (KeysDelete (binding_key ''t1'' ''c1'') False False) (Inl CtxCanceled)])
        @ [EtcdEv (KeysGet (result_key ''c1'') False) (Inr res)])"
    by (simp add: sample_ids)
  with run show ?thesis by blast
qed

end
