(* ===== verification/AddressCycle.thy ===== *)
theory AddressCycle
  imports Lifecycle
begin

text \<open>
  From the addition of a container to its deletion: the address it is given leaves the pool,
  is kept under the container's key, and is back in the pool at the end.
\<close>

subsection \<open>What the program relies on in etcd\<close>

text \<open>
  The addresses listed for a pool are those \<open>CreateIPsForTenantBridge\<close> put there: the key ends
  in the address and the value is the address with the length of the network's mask.
\<close>

definition pool_listing :: "env \<Rightarrow> string \<Rightarrow> bytes \<Rightarrow> nat \<Rightarrow> bool" where
  "pool_listing E t b n \<longleftrightarrow> (\<forall>u res dir node. etcd_srv E u (KeysGet (pod_available t) True) = Inr res
     \<longrightarrow> re_Node res = Some dir \<longrightarrow> node \<in> set (node_Nodes dir) \<longrightarrow> \<not> has_suffix (node_Key node) ''/iprange''
     \<longrightarrow> (\<exists>a. length a = 4 \<and> val4 b \<le> val4 a \<and> val4 a < val4 b + 2 ^ (32 - n)
           \<and> node_Key node = pod_available t @ ''/'' @ dotted a \<and> node_Value node = cidr_text a n))"

text \<open>During the run \<open>h\<close>, a stored tenant has the identifier it is stored under.\<close>

definition tenants_named :: "env \<Rightarrow> string \<Rightarrow> history \<Rightarrow> bool" where
  "tenants_named E t h \<longleftrightarrow> (\<forall>u res n tn. prefix u h \<longrightarrow> etcd_srv E u (KeysGet (tenant_key t ''/info'') False) = Inr res
     \<longrightarrow> re_Node res = Some n \<longrightarrow> Unmarshal Tenant_fields Tenant_zero (node_Value n) = Some tn \<longrightarrow> tn_ID tn = t)"

text \<open>During the run \<open>h\<close>, what is found under a container's key is no JSON text of an \<open>IPInfo\<close> (the program stores the text of an address there).\<close>

definition no_info :: "env \<Rightarrow> string \<Rightarrow> string \<Rightarrow> history \<Rightarrow> bool" where
  "no_info E t c h \<longleftrightarrow> (\<forall>u res n. prefix u h \<longrightarrow> etcd_srv E u (KeysGet (pod_key t c) False) = Inr res
     \<longrightarrow> re_Node res = Some n \<longrightarrow> Unmarshal IPInfo_fields IPInfo_zero (node_Value n) = None)"

lemma GetTenant_named:
  "tenants_named E t h \<Longrightarrow> prefix tr h \<Longrightarrow> GetTenant E m t tr = Some (Ok tn, tr') \<Longrightarrow> tn_ID tn = t"
  by (auto simp: GetTenant_def tenants_named_def etcd_call_eq Let_def
      split: sum.splits option.splits if_splits bind_splits outcome.splits)

subsection \<open>The address a container is given\<close>

text \<open>An address of the network was taken out of the pool and stored for the container.\<close>

definition given :: "(string \<rightharpoonup> string) \<Rightarrow> string \<Rightarrow> string \<Rightarrow> bytes \<Rightarrow> nat \<Rightarrow> bytes \<Rightarrow> bool" where
  "given s t c b n a \<longleftrightarrow> length a = 4 \<and> val4 b \<le> val4 a \<and> val4 a < val4 b + 2 ^ (32 - n)
     \<and> s (pod_key t c) = Some (cidr_text a n) \<and> s (pod_available t @ ''/'' @ dotted a) = None"

lemma given_keeps:
  assumes "given (store m tr) t c b n a" and "\<And>k. k = pod_key t c \<or> (\<exists>x. k = pod_available t @ x) \<Longrightarrow> list_all (keeps k) evs"
  shows "given (store m (tr @ evs)) t c b n a"
  using assms(1) store_keeps [OF assms(2)] by (auto simp: given_def)

lemma allocate_ip_given:
  assumes "etcd_store E K m" and "pod_key t c \<in> K" and "CHR ''/'' \<notin> set c"
    and "pool_listing E t b n" and "n \<le> 32" and "allocate_ip E t c tr = (Ok info, tr')"
  shows "\<exists>a. given (store m tr') t c b n a
    \<and> ii_IPNet info = \<lparr>IPNet_IP = v4InV6Prefix @ a, IPNet_Mask = CIDRMask n 32\<rparr>"
  using assms(6)
proof (rule allocate_ip_runs)
  fix res dir node pre d sa ip ipn gw
  assume r: "re_Node res = Some dir" "node \<in> set (node_Nodes dir)" "\<not> has_suffix (node_Key node) ''/iprange''"
    "etcd_srv E tr (KeysGet (pod_available t) True) = Inr res"
    and p: "ParseCIDR (node_Value node) = Inr (ip, ipn)"
    and i: "info = \<lparr>ii_ContainerID = c, ii_IPNet = \<lparr>IPNet_IP = ip, IPNet_Mask = IPNet_Mask ipn\<rparr>, ii_Getway = gw\<rparr>"
    and tr': "tr' = tr @ EtcdEv (KeysGet (pod_available t) True) (Inr res) # pre
       @ [EtcdEv (KeysDelete (node_Key node) False False) (Inr d), EtcdEv (KeysSet (pod_key t c) (node_Value node) False 0) sa]"
    and sa: "sa = etcd_srv E (tr @ EtcdEv (KeysGet (pod_available t) True) (Inr res) # pre
       @ [EtcdEv (KeysDelete (node_Key node) False False) (Inr d)]) (KeysSet (pod_key t c) (node_Value node) False 0)"
  from assms(4) r obtain a where a: "length a = 4" "val4 b \<le> val4 a" "val4 a < val4 b + 2 ^ (32 - n)"
    "node_Key node = pod_available t @ ''/'' @ dotted a" "node_Value node = cidr_text a n"
    unfolding pool_listing_def by blast
  from sa etcd_store.set_accepted [OF assms(1,2)] obtain x where x: "sa = Inr x" by blast
  have "pod_key t c \<noteq> pod_available t @ ''/'' @ dotted a" using container_keys(6) [OF assms(3)] .
  with a tr' x have "given (store m tr') t c b n a" by (simp add: given_def)
  moreover from p a(1,5) assms(5) have "ip = v4InV6Prefix @ a" "IPNet_Mask ipn = CIDRMask n 32"
    by (auto simp: ParseCIDR_text v4_net_def)
  ultimately show ?thesis using i by auto
qed

lemma GetNewIP_given:
  assumes "etcd_store E K m" and "pod_key (tn_ID tn) c \<in> K" and "CHR ''/'' \<notin> set c"
    and "pool_listing E (tn_ID tn) b n" and "n \<le> 32" and "no_info E (tn_ID tn) c h" and "GetNewIP E tn c tr = (Ok info, tr')"
    and "prefix tr' h"
  shows "\<exists>a. given (store m tr') (tn_ID tn) c b n a
    \<and> ii_IPNet info = \<lparr>IPNet_IP = v4InV6Prefix @ a, IPNet_Mask = CIDRMask n 32\<rparr>"
proof -
  let ?q = "KeysGet (pod_key (tn_ID tn) c) False"
  from GetNewIP_grows [OF assms(7)] assms(8) have "prefix tr h" by (rule prefix_order.trans)
  with assms(6,7) have "allocate_ip E (tn_ID tn) c (tr @ [EtcdEv ?q (etcd_srv E tr ?q)]) = (Ok info, tr')"
    by (auto simp: GetNewIP_def etcd_call_eq no_info_def split: sum.splits option.splits)
  then show ?thesis by (rule allocate_ip_given [OF assms(1-5)])
qed

lemma new_address_given:
  assumes "etcd_store E K m" and "pod_key (tn_ID tn) c \<in> K" and "CHR ''/'' \<notin> set c"
    and "pool_listing E (tn_ID tn) b n" and "n \<le> 32" and "no_info E (tn_ID tn) c h" and "new_address E mgr tn c tr = Some (Ok info, tr')"
    and "prefix tr' h"
  shows "\<exists>a. given (store m tr') (tn_ID tn) c b n a
    \<and> ii_IPNet info = \<lparr>IPNet_IP = v4InV6Prefix @ a, IPNet_Mask = CIDRMask n 32\<rparr>"
proof -
  from assms(7) obtain u where "GetNewIP E tn c u = (Ok info, tr')"
    by (auto simp: new_address_def split: prod.splits outcome.splits if_splits bind_splits)
  then show ?thesis using assms(8) by (rule GetNewIP_given [OF assms(1-6)])
qed

subsection \<open>What follows leaves it alone\<close>

lemma Bingding_keeps:
  assumes "Bingding E m i t c tr = (r, tr')" and "k \<noteq> binding_key t c"
  shows "\<exists>evs. tr' = tr @ evs \<and> list_all (keeps k) evs"
  using assms
  by (auto simp: Bingding_def etcd_call_eq CreateBridgePort_def fresh_id_def CreateUUID_def Let_def send_def mido_call_eq
        BindingInterface_def DeleteBinding_def binding_check_def
        split: sum.splits option.splits if_splits prod.splits)

lemma bind_twice_keeps:
  assumes "bind_twice E m args t c tr = (r, tr')" and "k \<noteq> binding_key t c"
  shows "\<exists>evs. tr' = tr @ evs \<and> list_all (keeps k) evs"
proof -
  let ?i = "''vif'' @ take 12 (ca_ContainerID args)"
  obtain r1 t1 where b: "Bingding E m ?i t c tr = (r1, t1)" by fastforce
  from Bingding_keeps [OF this assms(2)] obtain e1 where e1: "t1 = tr @ e1" "list_all (keeps k) e1" by blast
  have "tr' = tr \<or> tr' = t1 \<or> Bingding E m ?i t c t1 = (r, tr')"
    using assms(1) b by (auto simp: bind_twice_def split: if_splits outcome.splits)
  then show ?thesis
  proof (elim disjE)
    assume "Bingding E m ?i t c t1 = (r, tr')"
    from Bingding_keeps [OF this assms(2)] e1 show ?thesis by auto
  qed (use e1 in auto)
qed

lemma host_only_keeps: "list_all is_host evs \<Longrightarrow> list_all (keeps k) evs"
  by (auto simp: list_all_iff is_host_def keeps_def store_step_def split: event.splits)

lemma set_up_keeps:
  assumes "set_up E args opts c r tr = (Ok r', tr')" and "k \<noteq> result_key c"
  shows "\<exists>evs. tr' = tr @ evs \<and> list_all (keeps k) evs"
proof -
  obtain res t1 where d: "DoNetworking (GetVethCtrl (op_VethCtrlType opts)) E args opts r tr = (res, t1)" by fastforce
  from any_ctrl.net_extends [OF d] obtain evs where "t1 = tr @ evs" "list_all is_host evs" by blast
  with assms d host_only_keeps [of evs k] show ?thesis
    by (auto simp: set_up_def etcd_call_eq split: outcome.splits option.splits)
qed

text \<open>An addition that finds no result: what \<open>add_container\<close> leaves.\<close>

lemma add_container_given:
  assumes "add_container E args opts t c tr = Some (Ok r, tr')"
    and "etcd_store E K m" and "pod_key t c \<in> K" and "CHR ''/'' \<notin> set c"
    and "pool_listing E t b n" and "n \<le> 32" and "no_info E t c tr'" and "tenants_named E t tr'"
  shows "\<exists>a ip4. given (store m tr') t c b n a \<and> cr_IP4 r = Some ip4
    \<and> ic_IP ip4 = \<lparr>IPNet_IP = v4InV6Prefix @ a, IPNet_Mask = CIDRMask n 32\<rparr>"
proof -
  obtain mgr o' t1 where n: "NewManager E opts tr = ((mgr, o'), t1)" by (metis surj_pair)
  from assms(1) n obtain x where m: "mgr = Inr x" by (auto simp: add_container_def split: sum.splits)
  with assms(1) n obtain tn t2 where g: "GetTenant E x t t1 = Some (Ok tn, t2)"
    by (auto simp: add_container_def split: outcome.splits bind_splits)
  from assms(1) n m g obtain info t3 where a: "new_address E x tn c t2 = Some (Ok info, t3)"
    by (auto simp: add_container_def split: outcome.splits sum.splits bind_splits)
  obtain y t4 where y: "bind_twice E x args (tn_ID tn) c t3 = (y, t4)" by fastforce
  with assms(1) n m g a have s: "set_up E args o' c (cni_result info) t4 = (Ok r, tr')"
    by (auto simp: add_container_def split: outcome.splits sum.splits)
  from set_up_Ok [OF s] have "prefix t4 tr'" by auto
  with bind_twice_grows [OF y] have p3: "prefix t3 tr'" by (rule prefix_order.trans)
  moreover from new_address_from [OF a] have "prefix t2 t3" by auto
  ultimately have "prefix t1 tr'" using GetTenant_grows [OF g] by (blast intro: prefix_order.trans)
  from GetTenant_named [OF assms(8) this g] have tn: "tn_ID tn = t" .
  from new_address_given [of E K m tn c b n tr' x t2 info t3] assms(2-7) tn a p3 obtain q where
    q: "given (store m t3) t c b n q" "ii_IPNet info = \<lparr>IPNet_IP = v4InV6Prefix @ q, IPNet_Mask = CIDRMask n 32\<rparr>" by auto
  note d = container_keys [OF assms(4)]
  have keep: "\<exists>evs. tr' = t3 @ evs \<and> list_all (keeps k) evs" if "k = pod_key t c \<or> (\<exists>x. k = pod_available t @ x)" for k
  proof -
    have k: "k \<noteq> binding_key t c" "k \<noteq> result_key c" using that d(2,3,4,5) by metis+
    from bind_twice_keeps [OF y [unfolded tn] k(1)] set_up_keeps [OF s k(2)] show ?thesis by auto
  qed
  from keep [of "pod_key t c"] obtain evs where evs: "tr' = t3 @ evs" by blast
  have "list_all (keeps k) evs" if "k = pod_key t c \<or> (\<exists>x. k = pod_available t @ x)" for k
    using keep [OF that] evs by simp
  from given_keeps [OF q(1) this] evs have "given (store m tr') t c b n q" by simp
  moreover from set_up_Ok [OF s] have "r = cni_result info" by blast
  ultimately show ?thesis using q(2) by (auto simp: cni_result_def)
qed

subsection \<open>The cycle\<close>

text \<open>
  C2: an address comes back. Say no result is stored for a container, \<open>CmdAddK8s\<close> succeeds, and
  later \<open>CmdDelK8s\<close> is called for it, while nobody else changes the container's keys and the
  pool's. Then the address of the result is one of the pool's network; after the addition it
  is out of the pool and stored for the container; and the deletion returns with success, the
  address in the pool again under its own key and with its own value, and the container's
  address and binding gone. (The port of the binding is \<open>p\<close>; the API deletes it.)
\<close>

theorem address_cycle:
  assumes "cni_LoadArgs (ca_Args args) K8sArgs_zero = Ok k" and "c = ka_POD_INFRA_CONTAINER_ID k"
    and "t = ka_POD_NAMESPACE k" and "CHR ''/'' \<notin> set c"
    and "etcd_store E ({result_key c, binding_key t c, pod_key t c} \<union> range (\<lambda>x. pod_available t @ x)) m"
    and "is_network b n" and "pool_listing E t b n" and "no_info E t c tr1" and "tenants_named E t tr1"
    and "store m tr (result_key c) = None" and "CmdAddK8s E args opts tr = Some (Ok r, tr1)"
    and "\<And>q. q = binding_key t c \<or> q = pod_key t c \<or> (\<exists>x. q = pod_available t @ x) \<Longrightarrow> list_all (keeps q) evs"
    and "store m tr1 (pod_available t @ ''/iprange'') = Some (cidr_text b n)"
    and "store m tr1 (binding_key t c) = Some (show_json (HostInterfacePort_json i))"
    and "opt_valid (hp_HostID i)" and "hp_PortID i = Some p" and "valid_uuid p"
    and "ca_Args args' = ca_Args args" and "im_Type (op_IPAM opts') = ''etcd''" and "CreateETCDClient E (op_ETCDConf opts') = None"
    and "hostname_srv E = Some h" and "\<And>idx u. watch_ends E (''/midonet-cni/tenant/'' @ t @ ''/bridge/create'') idx u"
    and "api_deletes E (op_MidoNetAPIConf opts') p"
  shows "\<exists>a ip4 tr2. cr_IP4 r = Some ip4 \<and> ic_IP ip4 = \<lparr>IPNet_IP = v4InV6Prefix @ a, IPNet_Mask = CIDRMask n 32\<rparr>
    \<and> val4 b \<le> val4 a \<and> val4 a < val4 b + 2 ^ (32 - n)
    \<and> store m tr1 (pod_available t @ ''/'' @ dotted a) = None \<and> store m tr1 (pod_key t c) = Some (cidr_text a n)
    \<and> CmdDelK8s E args' opts' (tr1 @ evs) = Some (Ok Result_zero, tr2)
    \<and> store m tr2 (pod_available t @ ''/'' @ dotted a) = Some (cidr_text a n)
    \<and> store m tr2 (pod_key t c) = None \<and> store m tr2 (binding_key t c) = None"
proof -
  let ?K = "{result_key c, binding_key t c, pod_key t c} \<union> range (\<lambda>x. pod_available t @ x)"
  from assms(5) have rd: "etcd_reads E ?K m" by (simp add: etcd_store_def)
  obtain e where e: "etcd_srv E tr (KeysGet (result_key c) False) = Inl e"
    using etcd_reads.missing [OF rd _ assms(10)] by blast
  from assms(11) obtain tr0 where add: "add_container E args opts t c tr0 = Some (Ok r, tr1)"
  proof (cases rule: CmdAddK8s_cases)
    case (stored k' res node)
    with assms(1,2) e show thesis by simp
  next
    case (added k' x)
    with assms(1-3) that show thesis by simp
  qed
  from is_networkD(2) [OF assms(6)] have n: "n \<le> 32" .
  from add_container_given [OF add assms(5) _ assms(4,7) n assms(8,9)] obtain a ip4 where
    g: "given (store m tr1) t c b n a" and ip: "cr_IP4 r = Some ip4" "ic_IP ip4 = \<lparr>IPNet_IP = v4InV6Prefix @ a, IPNet_Mask = CIDRMask n 32\<rparr>"
    by auto
  from g have a: "length a = 4" "val4 b \<le> val4 a" "val4 a < val4 b + 2 ^ (32 - n)"
    and s: "store m tr1 (pod_key t c) = Some (cidr_text a n)" "store m tr1 (pod_available t @ ''/'' @ dotted a) = None"
    by (simp_all add: given_def)
  have kept: "store m (tr1 @ evs) q = store m tr1 q"
    if "q = binding_key t c \<or> q = pod_key t c \<or> (\<exists>x. q = pod_available t @ x)" for q
    using store_keeps [OF assms(12) [OF that]] by simp
  have sub: "etcd_store E {binding_key t c, pod_key t c, pod_available t @ ''/iprange'', pod_available t @ ''/'' @ dotted a} m"
    by (rule etcd_store_subset [OF assms(5)]) auto
  from CmdDelK8s_releases [of opts' args' k c t E h p a m b n "tr1 @ evs" i] sub assms(1-4,6,13-23) a s kept
  show ?thesis using ip s a by auto
qed

subsection \<open>A cycle on concrete services\<close>

text \<open>A tenant with one address in its pool, and a container that is bound and has none.\<close>

definition cycle_store :: "string \<rightharpoonup> string" where
  "cycle_store = [tenant_key ''t1'' ''/info'' \<mapsto> show_json (Tenant_json sample_tenant),
     binding_key ''t1'' ''c1'' \<mapsto> show_json (HostInterfacePort_json sample_binding),
     pod_available ''t1'' @ ''/iprange'' \<mapsto> cidr_text [10, 0, 0, 0] 24,
     pod_available ''t1'' @ ''/'' @ dotted [10, 0, 0, 2] \<mapsto> cidr_text [10, 0, 0, 2] 24]"

abbreviation cycle_env :: env where
  "cycle_env \<equiv> kept_env cycle_store"

lemma cycle_env_simps:
  "mido_srv cycle_env = (\<lambda>_ _. Inr (204, BodyText []))" "host_srv cycle_env = (\<lambda>_ _. Inr [])"
  "hostname_srv cycle_env = Some ''node1''"
  "etcd_srv cycle_env u (KeysGet k True) = etcd_srv pool_env u (KeysGet k True)"
  by (simp_all add: kept_env_def store_env_def added_env_def pool_env_def silent_env_def)

lemma cycle_keys:
  "cycle_store (tenant_key ''t1'' ''/info'') = Some (show_json (Tenant_json sample_tenant))"
  "cycle_store (binding_key ''t1'' ''c1'') = Some (show_json (HostInterfacePort_json sample_binding))"
  "cycle_store (pod_available ''t1'' @ ''/iprange'') = Some (cidr_text [10, 0, 0, 0] 24)"
  "cycle_store (pod_available ''t1'' @ ''/'' @ dotted [10, 0, 0, 2]) = Some (cidr_text [10, 0, 0, 2] 24)"
  "cycle_store (pod_key ''t1'' ''c1'') = None" "cycle_store (result_key ''c1'') = None"
proof -
  have "CHR ''.'' \<in> set (dotted [10, 0, 0, 2])" by (simp add: dotted_def)
  then have d: "dotted [10, 0, 0, 2] \<noteq> ''iprange''" by auto
  show "cycle_store (tenant_key ''t1'' ''/info'') = Some (show_json (Tenant_json sample_tenant))"
    "cycle_store (binding_key ''t1'' ''c1'') = Some (show_json (HostInterfacePort_json sample_binding))"
    "cycle_store (pod_available ''t1'' @ ''/iprange'') = Some (cidr_text [10, 0, 0, 0] 24)"
    "cycle_store (pod_available ''t1'' @ ''/'' @ dotted [10, 0, 0, 2]) = Some (cidr_text [10, 0, 0, 2] 24)"
    "cycle_store (pod_key ''t1'' ''c1'') = None" "cycle_store (result_key ''c1'') = None"
    using d by (simp_all add: cycle_store_def tenant_key_def binding_key_def pod_key_def pod_available_def result_key_def
        del: show_json.simps)
qed

lemma cycle_get:
  "store cycle_store u k = Some v \<Longrightarrow> \<exists>i. etcd_srv cycle_env u (KeysGet k False)
     = Inr \<lparr>re_Action = ''get'', re_Node = Some (Node k v False []), re_Index = i\<rparr>"
  "store cycle_store u k = None \<Longrightarrow> etcd_srv cycle_env u (KeysGet k False) = Inl (EtcdError ErrorCodeKeyNotFound ''Key not found'')"
  by (simp_all add: kept_env_def store_env_def)

lemma cycle_listing: "pool_listing cycle_env ''t1'' [10, 0, 0, 0] 24"
proof -
  have "has_suffix (pod_available ''t1'' @ ''/iprange'') ''/iprange''" by (simp add: has_suffix_iff_suffix suffix_def)
  moreover have "dotted [10, 0, 0, 2] = ''10.0.0.2''" by code_simp
  ultimately show ?thesis
    unfolding pool_listing_def cycle_env_simps(4) by (auto simp: pool_env_def val4_def intro!: exI [of _ "[10, 0, 0, 2]"])
qed

text \<open>The events of the addition: the keys but the container's own stay as they are.\<close>

definition quiet :: "event \<Rightarrow> bool" where
  "quiet e \<longleftrightarrow> keeps (tenant_key ''t1'' ''/info'') e \<and> keeps (binding_key ''t1'' ''c1'') e
     \<and> keeps (pod_available ''t1'' @ ''/iprange'') e
     \<and> (keeps (pod_key ''t1'' ''c1'') e \<or> (\<exists>x. e = EtcdEv (KeysSet (pod_key ''t1'' ''c1'') (cidr_text [10, 0, 0, 2] 24) False 0) x))"

lemma quiet_simps [simp]:
  "quiet (EtcdEv (KeysGet k r) x)" "quiet (MidoEv mq ma)" "quiet (HostEv hq ha)"
  "quiet (EtcdEv (KeysSet (pod_key ''t1'' ''c1'') (cidr_text [10, 0, 0, 2] 24) False 0) x)"
  "quiet (EtcdEv (KeysSet (result_key ''c1'') v False 0) x)"
  "quiet (EtcdEv (KeysDelete (pod_available ''t1'' @ ''/'' @ dotted [10, 0, 0, 2]) False False) x)"
proof -
  have c: "CHR ''/'' \<notin> set ''c1''" by simp
  note d = container_keys [OF c]
  have i: "tenant_key ''t1'' ''/info'' = ''/midonet-cni/tenant/'' @ ''t1/info''" by (simp add: tenant_key_def)
  show "quiet (EtcdEv (KeysGet k r) x)" "quiet (MidoEv mq ma)" "quiet (HostEv hq ha)" by (simp_all add: quiet_def)
  show "quiet (EtcdEv (KeysSet (pod_key ''t1'' ''c1'') (cidr_text [10, 0, 0, 2] 24) False 0) x)"
    using d(4) [of "''t1''"] d(6) [of "''t1''" "''iprange''"] d(9) [of "''t1''" "''t1/info''"] unfolding quiet_def i by simp
  show "quiet (EtcdEv (KeysSet (result_key ''c1'') v False 0) x)"
    unfolding quiet_def by (simp add: result_key_def tenant_key_def binding_key_def pod_key_def pod_available_def)
  show "quiet (EtcdEv (KeysDelete (pod_available ''t1'' @ ''/'' @ dotted [10, 0, 0, 2]) False False) x)"
    using d(5) [of "''t1''" "''/'' @ dotted [10, 0, 0, 2]"] d(6) [of "''t1''" "dotted [10, 0, 0, 2]"]
      d(7) [of "''t1''" "[10, 0, 0, 2]"] d(10) [of "''t1''" "''/'' @ dotted [10, 0, 0, 2]" "''t1/info''"]
    unfolding quiet_def i by (intro conjI disjI1 keeps_simps) (simp_all del: append_Cons)
qed

lemma quiet_store:
  assumes "list_all quiet evs"
  shows "store m evs (tenant_key ''t1'' ''/info'') = m (tenant_key ''t1'' ''/info'')"
    "store m evs (binding_key ''t1'' ''c1'') = m (binding_key ''t1'' ''c1'')"
    "store m evs (pod_available ''t1'' @ ''/iprange'') = m (pod_available ''t1'' @ ''/iprange'')"
    "store m evs (pod_key ''t1'' ''c1'') \<in> {m (pod_key ''t1'' ''c1''), Some (cidr_text [10, 0, 0, 2] 24)}"
  using assms
proof (induction evs arbitrary: m)
  case (Cons e evs)
  {
    case 4
    with Cons(4) [of "store_step e m"] show ?case by (auto simp: quiet_def keeps_def store_step_def split: sum.splits)
  }
qed (auto simp: quiet_def keeps_def)

text \<open>The run of the addition, step by step; up to the new address nothing is stored.\<close>

definition still :: "event \<Rightarrow> bool" where
  "still e \<longleftrightarrow> quiet e \<and> (\<forall>m. store_step e m = m)"

lemma still_simps [simp]:
  "still (EtcdEv (KeysGet k r) x)" "still (MidoEv mq ma)" "still (HostEv hq ha)"
  by (simp_all add: still_def)

lemma still_store: "list_all still evs \<Longrightarrow> store m evs = m"
  by (induction evs arbitrary: m) (simp_all add: still_def)

lemma still_quiet: "list_all still evs \<Longrightarrow> list_all quiet evs"
  by (auto simp: list_all_iff still_def)

lemma cycle_manager:
  "\<exists>m o' evs. NewManager cycle_env shell_conf u = ((Inr m, o'), u @ evs) \<and> op_VethCtrlType o' = ''shell'' \<and> list_all still evs"
  by (simp add: NewManager_def NewClient_def login_def mido_call_eq cycle_env_simps kept_env_new Let_def shell_conf_def)

lemma cycle_tenant:
  assumes "store cycle_store u = cycle_store"
  shows "\<exists>evs. GetTenant cycle_env m ''t1'' u = Some (Ok sample_tenant, u @ evs) \<and> list_all still evs"
proof -
  from cycle_get(1) [of u] assms cycle_keys(1) obtain i where "etcd_srv cycle_env u (KeysGet (tenant_key ''t1'' ''/info'') False)
      = Inr \<lparr>re_Action = ''get'', re_Node = Some (Node (tenant_key ''t1'' ''/info'') (show_json (Tenant_json sample_tenant)) False []), re_Index = i\<rparr>"
    by metis
  then show ?thesis by (simp add: GetTenant_def etcd_call_eq Tenant_roundtrip del: show_json.simps)
qed

lemma cycle_address:
  assumes "store cycle_store u = cycle_store"
  shows "\<exists>info evs. new_address cycle_env m sample_tenant ''c1'' u = Some (Ok info, u @ evs) \<and> list_all quiet evs
    \<and> cni_result info = v4_result [10, 0, 0, 2] 24 [10, 0, 0, 254]"
proof -
  let ?pool = "pod_available ''t1'' @ ''/'' @ dotted [10, 0, 0, 2]"
  let ?dir = "Node (pod_available ''t1'') [] True
      [Node ?pool (cidr_text [10, 0, 0, 2] 24) False [], Node (pod_available ''t1'' @ ''/iprange'') (cidr_text [10, 0, 0, 0] 24) False []]"
  let ?list = "\<lparr>re_Action = ''get'', re_Node = Some ?dir, re_Index = 9\<rparr>"
  let ?g = "EtcdEv (KeysGet (pod_key ''t1'' ''c1'') False) (Inl (EtcdError ErrorCodeKeyNotFound ''Key not found''))"
  let ?l = "EtcdEv (KeysGet (pod_available ''t1'') True) (Inr ?list)"
  have d: "dotted [10, 0, 0, 2] = ''10.0.0.2''" by code_simp
  have miss: "etcd_srv cycle_env u (KeysGet (pod_key ''t1'' ''c1'') False) = Inl (EtcdError ErrorCodeKeyNotFound ''Key not found'')"
    using cycle_get(2) [of u] assms cycle_keys(5) by metis
  have list: "etcd_srv cycle_env w (KeysGet (pod_available ''t1'') True) = Inr ?list" for w
    unfolding cycle_env_simps(4) d by (simp add: pool_env_def)
  have "store cycle_store (u @ [?g, ?l]) ?pool \<noteq> None" using assms cycle_keys(4) by simp
  then obtain x where del: "etcd_srv cycle_env (u @ [?g, ?l]) (KeysDelete ?pool False False) = Inr x"
    using etcd_store.delete_accepted [OF kept_env_store [of cycle_store UNIV], of ?pool "u @ [?g, ?l]"] by auto
  let ?x = "EtcdEv (KeysDelete ?pool False False) (Inr x)"
  obtain y where set: "etcd_srv cycle_env (u @ [?g, ?l, ?x]) (KeysSet (pod_key ''t1'' ''c1'') (cidr_text [10, 0, 0, 2] 24) False 0) = y" by blast
  have suf: "\<not> has_suffix ?pool ''/iprange''" "\<not> has_suffix ?pool ''.254''"
    unfolding d by (simp_all add: has_suffix_def pod_available_def)
  have gw: "gateway (v4_net [10, 0, 0, 2] 24) = Ok (v4InV6Prefix @ [10, 0, 0, 254])"
    by (simp add: gateway_v4 clear_def val4_def bytes4_def)
  have "GetNewIP cycle_env sample_tenant ''c1'' u = (Ok \<lparr>ii_ContainerID = ''c1'',
      ii_IPNet = \<lparr>IPNet_IP = v4InV6Prefix @ [10, 0, 0, 2], IPNet_Mask = CIDRMask 24 32\<rparr>, ii_Getway = v4InV6Prefix @ [10, 0, 0, 254]\<rparr>,
      u @ [?g, ?l, ?x, EtcdEv (KeysSet (pod_key ''t1'' ''c1'') (cidr_text [10, 0, 0, 2] 24) False 0) y])"
    using miss list del set suf gw
    by (simp add: GetNewIP_def allocate_ip_def etcd_call_eq sample_tenant_def ParseCIDR_text) (simp add: v4_net_def)
  then show ?thesis using quiet_simps(6) [simplified] by (simp add: new_address_def cni_result_def v4_result_def)
qed

lemma cycle_bind:
  assumes "store cycle_store u (binding_key ''t1'' ''c1'') = cycle_store (binding_key ''t1'' ''c1'')"
  shows "\<exists>evs. bind_twice cycle_env m sample_args ''t1'' ''c1'' u = (Ok (), u @ evs) \<and> list_all still evs"
proof -
  from cycle_get(1) [of u] assms cycle_keys(2) obtain x where "etcd_srv cycle_env u (KeysGet (binding_key ''t1'' ''c1'') False) = Inr x"
    by metis
  then show ?thesis by (simp add: bind_twice_def Bingding_def etcd_call_eq sample_args_def)
qed

lemma cycle_set_up:
  assumes "op_VethCtrlType o' = ''shell''"
  shows "\<exists>evs. set_up cycle_env sample_args o' ''c1'' (v4_result [10, 0, 0, 2] 24 [10, 0, 0, 254]) u
      = (Ok (v4_result [10, 0, 0, 2] 24 [10, 0, 0, 254]), u @ evs) \<and> list_all quiet evs"
  using assms added_env_stores
  by (auto simp: set_up_def GetVethCtrl_def shell_DoNetworking_def ExecCreateBr_def ExecBindingIP_def exec_twice_def
      host_do_def host_call_eq cycle_env_simps etcd_call_eq v4_result_def simp del: show_json.simps)

lemma cycle_added:
  "\<exists>tr1. CmdAddK8s cycle_env sample_args shell_conf [] = Some (Ok (v4_result [10, 0, 0, 2] 24 [10, 0, 0, 254]), tr1)
    \<and> list_all quiet tr1"
proof -
  let ?g = "[EtcdEv (KeysGet (result_key ''c1'') False) (Inl (EtcdError ErrorCodeKeyNotFound ''Key not found''))]"
  have last: "last_result cycle_env ''c1'' [] = (Ok None, ?g)"
    using cycle_get(2) [of "[]" "result_key ''c1''"] cycle_keys(6) by (simp add: last_result_def etcd_call_eq)
  obtain m o' t1 where 1: "NewManager cycle_env shell_conf ?g = ((Inr m, o'), t1)" "op_VethCtrlType o' = ''shell''"
    "store cycle_store t1 = cycle_store" "list_all quiet t1"
  proof -
    obtain m o' evs where "NewManager cycle_env shell_conf ?g = ((Inr m, o'), ?g @ evs)" "op_VethCtrlType o' = ''shell''"
      "list_all still evs" using cycle_manager by blast
    then show thesis by (intro that [of m o' "?g @ evs"]) (simp_all add: still_store still_quiet)
  qed
  obtain t2 where 2: "GetTenant cycle_env m ''t1'' t1 = Some (Ok sample_tenant, t2)"
    "store cycle_store t2 = cycle_store" "list_all quiet t2"
    using cycle_tenant [OF 1(3), of m] 1(3,4) by (auto simp: still_store still_quiet)
  obtain info t3 where 3: "new_address cycle_env m sample_tenant ''c1'' t2 = Some (Ok info, t3)" "list_all quiet t3"
    "cni_result info = v4_result [10, 0, 0, 2] 24 [10, 0, 0, 254]"
    using cycle_address [OF 2(2), of m] 2(3) by auto
  obtain t4 where 4: "bind_twice cycle_env m sample_args ''t1'' ''c1'' t3 = (Ok (), t4)" "list_all quiet t4"
    using cycle_bind [OF quiet_store(2) [OF 3(2)], of m] 3(2) by (auto simp: still_quiet)
  obtain t5 where 5: "set_up cycle_env sample_args o' ''c1'' (v4_result [10, 0, 0, 2] 24 [10, 0, 0, 254]) t4
      = (Ok (v4_result [10, 0, 0, 2] 24 [10, 0, 0, 254]), t5)" "list_all quiet t5"
    using cycle_set_up [OF 1(2), of t4] 4(2) by auto
  have t: "tn_ID sample_tenant = ''t1''" by (simp add: sample_tenant_def)
  obtain x where ipam: "CreateEtcdIpam cycle_env o' = Inr x"
    by (simp add: CreateEtcdIpam_def kept_env_new)
  have "add_container cycle_env sample_args shell_conf ''t1'' ''c1'' ?g = Some (Ok (v4_result [10, 0, 0, 2] 24 [10, 0, 0, 254]), t5)"
    by (simp add: add_container_def 1(1) 2(1) 3(1,3) 4(1) 5(1) t ipam)
  then have "CmdAddK8s cycle_env sample_args shell_conf [] = Some (Ok (v4_result [10, 0, 0, 2] 24 [10, 0, 0, 254]), t5)"
    by (simp add: CmdAddK8s_def sample_LoadArgs kept_env_new sample_ids last)
  with 5(2) show ?thesis by blast
qed

text \<open>The addition, and the deletion after a request that has nothing to do with the container.\<close>

theorem address_cycle_witness:
  "\<exists>r tr1 a ip4 tr2. CmdAddK8s cycle_env sample_args shell_conf [] = Some (Ok r, tr1)
    \<and> cr_IP4 r = Some ip4 \<and> ic_IP ip4 = \<lparr>IPNet_IP = v4InV6Prefix @ a, IPNet_Mask = CIDRMask 24 32\<rparr>
    \<and> val4 [10, 0, 0, 0] \<le> val4 a \<and> val4 a < val4 [10, 0, 0, 0] + 2 ^ (32 - 24)
    \<and> store cycle_store tr1 (pod_available ''t1'' @ ''/'' @ dotted a) = None
    \<and> store cycle_store tr1 (pod_key ''t1'' ''c1'') = Some (cidr_text a 24)
    \<and> CmdDelK8s cycle_env sample_args shell_conf (tr1 @ [UuidEv (version4 [])]) = Some (Ok Result_zero, tr2)
    \<and> store cycle_store tr2 (pod_available ''t1'' @ ''/'' @ dotted a) = Some (cidr_text a 24)
    \<and> store cycle_store tr2 (pod_key ''t1'' ''c1'') = None \<and> store cycle_store tr2 (binding_key ''t1'' ''c1'') = None"
proof -
  obtain r tr1 where run: "CmdAddK8s cycle_env sample_args shell_conf [] = Some (Ok r, tr1)" and q: "list_all quiet tr1"
    using cycle_added by blast
  have pre: "list_all quiet u" if "prefix u tr1" for u using that q by (auto elim: prefixE)
  have found: "node_Value n = v" if "etcd_srv cycle_env u (KeysGet k False) = Inr res" "re_Node res = Some n"
    "store cycle_store u k = Some v" for u k res n v using cycle_get(1) [OF that(3)] that(1,2) by auto
  have "no_info cycle_env ''t1'' ''c1'' tr1"
    unfolding no_info_def
  proof (intro allI impI)
    fix u res n
    assume u: "prefix u tr1" and g: "etcd_srv cycle_env u (KeysGet (pod_key ''t1'' ''c1'') False) = Inr res" "re_Node res = Some n"
    have "store cycle_store u (pod_key ''t1'' ''c1'') \<noteq> None" using cycle_get(2) [of u "pod_key ''t1'' ''c1''"] g(1) by auto
    then have "store cycle_store u (pod_key ''t1'' ''c1'') = Some (cidr_text [10, 0, 0, 2] 24)"
      using quiet_store(4) [OF pre [OF u], of cycle_store] cycle_keys(5) by auto
    from found [OF g this] show "Unmarshal IPInfo_fields IPInfo_zero (node_Value n) = None"
      by (simp add: Unmarshal_def json_parse_cidr)
  qed
  moreover have "tenants_named cycle_env ''t1'' tr1"
    unfolding tenants_named_def
  proof (intro allI impI)
    fix u res n tn
    assume u: "prefix u tr1" and g: "etcd_srv cycle_env u (KeysGet (tenant_key ''t1'' ''/info'') False) = Inr res" "re_Node res = Some n"
      and tn: "Unmarshal Tenant_fields Tenant_zero (node_Value n) = Some tn"
    have "store cycle_store u (tenant_key ''t1'' ''/info'') = Some (show_json (Tenant_json sample_tenant))"
      using quiet_store(1) [OF pre [OF u], of cycle_store] cycle_keys(1) by simp
    from found [OF g this] tn have "tn = sample_tenant" by (simp add: Tenant_roundtrip del: show_json.simps)
    then show "tn_ID tn = ''t1''" by (simp add: sample_tenant_def)
  qed
  moreover have "store cycle_store tr1 (pod_available ''t1'' @ ''/iprange'') = Some (cidr_text [10, 0, 0, 0] 24)"
    "store cycle_store tr1 (binding_key ''t1'' ''c1'') = Some (show_json (HostInterfacePort_json sample_binding))"
    using quiet_store(2,3) [OF q, of cycle_store] cycle_keys(2,3) by simp_all
  moreover have "api_deletes cycle_env (op_MidoNetAPIConf shell_conf) (version4 [])"
    by (simp add: api_deletes_def NewClient_def login_def mido_call_eq cycle_env_simps Let_def ok_status_def)
  moreover have "watch_ends cycle_env k idx u" for k idx u
    by (rule watch_fails [where e = "OtherError ''connection closed''"]) (simp add: kept_env_def store_env_def)
  moreover have "is_network [10, 0, 0, 0] 24" by (simp add: is_network_def val4_def)
  moreover have "list_all (keeps k) [UuidEv (version4 [])]" for k by simp
  moreover have "store cycle_store [] (result_key ''c1'') = None" using cycle_keys(6) by simp
  ultimately show ?thesis
    using address_cycle [OF sample_LoadArgs sample_ids(2) [symmetric] sample_ids(1) [symmetric] _ kept_env_store _ cycle_listing _ _ _ run,
      of "[UuidEv (version4 [])]" sample_binding "version4 []" sample_args shell_conf "''node1''"] run
    by (simp add: cycle_env_simps kept_env_new shell_conf_def sample_binding_def valid_version4 del: show_json.simps)
qed

end
