(* ===== verification/Transition.thy ===== *)
theory Transition
  imports Prelude
begin

text \<open>
  Transition systems: the states reachable from the initial ones, and the contract of an
  invariant. The concurrent parts of the development (processes that lock, containers that
  take addresses from a pool) are step relations of this kind.
\<close>

inductive reachable :: "('s \<Rightarrow> bool) \<Rightarrow> ('s \<Rightarrow> 's \<Rightarrow> bool) \<Rightarrow> 's \<Rightarrow> bool" for init step where
  reachable_init: "init s \<Longrightarrow> reachable init step s"
| reachable_step: "reachable init step s \<Longrightarrow> step s s' \<Longrightarrow> reachable init step s'"

inductive steps :: "('s \<Rightarrow> 's \<Rightarrow> bool) \<Rightarrow> 's \<Rightarrow> 's \<Rightarrow> bool" for step where
  steps_refl: "steps step s s"
| steps_step: "step s s' \<Longrightarrow> steps step s' s'' \<Longrightarrow> steps step s s''"

lemma reachable_steps: "reachable init step s \<Longrightarrow> steps step s s' \<Longrightarrow> reachable init step s'"
  by (rotate_tac 1, induction rule: steps.induct) (auto intro: reachable.intros)

lemma steps_trans: "steps step s s' \<Longrightarrow> steps step s' s'' \<Longrightarrow> steps step s s''"
  by (induction rule: steps.induct) (auto intro: steps.intros)

text \<open>An invariant holds initially and every step keeps it; then it holds wherever the system gets.\<close>

locale invariant =
  fixes init :: "'s \<Rightarrow> bool" and step :: "'s \<Rightarrow> 's \<Rightarrow> bool" and Inv :: "'s \<Rightarrow> bool"
  assumes inv_init: "init s \<Longrightarrow> Inv s"
    and inv_step: "Inv s \<Longrightarrow> step s s' \<Longrightarrow> Inv s'"
begin

lemma inv_reachable: "reachable init step s \<Longrightarrow> Inv s"
  by (induction rule: reachable.induct) (auto intro: inv_init inv_step)

lemma inv_steps: "steps step s s' \<Longrightarrow> Inv s \<Longrightarrow> Inv s'"
  by (induction rule: steps.induct) (auto intro: inv_step)

end

end
