(* ===== verification/PoolSpec.thy ===== *)
theory PoolSpec
  imports AddressCycle Transition
begin

text \<open>
  What a tenant's pool of addresses is for its users, and that the operations on it implement
  this: an abstract pool of free addresses and of addresses containers have, the moves it
  can make, and the abstraction of what is stored in etcd to such a pool. \<open>GetNewIP\<close> and
  \<open>release_address\<close>, one after the other in any order, make the moves of the abstract pool.
\<close>

subsection \<open>The abstract pool\<close>

record address_pool =
  free :: "bytes set"
  used :: "(string \<times> bytes) set"

text \<open>
  A move: a container takes a free address, and loses the one it had; it gives its address
  back; it loses its address, which goes nowhere; or nothing happens.
\<close>

datatype move = Take string bytes | Give string bytes | Lose string bytes | Idle

inductive pool_move :: "address_pool \<Rightarrow> move \<Rightarrow> address_pool \<Rightarrow> bool" where
  move_take: "a \<in> free p \<Longrightarrow>
    pool_move p (Take c a) \<lparr>free = free p - {a}, used = insert (c, a) {(d, x) \<in> used p. d \<noteq> c}\<rparr>"
| move_give: "(c, a) \<in> used p \<Longrightarrow> pool_move p (Give c a) \<lparr>free = insert a (free p), used = used p - {(c, a)}\<rparr>"
| move_lose: "(c, a) \<in> used p \<Longrightarrow> pool_move p (Lose c a) \<lparr>free = free p, used = used p - {(c, a)}\<rparr>"
| move_idle: "pool_move p Idle p"

inductive_simps pool_move_simps [simp]:
  "pool_move p (Take c a) p'" "pool_move p (Give c a) p'" "pool_move p (Lose c a) p'" "pool_move p Idle p'"

text \<open>A sound pool: an address is free or has one holder, and a container has one address.\<close>

definition pool_sound :: "address_pool \<Rightarrow> bool" where
  "pool_sound p \<longleftrightarrow> (\<forall>c a. (c, a) \<in> used p \<longrightarrow> a \<notin> free p)
     \<and> (\<forall>c d a. (c, a) \<in> used p \<longrightarrow> (d, a) \<in> used p \<longrightarrow> c = d)
     \<and> (\<forall>c a b. (c, a) \<in> used p \<longrightarrow> (c, b) \<in> used p \<longrightarrow> a = b)"

lemma pool_move_sound: "pool_move p l p' \<Longrightarrow> pool_sound p \<Longrightarrow> pool_sound p'"
  by (erule pool_move.cases) (auto simp: pool_sound_def)

abbreviation pool_changes :: "address_pool \<Rightarrow> address_pool \<Rightarrow> bool" where
  "pool_changes p p' \<equiv> \<exists>l. pool_move p l p'"

interpretation pool_spec: invariant pool_sound pool_changes pool_sound
  by unfold_locales (auto intro: pool_move_sound)

text \<open>The addresses of the pool, which only a container that takes a second one or a loss makes fewer.\<close>

definition addresses :: "address_pool \<Rightarrow> bytes set" where
  "addresses p = free p \<union> snd ` used p"

lemma pool_move_addresses: "pool_move p l p' \<Longrightarrow> addresses p' \<subseteq> addresses p"
  by (erule pool_move.cases) (force simp: addresses_def image_iff)+

lemma pool_move_keeps_addresses:
  assumes "pool_move p l p'" and "\<And>c a. l \<noteq> Lose c a" and "\<And>c a b. l = Take c a \<Longrightarrow> (c, b) \<notin> used p"
  shows "addresses p' = addresses p"
  using assms(1)
proof cases
  case (move_take a c)
  with assms(3) have "{(d, x) \<in> used p. d \<noteq> c} = used p" by auto
  with move_take show ?thesis by (auto simp: addresses_def)
next
  case (move_give c a)
  then show ?thesis by (force simp: addresses_def image_iff)
qed (use assms(2) in simp_all)

subsection \<open>What etcd promises for a directory\<close>

text \<open>A key that is not there cannot be deleted; and the list of a directory has what is stored under it.\<close>

locale etcd_exact = etcd_store +
  assumes delete_refused: "k \<in> K \<Longrightarrow> store m tr k = None \<Longrightarrow> \<exists>e. etcd_srv E tr (KeysDelete k False False) = Inl e"
begin

lemma delete_there:
  assumes "k \<in> K" and "etcd_srv E tr (KeysDelete k False False) = Inr x"
  shows "\<exists>v. store m tr k = Some v"
  using delete_refused [OF assms(1), of tr] assms(2) by fastforce

end

locale etcd_dir = etcd_exact +
  fixes d :: string
  assumes listed: "etcd_srv E tr (KeysGet d True) = Inr res \<Longrightarrow> re_Node res = Some dir \<Longrightarrow> node \<in> set (node_Nodes dir)
      \<Longrightarrow> \<exists>x. node_Key node = d @ ''/'' @ x \<and> node_Key node \<in> K \<and> store m tr (node_Key node) = Some (node_Value node)"

subsection \<open>The pool that is stored\<close>

definition container_id :: "string \<Rightarrow> bool" where
  "container_id c \<longleftrightarrow> CHR ''/'' \<notin> set c \<and> c \<noteq> ''available''"

definition pool_keys :: "string \<Rightarrow> string set" where
  "pool_keys t = {pod_key t c | c. container_id c} \<union> range (\<lambda>x. pod_available t @ ''/'' @ x)"

text \<open>The text of an address with the length of its network's mask.\<close>

definition address_text :: "bytes \<Rightarrow> string \<Rightarrow> bool" where
  "address_text a v \<longleftrightarrow> length a = 4 \<and> (\<exists>n\<le>32. v = cidr_text a n)"

text \<open>
  The keys of a pool that is well-formed: under a key of the directory, other than \<open>iprange\<close>, is the
  address the key names, and under a container's key is an address.
\<close>

definition pool_stored :: "string \<Rightarrow> (string \<rightharpoonup> string) \<Rightarrow> bool" where
  "pool_stored t s \<longleftrightarrow>
     (\<forall>x v. s (pod_available t @ ''/'' @ x) = Some v \<longrightarrow> x \<noteq> ''iprange'' \<longrightarrow> (\<exists>a. x = dotted a \<and> address_text a v))
     \<and> (\<forall>c v. container_id c \<longrightarrow> s (pod_key t c) = Some v \<longrightarrow> (\<exists>a. address_text a v))"

text \<open>The free addresses are the ones \<open>GetNewIP\<close> hands out, which are not those that end in .254.\<close>

definition pool_of :: "string \<Rightarrow> (string \<rightharpoonup> string) \<Rightarrow> address_pool" where
  "pool_of t s =
     \<lparr>free = {a. a ! 3 \<noteq> 254 \<and> (\<exists>v. address_text a v \<and> s (pod_available t @ ''/'' @ dotted a) = Some v)},
      used = {(c, a). container_id c \<and> (\<exists>v. address_text a v \<and> s (pod_key t c) = Some v)}\<rparr>"

lemma address_text_unique: "address_text a v \<Longrightarrow> address_text b v \<Longrightarrow> a = b"
  using cidr.enc_inject by (auto simp: address_text_def)

lemma dotted_unique: "length a = 4 \<Longrightarrow> length b = 4 \<Longrightarrow> dotted a = dotted b \<longleftrightarrow> a = b"
  using ipv4.enc_inject by blast

lemma dotted_iprange: "dotted a \<noteq> ''iprange''"
proof -
  have "CHR ''.'' \<in> set (dotted a)" by (simp add: dotted_def)
  then show ?thesis by auto
qed

lemma pool_keys_simps [simp]:
  "container_id c \<Longrightarrow> pod_key t c \<in> pool_keys t" "pod_available t @ ''/'' @ x \<in> pool_keys t"
  by (auto simp: pool_keys_def)

lemma pod_key_unique: "pod_key t c = pod_key t d \<longleftrightarrow> c = d"
  by (simp add: pod_key_def)

text \<open>The keys that matter to the abstract pool.\<close>

definition pool_relevant :: "string \<Rightarrow> string \<Rightarrow> bool" where
  "pool_relevant t k \<longleftrightarrow> (\<exists>c. container_id c \<and> k = pod_key t c)
     \<or> (\<exists>a. length a = 4 \<and> a ! 3 \<noteq> 254 \<and> k = pod_available t @ ''/'' @ dotted a)"

lemma pool_of_cong: "(\<And>k. pool_relevant t k \<Longrightarrow> s' k = s k) \<Longrightarrow> pool_of t s' = pool_of t s"
proof -
  assume eq: "\<And>k. pool_relevant t k \<Longrightarrow> s' k = s k"
  have "s' (pod_available t @ ''/'' @ dotted a) = s (pod_available t @ ''/'' @ dotted a)" if "a ! 3 \<noteq> 254" "address_text a v" for a v
    using that by (intro eq) (auto simp: pool_relevant_def address_text_def)
  moreover have "s' (pod_key t c) = s (pod_key t c)" if "container_id c" for c
    using that by (intro eq) (auto simp: pool_relevant_def)
  ultimately show ?thesis unfolding pool_of_def by (intro arg_cong2 [where f = "\<lambda>x y. \<lparr>free = x, used = y\<rparr>"] Collect_cong) auto
qed

lemma pool_stored_less: "pool_stored t s \<Longrightarrow> (\<And>k. k \<in> pool_keys t \<Longrightarrow> s' k = s k \<or> s' k = None) \<Longrightarrow> pool_stored t s'"
  unfolding pool_stored_def by (metis pool_keys_simps option.distinct(1))

subsection \<open>Taking an address\<close>

text \<open>A node that is listed: the network's own key, or an address under its key.\<close>

lemma listed_node:
  assumes "etcd_dir E (pool_keys t) m (pod_available t)" and "pool_stored t (store m tr)"
    and "etcd_srv E tr (KeysGet (pod_available t) True) = Inr res" and "re_Node res = Some dir"
    and "node \<in> set (node_Nodes dir)" and "\<not> has_suffix (node_Key node) ''/iprange''"
  obtains a where "address_text a (node_Value node)" "node_Key node = pod_available t @ ''/'' @ dotted a"
proof -
  from etcd_dir.listed [OF assms(1,3-5)] obtain x where x: "node_Key node = pod_available t @ ''/'' @ x"
    "store m tr (pod_available t @ ''/'' @ x) = Some (node_Value node)" by auto
  moreover have "x \<noteq> ''iprange''" using x(1) assms(6) by (auto simp: has_suffix_iff_suffix suffix_def)
  ultimately obtain a where "x = dotted a" "address_text a (node_Value node)"
    using assms(2) unfolding pool_stored_def by blast
  with x(1) that show thesis by blast
qed

lemma suffix_append_long: "length s \<le> length y \<Longrightarrow> suffix s (x @ y) \<longleftrightarrow> suffix s y"
  by (metis suffix_append suffix_length_le suffix_order.dual_order.trans suffix_same_cases suffixI le_antisym append_same_eq
      suffix_length_suffix)

lemma suffix_254_key: "length a = 4 \<Longrightarrow> has_suffix (pod_available t @ ''/'' @ dotted a) ''.254'' \<longleftrightarrow> a ! 3 = 254"
proof -
  assume a: "length a = 4"
  have "1 \<le> length (itoa n)" for n by (cases "itoa n") auto
  then have "4 \<le> length (dotted a)" by (simp add: dotted_def trans_le_add1)
  then have "suffix ''.254'' ((pod_available t @ ''/'') @ dotted a) \<longleftrightarrow> suffix ''.254'' (dotted a)"
    by (intro suffix_append_long) simp
  with has_suffix_254 [OF a] show ?thesis by (simp add: has_suffix_iff_suffix)
qed

text \<open>The attempts before the one that is used do not change the abstract pool.\<close>

lemma passed_effect:
  assumes "list_all (passed nodes) pre"
    and "\<And>node. node \<in> set nodes \<Longrightarrow> \<not> has_suffix (node_Key node) ''/iprange'' \<Longrightarrow>
      \<exists>a. length a = 4 \<and> node_Key node = pod_available t @ ''/'' @ dotted a"
  shows "pool_relevant t k \<Longrightarrow> store s pre k = s k" and "store s pre k = s k \<or> store s pre k = None"
proof -
  have one: "(pool_relevant t k \<longrightarrow> keeps k e) \<and> (\<forall>s. store_step e s k = s k \<or> store_step e s k = None)" if e: "passed nodes e" for e
  proof -
    from e obtain node x where n: "node \<in> set nodes" "\<not> has_suffix (node_Key node) ''/iprange''"
      "e = EtcdEv (KeysDelete (node_Key node) False False) x" "(\<exists>err. x = Inl err) \<or> has_suffix (node_Key node) ''.254''"
      unfolding passed_def by blast
    from assms(2) [OF n(1,2)] obtain a where a: "length a = 4" "node_Key node = pod_available t @ ''/'' @ dotted a" by blast
    have "keeps k e" if "pool_relevant t k"
    proof (cases x)
      case (Inl err)
      with n(3) show ?thesis by (simp add: keeps_def)
    next
      case (Inr y)
      with n(4) a have "a ! 3 = 254" by (simp add: suffix_254_key del: append_Cons)
      have "k \<noteq> node_Key node"
        using that unfolding pool_relevant_def
      proof (elim disjE exE conjE)
        fix c assume "container_id c" "k = pod_key t c"
        with a(2) container_keys(6) show ?thesis by (simp add: container_id_def)
      next
        fix b assume "length b = 4" "b ! 3 \<noteq> 254" "k = pod_available t @ ''/'' @ dotted b"
        with a \<open>a ! 3 = 254\<close> dotted_unique [of a b] show ?thesis by auto
      qed
      with n(3) show ?thesis by simp
    qed
    moreover have "store_step e s k = s k \<or> store_step e s k = None" for s
      using n(3) by (cases x) auto
    ultimately show ?thesis by blast
  qed
  show "store s pre k = s k" if "pool_relevant t k"
    using assms(1) one that by (intro store_keeps) (auto simp: list_all_iff)
  show "store s pre k = s k \<or> store s pre k = None"
    using assms(1)
  proof (induction pre arbitrary: s)
    case (Cons e pre)
    then have "passed nodes e" "store (store_step e s) pre k = store_step e s k \<or> store (store_step e s) pre k = None" by simp_all
    with one [of e] show ?case by (metis store_Cons)
  qed simp
qed

lemma take_refines:
  assumes "container_id c" and "address_text a v" and "a ! 3 \<noteq> 254"
    and "s (pod_available t @ ''/'' @ dotted a) = Some w" and "address_text a w" and "pool_stored t s"
    and "s' = (s(pod_available t @ ''/'' @ dotted a := None))(pod_key t c \<mapsto> v)"
  shows "pool_stored t s' \<and> pool_move (pool_of t s) (Take c a) (pool_of t s')"
proof -
  let ?k = "pod_available t @ ''/'' @ dotted a"
  from assms(1) have c: "CHR ''/'' \<notin> set c" by (simp add: container_id_def)
  have d: "pod_key t x \<noteq> pod_available t @ ''/'' @ y" if "container_id x" for x y
    using container_keys(6) that by (simp add: container_id_def)
  have avail: "s' (pod_available t @ ''/'' @ x) = (if x = dotted a then None else s (pod_available t @ ''/'' @ x))" for x
    using d [OF assms(1), of x] assms(7) by (auto simp del: append_Cons)
  have pod: "s' (pod_key t x) = (if x = c then Some v else s (pod_key t x))" if "container_id x" for x
    using d [OF that, of "dotted a"] assms(7) by (auto simp: pod_key_unique simp del: append_Cons)
  have "pool_stored t s'" using assms(2,6) avail pod unfolding pool_stored_def by (metis option.sel option.distinct(1))
  moreover have "a \<in> free (pool_of t s)" using assms(3-5) by (auto simp: pool_of_def)
  moreover have "free (pool_of t s') = free (pool_of t s) - {a}"
    using avail assms(2) dotted_unique by (auto simp: pool_of_def address_text_def simp del: append_Cons)
  moreover have "used (pool_of t s') = insert (c, a) {(d, x) \<in> used (pool_of t s). d \<noteq> c}"
    using pod assms(1,2) address_text_unique by (auto simp: pool_of_def split: if_splits)
  ultimately show ?thesis by (simp add: address_pool.equality)
qed

lemma allocate_ip_refines:
  assumes "etcd_dir E (pool_keys t) m (pod_available t)" and "pool_stored t (store m tr)" and "container_id c"
    and "allocate_ip E t c tr = (res, tr')"
  shows "pool_stored t (store m tr') \<and>
    ((\<exists>info a n. res = Ok info \<and> n \<le> 32 \<and> ii_IPNet info = \<lparr>IPNet_IP = v4InV6Prefix @ a, IPNet_Mask = CIDRMask n 32\<rparr>
        \<and> pool_move (pool_of t (store m tr)) (Take c a) (pool_of t (store m tr')))
     \<or> (\<exists>e. res = Err e) \<and> pool_of t (store m tr') = pool_of t (store m tr))"
proof -
  let ?q = "KeysGet (pod_available t) True"
  have st: "etcd_store E (pool_keys t) m" using assms(1) by (simp add: etcd_dir_def etcd_exact_def)
  show ?thesis
  proof (cases "\<exists>r dir. etcd_srv E tr ?q = Inr r \<and> re_Node r = Some dir \<and> node_Dir dir \<and> \<not> length (node_Nodes dir) < 2")
    case False
    with assms(4) have "(\<exists>e. res = Err e) \<and> tr' = tr @ [EtcdEv ?q (etcd_srv E tr ?q)]"
      by (auto simp: allocate_ip_def etcd_call_eq split: sum.splits option.splits if_splits)
    with assms(2) show ?thesis by auto
  next
    case True
    then obtain r dir where r: "etcd_srv E tr ?q = Inr r" "re_Node r = Some dir" "node_Dir dir" "\<not> length (node_Nodes dir) < 2" by blast
    let ?t = "tr @ [EtcdEv ?q (Inr r)]"
    obtain v t1 where g: "grab_ip E (node_Nodes dir) ?t = (v, t1)" by force
    note node = listed_node [OF assms(1,2) r(1,2)]
    have keys: "\<exists>a. length a = 4 \<and> node_Key node = pod_available t @ ''/'' @ dotted a"
      if "node \<in> set (node_Nodes dir)" "\<not> has_suffix (node_Key node) ''/iprange''" for node
      using node [OF that] by (metis address_text_def)
    from grab_ip_cases [OF g] obtain pre where pre: "list_all (passed (node_Nodes dir)) pre"
      and cases: "(v = [] \<and> t1 = ?t @ pre) \<or> (\<exists>node \<in> set (node_Nodes dir). \<exists>a. \<not> has_suffix (node_Key node) ''/iprange''
        \<and> \<not> has_suffix (node_Key node) ''.254'' \<and> v = node_Value node
        \<and> t1 = ?t @ pre @ [EtcdEv (KeysDelete (node_Key node) False False) (Inr a)])" by blast
    have eff1: "pool_relevant t k \<Longrightarrow> store s pre k = s k" for s k using passed_effect(1) [OF pre keys] .
    have eff2: "store s pre k = s k \<or> store s pre k = None" for s k using passed_effect(2) [OF pre keys] .
    let ?s = "store m (?t @ pre)"
    have u: "?s = store (store m tr) pre" by simp
    then have "pool_stored t ?s" using eff2 [of "store m tr"] by (intro pool_stored_less [OF assms(2)]) simp
    moreover have "pool_of t ?s = pool_of t (store m tr)"
      using u eff1 [where s = "store m tr"] by (intro pool_of_cong) simp
    ultimately have s: "pool_stored t ?s" "pool_of t ?s = pool_of t (store m tr)" by blast+
    from cases show ?thesis
    proof (elim disjE bexE exE conjE)
      assume "v = []" "t1 = ?t @ pre"
      with assms(4) r g ParseCIDR_Nil have "(\<exists>e. res = Err e) \<and> tr' = ?t @ pre"
        by (auto simp: allocate_ip_def etcd_call_eq split: sum.splits)
      with s show ?thesis by auto
    next
      fix node x
      assume n: "node \<in> set (node_Nodes dir)" "\<not> has_suffix (node_Key node) ''/iprange''" "\<not> has_suffix (node_Key node) ''.254''"
        "v = node_Value node" and t1: "t1 = ?t @ pre @ [EtcdEv (KeysDelete (node_Key node) False False) (Inr x)]"
      from node [OF n(1,2)] obtain a where a: "address_text a v" "node_Key node = pod_available t @ ''/'' @ dotted a" using n(4) by blast
      then obtain k where k: "length a = 4" "k \<le> 32" "v = cidr_text a k" by (auto simp: address_text_def)
      from n(3) a(2) k(1) have a3: "a ! 3 \<noteq> 254" by (simp add: suffix_254_key del: append_Cons)
      let ?set = "KeysSet (pod_key t c) v False 0"
      from etcd_store.set_accepted [OF st] assms(3) obtain y where y: "etcd_srv E t1 ?set = Inr y" by fastforce
      have parse: "ParseCIDR v = Inr (v4InV6Prefix @ a, v4_net a k)" using k by (simp add: ParseCIDR_text)
      have res: "res = Ok \<lparr>ii_ContainerID = c, ii_IPNet = \<lparr>IPNet_IP = v4InV6Prefix @ a, IPNet_Mask = IPNet_Mask (v4_net a k)\<rparr>,
          ii_Getway = v4InV6Prefix @ bytes4 (clear (32 - k) (val4 a) + 254)\<rparr>" and tr': "tr' = t1 @ [EtcdEv ?set (Inr y)]"
        using assms(4) r g y parse gateway_v4 [OF k(1,2)] by (auto simp: allocate_ip_def etcd_call_eq)
      have "\<exists>w. store m tr (pod_available t @ ''/'' @ dotted a) = Some w \<and> address_text a w"
        using etcd_dir.listed [OF assms(1) r(1,2) n(1)] a n(4) by auto
      moreover have "?s (pod_available t @ ''/'' @ dotted a) = store m tr (pod_available t @ ''/'' @ dotted a)"
        using eff1 [of "pod_available t @ ''/'' @ dotted a" "store m tr"] k(1) a3 by (auto simp: pool_relevant_def)
      ultimately obtain w where "?s (pod_available t @ ''/'' @ dotted a) = Some w" "address_text a w" by auto
      moreover have "store m tr' = (?s(pod_available t @ ''/'' @ dotted a := None))(pod_key t c \<mapsto> v)"
        unfolding tr' t1 using a(2) by simp
      ultimately have "pool_stored t (store m tr') \<and> pool_move (pool_of t ?s) (Take c a) (pool_of t (store m tr'))"
        by (intro take_refines [OF assms(3) a(1) a3 _ _ s(1)])
      with s(2) res k show ?thesis by (auto simp: v4_net_def)
    qed
  qed
qed

text \<open>An address is no JSON text, so \<open>GetNewIP\<close> does not find the one the container has.\<close>

lemma address_no_info: "address_text a v \<Longrightarrow> Unmarshal IPInfo_fields IPInfo_zero v = None"
  by (auto simp: address_text_def Unmarshal_def json_parse_cidr)

lemma GetNewIP_takes:
  assumes "etcd_dir E (pool_keys (tn_ID tn)) m (pod_available (tn_ID tn))" and "pool_stored (tn_ID tn) (store m tr)"
    and "container_id c" and "GetNewIP E tn c tr = (res, tr')"
  shows "pool_stored (tn_ID tn) (store m tr') \<and>
    ((\<exists>info a n. res = Ok info \<and> n \<le> 32 \<and> ii_IPNet info = \<lparr>IPNet_IP = v4InV6Prefix @ a, IPNet_Mask = CIDRMask n 32\<rparr>
        \<and> pool_move (pool_of (tn_ID tn) (store m tr)) (Take c a) (pool_of (tn_ID tn) (store m tr')))
     \<or> (\<exists>e. res = Err e) \<and> pool_of (tn_ID tn) (store m tr') = pool_of (tn_ID tn) (store m tr))"
proof -
  let ?k = "pod_key (tn_ID tn) c"
  let ?g = "EtcdEv (KeysGet ?k False) (etcd_srv E tr (KeysGet ?k False))"
  have rd: "etcd_reads E (pool_keys (tn_ID tn)) m" using assms(1) by (simp add: etcd_dir_def etcd_exact_def etcd_store_def)
  have "allocate_ip E (tn_ID tn) c (tr @ [?g]) = (res, tr')"
  proof (cases "store m tr ?k")
    case None
    from etcd_reads.missing [OF rd _ None] assms(3,4) show ?thesis by (auto simp: GetNewIP_def etcd_call_eq)
  next
    case (Some v)
    then obtain a where "address_text a v" using assms(2,3) unfolding pool_stored_def by blast
    with etcd_reads.found [OF rd _ Some] assms(3,4) address_no_info show ?thesis by (auto simp: GetNewIP_def etcd_call_eq)
  qed
  from allocate_ip_refines [OF assms(1) _ assms(3) this] assms(2) show ?thesis by simp
qed

subsection \<open>Giving an address back\<close>

lemma lock_apart: "k \<in> pool_keys t \<Longrightarrow> k \<noteq> ''/midonet-cni/tenant/'' @ x"
  by (auto simp: pool_keys_def pod_key_def pod_available_def)

text \<open>\<open>ReleaseIP\<close> leaves the keys of the pool as they are, or puts the address there.\<close>

lemma ReleaseIP_effect:
  assumes "etcd_store E (pool_keys t) m" and "address_text a v" and "ReleaseIP E t v tr = Some (r, tr')"
  shows "r \<noteq> Panic \<and> (\<exists>evs. tr' = tr @ evs \<and> ((\<forall>k\<in>pool_keys t. list_all (keeps k) evs)
    \<or> (store m tr' (pod_available t @ ''/'' @ dotted a) = Some v
      \<and> (\<forall>k\<in>pool_keys t. k \<noteq> pod_available t @ ''/'' @ dotted a \<longrightarrow> list_all (keeps k) evs))))"
proof -
  let ?l = "''/midonet-cni/tenant/'' @ t @ ''/bridge/create''" and ?k = "pod_available t @ ''/'' @ dotted a"
  let ?range = "pod_available t @ ''/iprange''"
  let ?g = "EtcdEv (KeysGet ?range False) (etcd_srv E tr (KeysGet ?range False))"
  have rd: "etcd_reads E (pool_keys t) m" using assms(1) by (simp add: etcd_store_def)
  obtain net t1 where n: "current_net E ?range tr = (net, t1)" by fastforce
  have "?range = pod_available t @ ''/'' @ ''iprange''" by simp
  then have "?range \<in> pool_keys t" using pool_keys_simps(2) by metis
  then have "re_Node res \<noteq> None" if "etcd_srv E tr (KeysGet ?range False) = Inr res" for res
    using etcd_reads.found [OF rd \<open>?range \<in> pool_keys t\<close>, of tr] etcd_reads.missing [OF rd \<open>?range \<in> pool_keys t\<close>, of tr] that
    by (cases "store m tr ?range") auto
  with n have t1: "t1 = tr @ [?g]" and "net \<noteq> Panic"
    by (auto simp: current_net_def etcd_call_eq split: sum.splits option.splits)
  from assms(2) obtain k where k: "length a = 4" "k \<le> 32" "v = cidr_text a k" by (auto simp: address_text_def)
  have parse: "ParseCIDR v = Inr (v4InV6Prefix @ a, v4_net a k)" using k by (simp add: ParseCIDR_text)
  let ?body = "\<lambda>u. Some (Ok (), snd (Keys_Set E ?k v u))"
  have quiet: "list_all (keeps q) [?g]" for q by simp
  consider "r \<noteq> Panic" "tr' = t1"
    | "with_lock E ?l ''etcdsync.NewMutex failed when release old ip'' ''etcdsync.Lock failed when release old ip'' ?body t1 = Some (r, tr')"
    using assms(3) n \<open>net \<noteq> Panic\<close> parse k(1)
    by (auto simp: ReleaseIP_def IP_String_prefixed split: outcome.splits if_splits)
  then show ?thesis
  proof cases
    case 1
    with t1 show ?thesis by (intro conjI exI [of _ "[?g]"]) auto
  next
    case 2
    then show ?thesis
    proof (cases rule: with_lock_cases)
      case refused
      with t1 show ?thesis by (intro conjI exI [of _ "[?g]"]) auto
    next
      case (ran pre s post)
      have l: "lock_key ?l = ?l" by (simp add: lock_key_def)
      from etcd_store.set_accepted [OF assms(1) pool_keys_simps(2)] obtain x where
        x: "etcd_srv E (t1 @ pre) (KeysSet ?k v False 0) = Inr x" by blast
      let ?s = "EtcdEv (KeysSet ?k v False 0) (Inr x)"
      from ran(2) x have r: "r = Ok ()" "s = t1 @ pre @ [?s]" by (simp_all add: etcd_call_eq)
      have u: "list_all (keeps q) pre" "list_all (keeps q) post" if "q \<in> pool_keys t" for q
        using lock_keeps [OF ran(1)] unlock_keeps [OF ran(5)] lock_apart [OF that] l by simp_all
      have tr': "tr' = tr @ (?g # pre @ ?s # post)" using ran(3) r(2) t1 by simp
      have "store m tr' ?k = Some v" using store_keeps [OF u(2) [OF pool_keys_simps(2)]] unfolding tr' by simp
      moreover have "list_all (keeps q) (?g # pre @ ?s # post)" if "q \<in> pool_keys t" "q \<noteq> ?k" for q
        using u [OF that(1)] that(2) by simp
      ultimately show ?thesis using r(1) tr' by blast
    qed
  qed
qed

lemma drop_refines:
  assumes "container_id c" and "address_text a v" and "s (pod_key t c) = Some v" and "pool_stored t s"
    and "\<And>k. k \<in> pool_keys t \<Longrightarrow> k \<noteq> pod_available t @ ''/'' @ dotted a \<Longrightarrow> k \<noteq> pod_key t c \<Longrightarrow> s' k = s k"
    and "s' (pod_key t c) = None"
    and "s' (pod_available t @ ''/'' @ dotted a) \<in> {s (pod_available t @ ''/'' @ dotted a), Some v}"
  shows "pool_stored t s' \<and> (pool_move (pool_of t s) (Give c a) (pool_of t s') \<or> pool_move (pool_of t s) (Lose c a) (pool_of t s'))"
proof -
  have d: "pod_key t x \<noteq> pod_available t @ ''/'' @ y" if "container_id x" for x y
    using container_keys(6) that by (simp add: container_id_def)
  have avail: "s' (pod_available t @ ''/'' @ x) = s (pod_available t @ ''/'' @ x)" if "x \<noteq> dotted a" for x
    using d [OF assms(1), of x] that by (intro assms(5)) (auto simp del: append_Cons)
  have pod: "s' (pod_key t x) = (if x = c then None else s (pod_key t x))" if "container_id x" for x
    using assms(5) [of "pod_key t x"] d [OF that] assms(6) that by (auto simp: pod_key_unique simp del: append_Cons)
  have "pool_stored t s'"
    unfolding pool_stored_def
  proof (intro conjI allI impI)
    fix x w
    assume w: "s' (pod_available t @ ''/'' @ x) = Some w" "x \<noteq> ''iprange''"
    have old: "\<exists>b. x = dotted b \<and> address_text b w" if "s (pod_available t @ ''/'' @ x) = Some w"
      using assms(4) that w(2) unfolding pool_stored_def by blast
    show "\<exists>b. x = dotted b \<and> address_text b w"
    proof (cases "x = dotted a")
      case True
      with assms(7) w(1) have "s (pod_available t @ ''/'' @ x) = Some w \<or> w = v" by auto
      with old True assms(2) show ?thesis by blast
    next
      case False
      from old w(1) avail [OF False] show ?thesis by simp
    qed
  next
    fix x w assume "container_id x" "s' (pod_key t x) = Some w"
    then show "\<exists>b. address_text b w" using assms(4) pod [of x] unfolding pool_stored_def by (metis option.distinct(1))
  qed
  moreover have "(c, a) \<in> used (pool_of t s)" using assms(1-3) by (auto simp: pool_of_def)
  moreover have "used (pool_of t s') = used (pool_of t s) - {(c, a)}"
    using pod assms(2,3) address_text_unique by (auto simp: pool_of_def split: if_splits)
  moreover have "free (pool_of t s') = free (pool_of t s) \<or> free (pool_of t s') = insert a (free (pool_of t s))"
  proof -
    have other: "x \<in> free (pool_of t s') \<longleftrightarrow> x \<in> free (pool_of t s)" if "x \<noteq> a" for x
      using avail [of "dotted x"] that assms(2) dotted_unique [of x a] by (auto simp: pool_of_def address_text_def simp del: append_Cons)
    have kept: "a \<in> free (pool_of t s')" if "a \<in> free (pool_of t s)"
    proof -
      from that obtain w where w: "a ! 3 \<noteq> 254" "address_text a w" "s (pod_available t @ ''/'' @ dotted a) = Some w"
        unfolding pool_of_def by auto
      from assms(7) have "s' (pod_available t @ ''/'' @ dotted a) = Some w \<or> s' (pod_available t @ ''/'' @ dotted a) = Some v"
        unfolding w(3) by blast
      with w(1,2) assms(2) show ?thesis unfolding pool_of_def by auto
    qed
    show ?thesis
    proof (cases "a \<in> free (pool_of t s')")
      case True
      have "x \<in> free (pool_of t s') \<longleftrightarrow> x \<in> insert a (free (pool_of t s))" for x
        using True other [of x] by (cases "x = a") simp_all
      then show ?thesis by (intro disjI2 set_eqI)
    next
      case False
      with kept have "x \<in> free (pool_of t s') \<longleftrightarrow> x \<in> free (pool_of t s)" for x
        using other [of x] by (cases "x = a") auto
      then show ?thesis by (intro disjI1 set_eqI)
    qed
  qed
  ultimately show ?thesis by (cases "pool_of t s'") auto
qed

lemma release_address_gives:
  assumes "etcd_store E (pool_keys t) m" and "pool_stored t (store m tr)" and "container_id c"
    and "release_address E opts t c tr = Some (res, tr')"
  shows "res = Ok () \<and> pool_stored t (store m tr') \<and> (pool_of t (store m tr') = pool_of t (store m tr)
    \<or> (\<exists>a. pool_move (pool_of t (store m tr)) (Give c a) (pool_of t (store m tr')))
    \<or> (\<exists>a. pool_move (pool_of t (store m tr)) (Lose c a) (pool_of t (store m tr'))))"
proof -
  have rd: "etcd_reads E (pool_keys t) m" using assms(1) by (simp add: etcd_store_def)
  let ?k = "pod_key t c" and ?del = "KeysDelete (pod_key t c) False False"
  show ?thesis
  proof (cases "store m tr ?k")
    case None
    from etcd_reads.missing [OF rd _ None] assms(3) obtain e where "etcd_srv E tr (KeysGet ?k False) = Inl e" by auto
    with assms(4) have "res = Ok ()" "tr' = tr @ [EtcdEv (KeysGet ?k False) (Inl e)]" by (simp_all add: release_address_def etcd_call_eq)
    with assms(2) show ?thesis by simp
  next
    case (Some v)
    then obtain a where a: "address_text a v" using assms(2,3) unfolding pool_stored_def by blast
    let ?p = "pod_available t @ ''/'' @ dotted a"
    from etcd_reads.found [OF rd _ Some] assms(3) obtain r n where
      g: "etcd_srv E tr (KeysGet ?k False) = Inr r" "re_Node r = Some n" "node_Value n = v" by auto
    let ?g = "EtcdEv (KeysGet ?k False) (Inr r)"
    have "?k \<noteq> ?p" using container_keys(6) assms(3) by (simp add: container_id_def)
    obtain t1 evs where t1: "t1 = (tr @ [?g]) @ evs" and res: "res = Ok ()"
      and tr': "tr' = t1 @ [EtcdEv ?del (etcd_srv E t1 ?del)]"
      and s: "store m t1 ?p \<in> {store m tr ?p, Some v}" and keep: "\<And>k. k \<in> pool_keys t \<Longrightarrow> k \<noteq> ?p \<Longrightarrow> list_all (keeps k) evs"
    proof (cases "CreateEtcdIpam E opts")
      case (Inl e)
      with assms(4) g that [of "tr @ [?g]" "[]"] show thesis by (simp add: release_address_def etcd_call_eq)
    next
      case (Inr x)
      with assms(4) g obtain q u where rel: "ReleaseIP E t v (tr @ [?g]) = Some (q, u)"
        by (auto simp: release_address_def etcd_call_eq split: bind_splits)
      from ReleaseIP_effect [OF assms(1) a rel] obtain evs where e: "q \<noteq> Panic" "u = (tr @ [?g]) @ evs"
        "(\<forall>k\<in>pool_keys t. list_all (keeps k) evs)
         \<or> (store m u ?p = Some v \<and> (\<forall>k\<in>pool_keys t. k \<noteq> ?p \<longrightarrow> list_all (keeps k) evs))" by blast
      have "store m u ?p = store m tr ?p" if "list_all (keeps ?p) evs" unfolding e(2) using store_keeps [OF that] by simp
      with e(3) pool_keys_simps(2) have "store m u ?p \<in> {store m tr ?p, Some v}" by blast
      moreover have "res = Ok () \<and> tr' = u @ [EtcdEv ?del (etcd_srv E u ?del)]"
        using assms(4) g Inr rel e(1) by (cases q) (simp_all add: release_address_def etcd_call_eq)
      ultimately show thesis using e(2,3) that [of u evs] by blast
    qed
    have same: "store m t1 k = store m tr k" if "k \<in> pool_keys t" "k \<noteq> ?p" for k
      unfolding t1 using store_keeps [OF keep [OF that]] by simp
    with Some assms(3) \<open>?k \<noteq> ?p\<close> have "store m t1 ?k = Some v" by simp
    with etcd_store.delete_accepted [OF assms(1)] assms(3) obtain x where "etcd_srv E t1 ?del = Inr x" by fastforce
    with tr' have after: "store m tr' = (store m t1)(?k := None)" by simp
    have "pool_stored t (store m tr') \<and> (pool_move (pool_of t (store m tr)) (Give c a) (pool_of t (store m tr'))
        \<or> pool_move (pool_of t (store m tr)) (Lose c a) (pool_of t (store m tr')))"
    proof (rule drop_refines [OF assms(3) a Some assms(2)])
      show "store m tr' k = store m tr k" if "k \<in> pool_keys t" "k \<noteq> ?p" "k \<noteq> ?k" for k
        using same [OF that(1,2)] that(3) after by simp
      show "store m tr' ?k = None" using after by simp
      show "store m tr' ?p \<in> {store m tr ?p, Some v}" using s \<open>?k \<noteq> ?p\<close> after by simp
    qed
    with res show ?thesis by blast
  qed
qed

subsection \<open>Sequences of operations\<close>

datatype pool_op = Allocate (pool_container: string) | Release (pool_container: string)
datatype pool_result = Allocated "IPInfo outcome" | Released "unit outcome"

definition run_op :: "env \<Rightarrow> Options \<Rightarrow> Tenant \<Rightarrow> pool_op \<Rightarrow> history \<Rightarrow> (pool_result \<times> history) option" where
  "run_op E opts tn op tr =
     (case op of
        Allocate c \<Rightarrow> (case GetNewIP E tn c tr of (res, tr) \<Rightarrow> Some (Allocated res, tr))
      | Release c \<Rightarrow> (case release_address E opts (tn_ID tn) c tr of None \<Rightarrow> None | Some (res, tr) \<Rightarrow> Some (Released res, tr)))"

fun pool_run :: "env \<Rightarrow> Options \<Rightarrow> Tenant \<Rightarrow> pool_op list \<Rightarrow> history \<Rightarrow> (pool_result list \<times> history) option" where
  "pool_run E opts tn [] tr = Some ([], tr)"
| "pool_run E opts tn (op # ops) tr =
     do { (r, tr) \<leftarrow> run_op E opts tn op tr; (rs, tr) \<leftarrow> pool_run E opts tn ops tr; Some (r # rs, tr) }"

text \<open>The move an operation makes, by its result: the address that is taken is the one that is returned.\<close>

fun move_of :: "pool_op \<Rightarrow> pool_result \<Rightarrow> move \<Rightarrow> bool" where
  "move_of (Allocate c) (Allocated (Ok info)) (Take d a) \<longleftrightarrow> d = c \<and> IPNet_IP (ii_IPNet info) = v4InV6Prefix @ a"
| "move_of (Allocate c) (Allocated (Err e)) Idle \<longleftrightarrow> True"
| "move_of (Release c) (Released (Ok _)) (Give d a) \<longleftrightarrow> d = c"
| "move_of (Release c) (Released (Ok _)) (Lose d a) \<longleftrightarrow> d = c"
| "move_of (Release c) (Released (Ok _)) Idle \<longleftrightarrow> True"
| "move_of _ _ _ \<longleftrightarrow> False"

inductive pool_moves :: "address_pool \<Rightarrow> move list \<Rightarrow> address_pool \<Rightarrow> bool" where
  moves_Nil: "pool_moves p [] p"
| moves_Cons: "pool_move p l p' \<Longrightarrow> pool_moves p' ls p'' \<Longrightarrow> pool_moves p (l # ls) p''"

lemma pool_moves_steps: "pool_moves p ls p' \<Longrightarrow> steps pool_changes p p'"
  by (induction rule: pool_moves.induct) (auto intro: steps.intros)

lemma pool_moves_addresses: "pool_moves p ls p' \<Longrightarrow> addresses p' \<subseteq> addresses p"
  by (induction rule: pool_moves.induct) (auto dest: pool_move_addresses)

lemma run_op_refines:
  assumes "etcd_dir E (pool_keys (tn_ID tn)) m (pod_available (tn_ID tn))" and "pool_stored (tn_ID tn) (store m tr)"
    and "container_id (pool_container op)" and "run_op E opts tn op tr = Some (r, tr')"
  shows "pool_stored (tn_ID tn) (store m tr')
    \<and> (\<exists>l. pool_move (pool_of (tn_ID tn) (store m tr)) l (pool_of (tn_ID tn) (store m tr')) \<and> move_of op r l)"
proof (cases op)
  case (Allocate c)
  obtain res t1 where g: "GetNewIP E tn c tr = (res, t1)" by fastforce
  with Allocate assms(4) have "r = Allocated res" "tr' = t1" by (simp_all add: run_op_def)
  with GetNewIP_takes [OF assms(1,2) _ g] assms(3) Allocate show ?thesis
    by (force intro: pool_move.intros)
next
  case (Release c)
  with assms(4) obtain res where g: "release_address E opts (tn_ID tn) c tr = Some (res, tr')" and r: "r = Released res"
    by (auto simp: run_op_def split: option.splits)
  have "etcd_store E (pool_keys (tn_ID tn)) m" using assms(1) by (simp add: etcd_dir_def etcd_exact_def)
  from release_address_gives [OF this assms(2) _ g] assms(3) Release have res: "res = Ok ()"
    and s: "pool_stored (tn_ID tn) (store m tr')"
    and c: "pool_of (tn_ID tn) (store m tr') = pool_of (tn_ID tn) (store m tr)
      \<or> (\<exists>a. pool_move (pool_of (tn_ID tn) (store m tr)) (Give c a) (pool_of (tn_ID tn) (store m tr')))
      \<or> (\<exists>a. pool_move (pool_of (tn_ID tn) (store m tr)) (Lose c a) (pool_of (tn_ID tn) (store m tr')))" by simp_all
  have "move_of op r Idle" "move_of op r (Give c a)" "move_of op r (Lose c a)" for a using Release r res by simp_all
  with s c show ?thesis using move_idle by metis
qed

lemma pool_run_refines:
  assumes "etcd_dir E (pool_keys (tn_ID tn)) m (pod_available (tn_ID tn))"
  shows "pool_stored (tn_ID tn) (store m tr) \<Longrightarrow> list_all (\<lambda>op. container_id (pool_container op)) ops
    \<Longrightarrow> pool_run E opts tn ops tr = Some (rs, tr')
    \<Longrightarrow> pool_stored (tn_ID tn) (store m tr') \<and> length rs = length ops
      \<and> (\<exists>ls. pool_moves (pool_of (tn_ID tn) (store m tr)) ls (pool_of (tn_ID tn) (store m tr'))
        \<and> list_all2 (\<lambda>(op, r) l. move_of op r l) (zip ops rs) ls)"
proof (induction ops arbitrary: tr rs)
  case Nil
  then show ?case by (auto intro: pool_moves.intros)
next
  case (Cons op ops)
  from Cons.prems(3) obtain r t1 rs' where r: "run_op E opts tn op tr = Some (r, t1)" "pool_run E opts tn ops t1 = Some (rs', tr')"
    "rs = r # rs'" by (auto split: bind_splits)
  from run_op_refines [OF assms Cons.prems(1) _ r(1)] Cons.prems(2) obtain l where s: "pool_stored (tn_ID tn) (store m t1)"
    and l: "pool_move (pool_of (tn_ID tn) (store m tr)) l (pool_of (tn_ID tn) (store m t1))" "move_of op r l" by auto
  from Cons.IH [OF s _ r(2)] Cons.prems(2) obtain ls where "pool_stored (tn_ID tn) (store m tr')" "length rs' = length ops"
    "pool_moves (pool_of (tn_ID tn) (store m t1)) ls (pool_of (tn_ID tn) (store m tr'))"
    "list_all2 (\<lambda>(op, r) l. move_of op r l) (zip ops rs') ls" by auto
  with l r(3) show ?case by (auto intro!: exI [of _ "l # ls"] moves_Cons)
qed

subsection \<open>Properties\<close>

text \<open>
  C3: the pool in etcd refines the abstract pool. Whatever sequence of \<open>GetNewIP\<close> and
  \<open>release_address\<close> runs on a well-formed pool, whose keys nobody else changes meanwhile, the
  pool stays well-formed, no operation panics, and the stored pool goes through moves of the
  abstract one that fit the results: an allocation takes the address it returns out of the free ones
  or fails and changes nothing, and a release succeeds and gives the container's address back, or
  loses it, or finds none.
\<close>

theorem pool_refines:
  assumes "etcd_dir E (pool_keys (tn_ID tn)) m (pod_available (tn_ID tn))" and "pool_stored (tn_ID tn) (store m tr)"
    and "list_all (\<lambda>op. container_id (pool_container op)) ops" and "pool_run E opts tn ops tr = Some (rs, tr')"
  shows "pool_stored (tn_ID tn) (store m tr') \<and> length rs = length ops
    \<and> (\<exists>ls. pool_moves (pool_of (tn_ID tn) (store m tr)) ls (pool_of (tn_ID tn) (store m tr'))
      \<and> list_all2 (\<lambda>(op, r) l. move_of op r l) (zip ops rs) ls)"
  using assms by (rule pool_run_refines)

text \<open>
  C4: a sound pool stays sound through any such sequence, also when a container asks twice: no
  address is both free and some container's, no two containers have the same address, no container
  has two, and no address appears that was not there.
\<close>

theorem pool_stays_sound:
  assumes "etcd_dir E (pool_keys (tn_ID tn)) m (pod_available (tn_ID tn))" and "pool_stored (tn_ID tn) (store m tr)"
    and "list_all (\<lambda>op. container_id (pool_container op)) ops" and "pool_run E opts tn ops tr = Some (rs, tr')"
    and "pool_sound (pool_of (tn_ID tn) (store m tr))"
  shows "pool_sound (pool_of (tn_ID tn) (store m tr'))
    \<and> addresses (pool_of (tn_ID tn) (store m tr')) \<subseteq> addresses (pool_of (tn_ID tn) (store m tr))"
proof -
  from pool_run_refines [OF assms(1-4)] obtain ls where
    "pool_moves (pool_of (tn_ID tn) (store m tr)) ls (pool_of (tn_ID tn) (store m tr'))" by blast
  with assms(5) show ?thesis
    by (auto dest: pool_moves_steps pool_moves_addresses intro: pool_spec.inv_steps)
qed

subsection \<open>A directory that keeps its promises\<close>

definition dir_env :: "(string \<rightharpoonup> string) \<Rightarrow> string \<Rightarrow> string list \<Rightarrow> env \<Rightarrow> env" where
  "dir_env m d xs E = (store_env m E)\<lparr>etcd_srv := \<lambda>tr q.
     if q = KeysGet d True then
       Inr \<lparr>re_Action = ''get'', re_Node = Some (Node d [] True
         (List.map (\<lambda>k. Node k (the (store m tr k)) False [])
           (filter (\<lambda>k. store m tr k \<noteq> None) (List.map (\<lambda>x. d @ ''/'' @ x) xs)))), re_Index = length tr\<rparr>
     else etcd_srv (store_env m E) tr q\<rparr>"

lemma dir_env_simps [simp]:
  "etcd_srv (dir_env m d xs E) tr (KeysGet k False) = etcd_srv (store_env m E) tr (KeysGet k False)"
  "etcd_srv (dir_env m d xs E) tr (KeysSet k v x y) = etcd_srv (store_env m E) tr (KeysSet k v x y)"
  "etcd_srv (dir_env m d xs E) tr (KeysDelete k b1 b2) = etcd_srv (store_env m E) tr (KeysDelete k b1 b2)"
  "etcd_srv (dir_env m d xs E) tr (WatchNext k i) = etcd_srv E tr (WatchNext k i)"
  by (simp_all add: dir_env_def store_env_def)

interpretation env_dir: etcd_dir "dir_env m (pod_available t) xs E" "pool_keys t" m "pod_available t" for m t xs E
proof unfold_locales
  fix tr res dir node
  assume "etcd_srv (dir_env m (pod_available t) xs E) tr (KeysGet (pod_available t) True) = Inr res"
    "re_Node res = Some dir" "node \<in> set (node_Nodes dir)"
  then show "\<exists>x. node_Key node = pod_available t @ ''/'' @ x \<and> node_Key node \<in> pool_keys t \<and> store m tr (node_Key node) = Some (node_Value node)"
    by (auto simp: dir_env_def pool_keys_def)
qed (simp_all add: store_env_def)

text \<open>A pool with two addresses; a container takes one and gives it back, and another one asks.\<close>

definition two_store :: "string \<rightharpoonup> string" where
  "two_store = [pod_available ''t1'' @ ''/'' @ ''iprange'' \<mapsto> cidr_text [10, 0, 0, 0] 24,
     pod_available ''t1'' @ ''/'' @ dotted [10, 0, 0, 2] \<mapsto> cidr_text [10, 0, 0, 2] 24,
     pod_available ''t1'' @ ''/'' @ dotted [10, 0, 0, 3] \<mapsto> cidr_text [10, 0, 0, 3] 24]"

definition two_env :: env where
  "two_env = dir_env two_store (pod_available ''t1'') [dotted [10, 0, 0, 2], dotted [10, 0, 0, 3], ''iprange''] (kept_env two_store)"

lemma two_env_dir: "etcd_dir two_env (pool_keys ''t1'') two_store (pod_available ''t1'')"
  unfolding two_env_def by (rule env_dir.etcd_dir_axioms)

lemma two_env_services: "hostname_srv two_env = Some ''node1''" "CreateETCDClient two_env conf = None"
  "etcd_srv two_env u (WatchNext k i) = Inl (OtherError ''connection closed'')"
  by (simp_all add: two_env_def dir_env_def CreateETCDClient_def kept_env_def store_env_def added_env_def pool_env_def silent_env_def)

lemma two_dotted: "dotted [10, 0, 0, 2] = ''10.0.0.2''" "dotted [10, 0, 0, 3] = ''10.0.0.3''"
  by code_simp+

lemma two_store_stored: "pool_stored ''t1'' two_store"
proof -
  have "\<exists>a. x = dotted a \<and> address_text a v" if "two_store (pod_available ''t1'' @ ''/'' @ x) = Some v" "x \<noteq> ''iprange''" for x v
  proof -
    from that have "x = dotted [10, 0, 0, 2] \<and> v = cidr_text [10, 0, 0, 2] 24 \<or> x = dotted [10, 0, 0, 3] \<and> v = cidr_text [10, 0, 0, 3] 24"
      by (auto simp: two_store_def split: if_splits)
    then show ?thesis by (auto simp: address_text_def intro!: exI [of _ "24"])
  qed
  moreover have "two_store (pod_key ''t1'' c) = None" if "container_id c" for c
    using container_keys(6) [of c "''t1''"] that by (simp add: two_store_def container_id_def del: append_Cons)
  ultimately show ?thesis by (simp add: pool_stored_def)
qed

lemma two_store_used: "used (pool_of ''t1'' two_store) = {}"
  using container_keys(6) [where t = "''t1''"] by (auto simp: pool_of_def two_store_def container_id_def simp del: append_Cons)

lemma two_store_sound: "pool_sound (pool_of ''t1'' two_store)"
  by (simp add: pool_sound_def two_store_used)

lemma two_env_takes:
  "\<exists>info tr. GetNewIP two_env sample_tenant ''c1'' [] = (Ok info, tr)
    \<and> store two_store tr (pod_key ''t1'' ''c1'') = Some (cidr_text [10, 0, 0, 2] 24)
    \<and> store two_store tr (pod_available ''t1'' @ ''/iprange'') = Some (cidr_text [10, 0, 0, 0] 24)"
  by (simp add: GetNewIP_def allocate_ip_def etcd_call_eq sample_tenant_def two_env_def dir_env_def two_store_def kept_env_def store_env_def
      pod_key_def pod_available_def two_dotted has_suffix_def ParseCIDR_text gateway_v4)

abbreviation two_ops :: "pool_op list" where
  "two_ops \<equiv> [Allocate ''c1'', Release ''c1'', Allocate ''c2'']"

lemma two_env_runs:
  "\<exists>info res tr. pool_run two_env shell_conf sample_tenant two_ops [] = Some ([Allocated (Ok info), Released (Ok ()), Allocated res], tr)"
proof -
  from two_env_takes obtain info t1 where g: "GetNewIP two_env sample_tenant ''c1'' [] = (Ok info, t1)"
    and s: "store two_store t1 (pod_key ''t1'' ''c1'') = Some (cidr_text [10, 0, 0, 2] 24)"
      "store two_store t1 (pod_available ''t1'' @ ''/iprange'') = Some (cidr_text [10, 0, 0, 0] 24)" by blast
  have st: "etcd_store two_env (pool_keys ''t1'') two_store" using two_env_dir by (simp add: etcd_dir_def etcd_exact_def)
  have w: "watch_ends two_env k idx u" for k idx u by (rule watch_fails [OF two_env_services(3)])
  have nw: "is_network [10, 0, 0, 0] 24" by (simp add: is_network_def val4_def)
  have range: "pod_available ''t1'' @ ''/iprange'' = pod_available ''t1'' @ ''/'' @ ''iprange''" by simp
  have "container_id ''c1''" by (simp add: container_id_def)
  then have k: "{pod_key ''t1'' ''c1'', pod_available ''t1'' @ ''/iprange'', pod_available ''t1'' @ ''/'' @ dotted [10, 0, 0, 2]} \<subseteq> pool_keys ''t1''"
    unfolding range by (simp only: insert_subset pool_keys_simps empty_subsetI simp_thms)
  obtain evs where r: "release_address two_env shell_conf ''t1'' ''c1'' t1 = Some (Ok (), t1 @ evs)"
    using release_address_store [OF nw _ _ _ two_env_services(1) w st k s two_env_services(2)] by (auto simp: val4_def)
  obtain res tr where "GetNewIP two_env sample_tenant ''c2'' (t1 @ evs) = (res, tr)" by fastforce
  with g r show ?thesis by (simp add: run_op_def sample_tenant_def)
qed

theorem pool_refines_witness:
  "\<exists>info res tr ls. pool_run two_env shell_conf sample_tenant two_ops [] = Some ([Allocated (Ok info), Released (Ok ()), Allocated res], tr)
    \<and> pool_stored ''t1'' (store two_store tr) \<and> pool_moves (pool_of ''t1'' two_store) ls (pool_of ''t1'' (store two_store tr))
    \<and> list_all2 (\<lambda>(op, r) l. move_of op r l) (zip two_ops [Allocated (Ok info), Released (Ok ()), Allocated res]) ls"
proof -
  from two_env_runs obtain info res tr where
    run: "pool_run two_env shell_conf sample_tenant two_ops [] = Some ([Allocated (Ok info), Released (Ok ()), Allocated res], tr)" by blast
  have t: "tn_ID sample_tenant = ''t1''" by (simp add: sample_tenant_def)
  have "list_all (\<lambda>op. container_id (pool_container op)) two_ops" by (simp add: container_id_def)
  from pool_refines [OF _ _ this run, unfolded t, OF two_env_dir] two_store_stored run show ?thesis by auto
qed

theorem pool_stays_sound_witness:
  "\<exists>rs tr. pool_run two_env shell_conf sample_tenant two_ops [] = Some (rs, tr)
    \<and> pool_sound (pool_of ''t1'' (store two_store tr))
    \<and> addresses (pool_of ''t1'' (store two_store tr)) \<subseteq> addresses (pool_of ''t1'' two_store)"
proof -
  from two_env_runs obtain rs tr where run: "pool_run two_env shell_conf sample_tenant two_ops [] = Some (rs, tr)" by blast
  have t: "tn_ID sample_tenant = ''t1''" by (simp add: sample_tenant_def)
  have "list_all (\<lambda>op. container_id (pool_container op)) two_ops" by (simp add: container_id_def)
  from pool_stays_sound [OF _ _ this run, unfolded t, OF two_env_dir] two_store_stored two_store_sound run show ?thesis by auto
qed

end
