(* ===== verification/PoolFill.thy ===== *)
theory PoolFill
  imports PoolSpec
begin

text \<open>
  The creation of a pool seen by the abstract specification: \<open>CreateIPsForTenantBridge\<close> makes the
  addresses of a network free and touches nothing else.
\<close>

subsection \<open>Events with the answers of the environment\<close>

fun answered :: "env \<Rightarrow> history \<Rightarrow> history \<Rightarrow> bool" where
  "answered E tr [] = True"
| "answered E tr (e # evs) = ((case e of EtcdEv q a \<Rightarrow> a = etcd_srv E tr q | _ \<Rightarrow> True) \<and> answered E (tr @ [e]) evs)"

lemma answered_append: "answered E tr (evs @ evs') \<longleftrightarrow> answered E tr evs \<and> answered E (tr @ evs) evs'"
  by (induction evs arbitrary: tr) simp_all

lemma fill_pool_answered:
  assumes "fill_pool E dir skip r tr = Some tr'"
  shows "\<exists>evs. tr' = tr @ evs \<and> answered E tr evs"
proof (rule fill_pool.raw_induct [where P = "\<lambda>F _ _ _ tr tr'. \<exists>evs. tr' = tr @ evs \<and> answered F tr evs", OF _ assms], goal_cases)
  case (1 rec F dir skip r t t')
  obtain ok nx where n: "Range_Next r = (ok, nx)" by fastforce
  let ?q = "KeysSet (dir @ Range_String r) (Range_StringSuffix r) False 0"
  consider "t' = t" | "rec F dir skip nx t = Some t'" | "rec F dir skip nx (t @ [EtcdEv ?q (etcd_srv F t ?q)]) = Some t'"
    using 1(2) unfolding n prod.case etcd_call_eq snd_conv by (cases ok; cases "skip \<and> has_suffix (Range_String r) ''.254''") simp_all
  then show ?case
  proof cases
    case 1
    then show ?thesis by (intro exI [of _ "[]"]) simp
  next
    case 2
    from "1"(1) [OF 2] show ?thesis .
  next
    case 3
    from "1"(1) [OF 3] obtain evs where "t' = (t @ [EtcdEv ?q (etcd_srv F t ?q)]) @ evs"
      "answered F (t @ [EtcdEv ?q (etcd_srv F t ?q)]) evs" by blast
    then show ?thesis by (intro exI [of _ "EtcdEv ?q (etcd_srv F t ?q) # evs"]) simp
  qed
qed

text \<open>Accepted changes of keys, one after the other.\<close>

lemma sets_store:
  assumes "etcd_store E K m"
  shows "answered E tr evs \<Longrightarrow> requests evs (List.map (\<lambda>(k, v). KeysSet k v False 0) kvs) \<Longrightarrow> fst ` set kvs \<subseteq> K
    \<Longrightarrow> store s evs = s ++ map_of (rev kvs)"
proof (induction kvs arbitrary: tr evs s)
  case Nil
  then show ?case by (simp add: requests_def)
next
  case (Cons kv kvs)
  obtain k v where kv: "kv = (k, v)" by fastforce
  with Cons.prems(2) obtain a evs' where e: "evs = EtcdEv (KeysSet k v False 0) a # evs'"
    "requests evs' (List.map (\<lambda>(k, v). KeysSet k v False 0) kvs)"
    by (cases evs) (auto simp: requests_def event_req_def split: event.splits)
  from Cons.prems(3) kv have "k \<in> K" by simp
  from etcd_store.set_accepted [OF assms this] obtain x where x: "etcd_srv E tr (KeysSet k v False 0) = Inr x" by blast
  with Cons.prems(1) e(1) have a: "a = Inr x" "answered E (tr @ [EtcdEv (KeysSet k v False 0) a]) evs'" by auto
  have "store (s(k \<mapsto> v)) evs' = s(k \<mapsto> v) ++ map_of (rev kvs)"
    using Cons.prems(3) by (intro Cons.IH [OF a(2) e(2)]) auto
  with e(1) a(1) kv show ?case by simp
qed

subsection \<open>The pool after its creation\<close>

text \<open>The addresses of a network that are handed out: from the third to the last but one, without those in .254.\<close>

definition host_addresses :: "bytes \<Rightarrow> nat \<Rightarrow> bytes set" where
  "host_addresses b n = {a. length a = 4 \<and> val4 b + 2 \<le> val4 a \<and> val4 a + 1 < val4 b + 2 ^ (32 - n) \<and> a ! 3 \<noteq> 254}"

lemma host_addresses_places:
  assumes "is_network b n"
  shows "host_addresses b n = (\<lambda>k. bytes4 (val4 b + k)) ` set (pool_places b n True 2)"
proof (intro set_eqI iffI)
  fix a assume a: "a \<in> host_addresses b n"
  then have "a = bytes4 (val4 b + (val4 a - val4 b))" by (simp add: host_addresses_def bytes4_val4)
  moreover have "val4 a - val4 b \<in> set (pool_places b n True 2)"
    using a bytes4_last [of "val4 a"] by (auto simp: host_addresses_def pool_places_def bytes4_val4)
  ultimately show "a \<in> (\<lambda>k. bytes4 (val4 b + k)) ` set (pool_places b n True 2)" by blast
next
  fix a assume "a \<in> (\<lambda>k. bytes4 (val4 b + k)) ` set (pool_places b n True 2)"
  then obtain k where k: "a = bytes4 (val4 b + k)" "2 \<le> k" "k < 2 ^ (32 - n) - 1" "(val4 b + k) mod 256 \<noteq> 254"
    by (auto simp: pool_places_def)
  moreover have "val4 b + k < 2 ^ 32" using place_bound [OF assms, of k] k(3) by simp
  ultimately show "a \<in> host_addresses b n" by (auto simp: host_addresses_def val4_bytes4 bytes4_last)
qed

definition fill_keys :: "string \<Rightarrow> bytes \<Rightarrow> nat \<Rightarrow> (string \<times> string) list" where
  "fill_keys t b n = List.map (\<lambda>k. (pod_available t @ ''/'' @ place_text b k, cidr_text (bytes4 (val4 b + k)) n)) (pool_places b n True 2)"

lemma fill_keys_of:
  assumes "is_network b n" and "length a = 4"
  shows "map_of (rev (fill_keys t b n)) (pod_available t @ ''/'' @ dotted a)
    = (if a \<in> host_addresses b n then Some (cidr_text a n) else None)"
proof -
  let ?ks = "pool_places b n True 2"
  have "distinct (List.map (place_text b) ?ks)"
    by (rule distinct_places [OF assms(1)]) (auto simp: pool_places_def)
  then have d: "distinct (List.map fst (rev (fill_keys t b n)))"
    by (simp add: fill_keys_def distinct_map inj_on_def comp_def) metis
  show ?thesis
  proof (cases "a \<in> host_addresses b n")
    case True
    then obtain k where "k \<in> set ?ks" "a = bytes4 (val4 b + k)" using host_addresses_places [OF assms(1)] by auto
    then have "(pod_available t @ ''/'' @ dotted a, cidr_text a n) \<in> set (rev (fill_keys t b n))"
      by (auto simp: fill_keys_def place_text_def)
    with True d show ?thesis by (simp add: map_of_is_SomeI)
  next
    case False
    have "pod_available t @ ''/'' @ dotted a \<notin> fst ` set (fill_keys t b n)"
    proof
      assume "pod_available t @ ''/'' @ dotted a \<in> fst ` set (fill_keys t b n)"
      then obtain k where "k \<in> set ?ks" "dotted a = dotted (bytes4 (val4 b + k))" by (auto simp: fill_keys_def place_text_def)
      with assms(2) dotted_unique have "a = bytes4 (val4 b + k)" by simp
      with \<open>k \<in> set ?ks\<close> False host_addresses_places [OF assms(1)] show False by blast
    qed
    with False show ?thesis by (simp add: map_of_eq_None_iff del: append_Cons)
  qed
qed

lemma fill_keys_only:
  assumes "map_of (rev (fill_keys t b n)) k = Some v"
  shows "\<exists>a. length a = 4 \<and> k = pod_available t @ ''/'' @ dotted a \<and> v = cidr_text a n"
proof -
  from map_of_SomeD [OF assms] obtain i where "(k, v) = (pod_available t @ ''/'' @ place_text b i, cidr_text (bytes4 (val4 b + i)) n)"
    by (auto simp: fill_keys_def)
  then show ?thesis by (intro exI [of _ "bytes4 (val4 b + i)"]) (simp add: place_text_def)
qed

lemma set_iprange_answered: "set_iprange E key r tr = (x, tr') \<Longrightarrow> \<exists>evs. tr' = tr @ evs \<and> answered E tr evs"
  by (auto simp: set_iprange_def etcd_call_eq split: sum.splits option.splits if_splits)

lemma CreateIPs_answered:
  assumes "CreateIPsForTenantBridge E tn cidr tr = Some (Ok (), tr')"
  shows "\<exists>evs. tr' = tr @ evs \<and> answered E tr evs"
proof -
  let ?k = "pod_available (tn_ID tn)"
  obtain err t1 where s: "set_iprange E (?k @ ''/iprange'') cidr tr = (err, t1)" by fastforce
  with assms obtain r where "fill_pool E (?k @ ''/'') True r t1 = Some tr'"
    by (auto simp: CreateIPsForTenantBridge_def split: option.splits outcome.splits if_splits bind_splits)
  from fill_pool_answered [OF this] set_iprange_answered [OF s] show ?thesis by (auto simp: answered_append)
qed

lemma CreateIPs_store:
  assumes "etcd_store E (pool_keys (tn_ID tn)) m" and "is_network b n" and "n \<le> 30"
  shows "\<exists>tr'. CreateIPsForTenantBridge E tn (cidr_text b n) tr = Some (Ok (), tr')
    \<and> store m tr' = (store m tr)(pod_available (tn_ID tn) @ ''/iprange'' \<mapsto> cidr_text b n) ++ map_of (rev (fill_keys (tn_ID tn) b n))"
proof -
  let ?t = "tn_ID tn" and ?kvs = "(pod_available (tn_ID tn) @ ''/iprange'', cidr_text b n) # fill_keys (tn_ID tn) b n"
  have range: "pod_available ?t @ ''/iprange'' = pod_available ?t @ ''/'' @ ''iprange''" by simp
  then have "pod_available ?t @ ''/iprange'' \<in> pool_keys ?t" using pool_keys_simps(2) by metis
  then have k: "fst ` set ?kvs \<subseteq> pool_keys ?t" by (auto simp: fill_keys_def simp del: append_Cons)
  obtain x where x: "etcd_srv E tr (KeysSet (pod_available ?t @ ''/iprange'') (cidr_text b n) False 0) = Inr x"
    using etcd_store.set_accepted [OF assms(1) pool_keys_simps(2)] range by metis
  from CreateIPs_network [OF assms(2,3) x] obtain evs where run: "CreateIPsForTenantBridge E tn (cidr_text b n) tr = Some (Ok (), tr @ evs)"
    and q: "requests evs (KeysSet (pod_available ?t @ ''/iprange'') (cidr_text b n) False 0
      # List.map (place_set (pod_available ?t @ ''/'') b n) (pool_places b n True 2))" by blast
  have "requests evs (List.map (\<lambda>(k, v). KeysSet k v False 0) ?kvs)"
    using q by (simp add: fill_keys_def place_set_def [abs_def] comp_def)
  from sets_store [OF assms(1) _ this k] CreateIPs_answered [OF run] have "store s evs = s ++ map_of (rev ?kvs)" for s by auto
  with run show ?thesis by (intro exI [of _ "tr @ evs"]) (simp add: map_add_upd_left)
qed

text \<open>The abstraction of a store to which the keys of a new network were added.\<close>

lemma filled_pool:
  assumes "is_network b n" and "pool_stored t s"
    and s': "s' = s(pod_available t @ ''/iprange'' \<mapsto> cidr_text b n) ++ map_of (rev (fill_keys t b n))"
  shows "pool_stored t s'" and "free (pool_of t s') = free (pool_of t s) \<union> host_addresses b n" and "used (pool_of t s') = used (pool_of t s)"
proof -
  let ?fill = "map_of (rev (fill_keys t b n))"
  from is_networkD(2) [OF assms(1)] have n: "n \<le> 32" .
  have range: "pod_available t @ ''/iprange'' = pod_available t @ ''/'' @ ''iprange''" by simp
  have avail: "s' (pod_available t @ ''/'' @ dotted a)
      = (if a \<in> host_addresses b n then Some (cidr_text a n) else s (pod_available t @ ''/'' @ dotted a))" if "length a = 4" for a
    using fill_keys_of [OF assms(1) that, of t] dotted_iprange [of a] unfolding s' range by (auto simp: map_add_def split: if_splits)
  have no: "?fill (pod_key t c) = None" if c: "container_id c" for c
  proof (cases "?fill (pod_key t c)")
    case (Some v)
    from fill_keys_only [OF this] container_keys(6) [of c t] c show ?thesis by (auto simp: container_id_def simp del: append_Cons)
  qed
  have pod: "s' (pod_key t c) = s (pod_key t c)" if c: "container_id c" for c
    using no [OF c] container_keys(6) [of c t "''iprange''"] c unfolding s' range
    by (simp add: map_add_def container_id_def del: append_Cons)
  then show "used (pool_of t s') = used (pool_of t s)" by (auto simp: pool_of_def)
  have "a \<in> free (pool_of t s') \<longleftrightarrow> a \<in> free (pool_of t s) \<union> host_addresses b n" for a
  proof (cases "length a = 4")
    case True
    with avail [OF True] n show ?thesis by (auto simp: pool_of_def host_addresses_def address_text_def simp del: append_Cons)
  qed (simp add: pool_of_def host_addresses_def address_text_def)
  then show "free (pool_of t s') = free (pool_of t s) \<union> host_addresses b n" by (rule set_eqI)
  have "\<exists>a. x = dotted a \<and> address_text a v" if v: "s' (pod_available t @ ''/'' @ x) = Some v" "x \<noteq> ''iprange''" for x v
  proof (cases "?fill (pod_available t @ ''/'' @ x)")
    case None
    with v have "s (pod_available t @ ''/'' @ x) = Some v" unfolding s' range by (simp add: map_add_def)
    with assms(2) v(2) show ?thesis unfolding pool_stored_def by blast
  next
    case (Some w)
    with v have "w = v" unfolding s' by (simp add: map_add_def)
    with fill_keys_only [OF Some] n show ?thesis by (auto simp: address_text_def)
  qed
  moreover have "\<exists>a. address_text a v" if "container_id c" "s' (pod_key t c) = Some v" for c v
    using assms(2) pod [OF that(1)] that unfolding pool_stored_def by metis
  ultimately show "pool_stored t s'" unfolding pool_stored_def by blast
qed

text \<open>
  C5: creating a pool is a fill of the abstract one. \<open>CreateIPsForTenantBridge\<close> on a network of at
  least four addresses, in an etcd that accepts changes, returns with success; the pool stays well-formed,
  its free addresses are now also those of the network from the third to the last but one that do not
  end in .254, nothing else becomes free, and what the containers have is unchanged. If none of the new
  addresses is some container's, a sound pool stays sound.
\<close>

theorem CreateIPs_fills:
  assumes "etcd_store E (pool_keys (tn_ID tn)) m" and "is_network b n" and "n \<le> 30"
    and "pool_stored (tn_ID tn) (store m tr)" and "pool_sound (pool_of (tn_ID tn) (store m tr))"
    and "snd ` used (pool_of (tn_ID tn) (store m tr)) \<inter> host_addresses b n = {}"
  shows "\<exists>tr'. CreateIPsForTenantBridge E tn (cidr_text b n) tr = Some (Ok (), tr')
    \<and> pool_stored (tn_ID tn) (store m tr') \<and> pool_sound (pool_of (tn_ID tn) (store m tr'))
    \<and> free (pool_of (tn_ID tn) (store m tr')) = free (pool_of (tn_ID tn) (store m tr)) \<union> host_addresses b n
    \<and> used (pool_of (tn_ID tn) (store m tr')) = used (pool_of (tn_ID tn) (store m tr))"
proof -
  let ?t = "tn_ID tn" and ?s = "store m tr"
  from CreateIPs_store [OF assms(1-3)] obtain tr' where run: "CreateIPsForTenantBridge E tn (cidr_text b n) tr = Some (Ok (), tr')"
    and s': "store m tr' = ?s(pod_available ?t @ ''/iprange'' \<mapsto> cidr_text b n) ++ map_of (rev (fill_keys ?t b n))" by blast
  note filled = filled_pool [OF assms(2,4) s']
  have "pool_sound (pool_of ?t (store m tr'))"
    using assms(5,6) unfolding pool_sound_def filled(2,3) by (auto simp: image_iff disjoint_iff)
  with run filled show ?thesis by blast
qed

text \<open>A first pool, in an etcd where nothing is stored.\<close>

theorem CreateIPs_fills_witness:
  "\<exists>tr'. CreateIPsForTenantBridge (store_env Map.empty pool_env) sample_tenant (cidr_text [192, 168, 0, 0] 24) [] = Some (Ok (), tr')
    \<and> pool_stored ''t1'' (store Map.empty tr') \<and> pool_sound (pool_of ''t1'' (store Map.empty tr'))
    \<and> free (pool_of ''t1'' (store Map.empty tr')) = host_addresses [192, 168, 0, 0] 24
    \<and> used (pool_of ''t1'' (store Map.empty tr')) = {}"
proof -
  have t: "tn_ID sample_tenant = ''t1''" by (simp add: sample_tenant_def)
  have e: "free (pool_of ''t1'' Map.empty) = {}" "used (pool_of ''t1'' Map.empty) = {}" by (simp_all add: pool_of_def)
  have st: "etcd_store (store_env Map.empty pool_env) (pool_keys ''t1'') Map.empty" by (rule env_store.etcd_store_axioms)
  have "is_network [192, 168, 0, 0] 24" by (simp add: is_network_def val4_def)
  from CreateIPs_fills [where tn = sample_tenant, unfolded t, OF st this, of "[]"] e show ?thesis
    by (simp add: pool_stored_def pool_sound_def)
qed

end
