(* ===== verification/Plugin.thy ===== *)
theory Plugin
  imports K8s
begin

text \<open>
  \<open>cmd/midonet/midonet.go\<close>: the handlers of the CNI commands, \<open>cmdAdd\<close> and \<open>cmdDel\<close>. \<open>CommandLine\<close>
  has \<open>main\<close>, which calls them.
\<close>

subsection \<open>Printing the result\<close>

text \<open>\<open>json.MarshalIndent\<close> with four spaces; a text is written to the standard output.\<close>

definition indent :: "nat \<Rightarrow> string" where
  "indent d = CHR 0x0A # replicate (4 * d) (CHR '' '')"

fun show_indent :: "nat \<Rightarrow> json \<Rightarrow> string"
  and indent_elems :: "nat \<Rightarrow> json list \<Rightarrow> string"
  and indent_members :: "nat \<Rightarrow> (string \<times> json) list \<Rightarrow> string" where
  "show_indent d (JArr vs) =
     (if vs = [] then ''[]'' else CHR ''['' # indent_elems (Suc d) vs @ indent d @ '']'')"
| "show_indent d (JObj kvs) =
     (if kvs = [] then ''{}'' else CHR ''{'' # indent_members (Suc d) kvs @ indent d @ ''}'')"
| "show_indent d v = show_json v"
| "indent_elems d [] = []"
| "indent_elems d (v # vs) = indent d @ show_indent d v @ (if vs = [] then [] else CHR '','' # indent_elems d vs)"
| "indent_members d [] = []"
| "indent_members d ((k, v) # kvs) =
     indent d @ quoted k @ '': '' @ show_indent d v @ (if kvs = [] then [] else CHR '','' # indent_members d kvs)"

definition Result_Print :: "env \<Rightarrow> Result \<Rightarrow> history \<Rightarrow> unit outcome \<times> history" where
  "Result_Print E r tr =
     (case Result_json r of
        None \<Rightarrow> (Err (OtherError ''json: error calling MarshalText''), tr)
      | Some v \<Rightarrow>
          (case host_do E (WriteStdout (show_indent 0 v)) tr of (err, tr) \<Rightarrow>
             (case err of Some e \<Rightarrow> Err e | None \<Rightarrow> Ok (), tr)))"

subsection \<open>The handlers\<close>

text \<open>
  \<open>cmdDel\<close> does not look at the error of \<open>Default\<close>, and goes on with the options as it left
  them.
\<close>

definition cmdDel :: "env \<Rightarrow> CmdArgs \<Rightarrow> history \<Rightarrow> (unit outcome \<times> history) option" where
  "cmdDel E args tr =
     (case Options_Unmarshal (ca_StdinData args) of
        None \<Rightarrow> Some (Err (OtherError ''Failed to parse config''), tr)
      | Some options \<Rightarrow> do {
          ((err, options), tr) \<leftarrow> Default E options tr;
          (case err of
             Panic \<Rightarrow> Some (Panic, tr)
           | _ \<Rightarrow>
               (case SetLog E options tr of (options, tr) \<Rightarrow> do {
                  (result, tr) \<leftarrow> CmdDelK8s E args options tr;
                  Some (case result of
                      Err e \<Rightarrow> (Err e, tr)
                    | Panic \<Rightarrow> (Panic, tr)
                    | Ok r \<Rightarrow> Result_Print E r tr)
                }))
        })"

text \<open>
  A failed \<open>cmdAdd\<close> sets \<open>CNI_COMMAND\<close> and runs \<open>cmdDel\<close>, whose error is only logged, and
  returns its own error.
\<close>

definition undo_add :: "env \<Rightarrow> CmdArgs \<Rightarrow> go_error \<Rightarrow> history \<Rightarrow> (unit outcome \<times> history) option" where
  "undo_add E args err tr =
     (case host_do E (Setenv ''CNI_COMMAND'' ''DEL'') tr of (failed, tr) \<Rightarrow>
        case failed of
          Some _ \<Rightarrow> Some (Err err, tr)
        | None \<Rightarrow> do {
            (res, tr) \<leftarrow> cmdDel E args tr;
            Some (case res of Panic \<Rightarrow> Panic | _ \<Rightarrow> Err err, tr)
          })"

definition cmdAdd :: "env \<Rightarrow> CmdArgs \<Rightarrow> history \<Rightarrow> (unit outcome \<times> history) option" where
  "cmdAdd E args tr =
     (case Options_Unmarshal (ca_StdinData args) of
        None \<Rightarrow> Some (Err (OtherError ''Failed to parse config''), tr)
      | Some options \<Rightarrow> do {
          ((err, options), tr) \<leftarrow> Default E options tr;
          (case err of
             Panic \<Rightarrow> Some (Panic, tr)
           | Err e \<Rightarrow> Some (Err e, tr)
           | Ok _ \<Rightarrow>
               (case SetLog E options tr of (options, tr) \<Rightarrow> do {
                  (result, tr) \<leftarrow> CmdAddK8s E args options tr;
                  (case result of
                     Panic \<Rightarrow> Some (Panic, tr)
                   | Ok r \<Rightarrow> Some (Result_Print E r tr)
                   | Err err \<Rightarrow> undo_add E args err tr)
                }))
        })"

end
