(* ===== verification/CommandLine.thy ===== *)
theory CommandLine
  imports Plugin
begin

text \<open>
  \<open>main\<close> of \<open>cmd/midonet/midonet.go\<close> and the part of the CNI library it hands over to,
  \<open>skel.PluginMain\<close>: the flag \<open>-v\<close>, the arguments from the environment, the version of the
  configuration, the dispatch on \<open>CNI_COMMAND\<close>, and how an error is reported.

  The process is a parameter: its arguments, environment variables and standard input, the version set when it
  was linked, and two functions of Go's library on texts, \<open>fmt.Sprintf\<close> of a text without arguments
  (which is the text itself when it has no percent sign) and \<open>strconv.Quote\<close>. What is written to the standard
  error is left out.
\<close>

subsection \<open>The process\<close>

record process =
  pr_Args :: "string list"
  pr_Getenv :: "string \<Rightarrow> string"
  pr_Stdin :: "go_error + string"
  pr_VERSION :: string
  pr_Sprintf :: "string \<Rightarrow> string"
  pr_Quote :: "string \<Rightarrow> string"

text \<open>How the process ends: with a status, or with a panic that nothing recovers.\<close>

datatype process_end = Exit nat | Crash

subsection \<open>The flags\<close>

text \<open>\<open>strconv.ParseBool\<close>.\<close>

definition ParseBool :: "string \<Rightarrow> bool option" where
  "ParseBool s =
     (if s \<in> {''1'', ''t'', ''T'', ''true'', ''TRUE'', ''True''} then Some True
      else if s \<in> {''0'', ''f'', ''F'', ''false'', ''FALSE'', ''False''} then Some False
      else None)"

text \<open>
  \<open>FlagSet.Parse\<close> with the one flag \<open>v\<close>: its value, or \<open>None\<close> when the library ends the process
  with status 2 (an unknown flag, a bad value, the request for help).
\<close>

fun parse_flags :: "string list \<Rightarrow> bool \<Rightarrow> bool option" where
  "parse_flags [] v = Some v"
| "parse_flags (s # args) v =
     (if length s < 2 \<or> hd s \<noteq> CHR ''-'' then Some v
      else if s = ''--'' then Some v
      else
        (let name = (if s ! 1 = CHR ''-'' then drop 2 s else drop 1 s)
         in if name = [] \<or> hd name = CHR ''-'' \<or> hd name = CHR ''='' then None
            else
              (let flag = takeWhile (\<lambda>c. c \<noteq> CHR ''='') name;
                   rest = dropWhile (\<lambda>c. c \<noteq> CHR ''='') name
               in if flag \<noteq> ''v'' then None
                  else if rest = [] then parse_flags args True
                  else
                    (case ParseBool (tl rest) of
                       None \<Rightarrow> None
                     | Some b \<Rightarrow> parse_flags args b))))"

subsection \<open>Errors of the CNI library\<close>

record cni_error =
  ce_Code :: nat
  ce_Msg :: string
  ce_Details :: string

definition ErrIncompatibleCNIVersion :: nat where
  "ErrIncompatibleCNIVersion = 1"

definition cni_error_json :: "cni_error \<Rightarrow> json" where
  "cni_error_json e = JObj ([(''code'', JNum (itoa (ce_Code e))), (''msg'', js (ce_Msg e))] @ opt_string ''details'' (ce_Details e))"

definition createTypedError :: "process \<Rightarrow> string \<Rightarrow> cni_error" where
  "createTypedError p f = \<lparr>ce_Code = 100, ce_Msg = pr_Sprintf p f, ce_Details = []\<rparr>"

subsection \<open>The arguments\<close>

text \<open>The variables, and the commands that need them.\<close>

definition cmd_vars :: "(string \<times> string list) list" where
  "cmd_vars = [(''CNI_COMMAND'', [''ADD'', ''DEL'']), (''CNI_CONTAINERID'', []), (''CNI_NETNS'', [''ADD'']),
     (''CNI_IFNAME'', [''ADD'', ''DEL'']), (''CNI_ARGS'', []), (''CNI_PATH'', [''ADD'', ''DEL''])]"

text \<open>The command and its arguments.\<close>

definition getCmdArgsFromEnv :: "process \<Rightarrow> string + (string \<times> CmdArgs)" where
  "getCmdArgsFromEnv p =
     (let cmd = pr_Getenv p ''CNI_COMMAND'';
          argsMissing = list_ex (\<lambda>(name, reqForCmd). pr_Getenv p name = [] \<and> (cmd \<in> set reqForCmd \<or> name = ''CNI_COMMAND'')) cmd_vars
      in if argsMissing then Inl ''required env variables missing''
         else
           (case pr_Stdin p of
              Inl err \<Rightarrow> Inl (''error reading from stdin: '' @ error_text err)
            | Inr data \<Rightarrow>
                Inr (cmd, \<lparr>ca_ContainerID = pr_Getenv p ''CNI_CONTAINERID'', ca_Netns = pr_Getenv p ''CNI_NETNS'',
                           ca_IfName = pr_Getenv p ''CNI_IFNAME'', ca_Args = pr_Getenv p ''CNI_ARGS'',
                           ca_Path = pr_Getenv p ''CNI_PATH'', ca_StdinData = data\<rparr>)))"

subsection \<open>Versions\<close>

text \<open>\<open>version.Legacy\<close> and \<open>version.Current\<close>.\<close>

definition legacy_versions :: "string list" where
  "legacy_versions = [''0.1.0'', ''0.2.0'']"

definition current_version :: string where
  "current_version = ''0.3.1''"

text \<open>\<open>ConfigDecoder.Decode\<close>. (The text of a JSON error is left out of the message.)\<close>

definition version_fields :: "string field list" where
  "version_fields = [(''cniVersion'', as_string (\<lambda>s _. s))]"

definition decode_version :: "string \<Rightarrow> string + string" where
  "decode_version data =
     (case Unmarshal version_fields [] data of
        None \<Rightarrow> Inl ''decoding version from network config: ''
      | Some v \<Rightarrow> Inr (if v = [] then ''0.1.0'' else v))"

text \<open>\<open>Reconciler.Check\<close> with \<open>ErrorIncompatible.Details\<close>: the details of an incompatibility.\<close>

definition check_version :: "process \<Rightarrow> string \<Rightarrow> string option" where
  "check_version p v =
     (if v \<in> set legacy_versions then None
      else Some (''config is '' @ pr_Quote p v @ '', plugin supports [''
                 @ pr_Quote p (legacy_versions ! 0) @ '' '' @ pr_Quote p (legacy_versions ! 1) @ '']''))"

text \<open>\<open>pluginInfo.Encode\<close>: one line of JSON.\<close>

definition version_text :: string where
  "version_text = show_json (JObj [(''cniVersion'', js current_version), (''supportedVersions'', JArr (List.map js legacy_versions))])
     @ [CHR 0x0A]"

subsection \<open>The dispatch\<close>

text \<open>What \<open>pluginMain\<close> does: it returns an error or nil, or a handler panics.\<close>

datatype plugin_result = Returned "cni_error option" | Panicked

text \<open>The error a handler returned, as one of the CNI library.\<close>

definition wrap_error :: "process \<Rightarrow> unit outcome \<Rightarrow> plugin_result" where
  "wrap_error p r =
     (case r of
        Ok _ \<Rightarrow> Returned None
      | Err err \<Rightarrow> Returned (Some (createTypedError p (error_text err)))
      | Panic \<Rightarrow> Panicked)"

definition checkVersionAndCall ::
    "process \<Rightarrow> CmdArgs \<Rightarrow> (CmdArgs \<Rightarrow> history \<Rightarrow> (unit outcome \<times> history) option) \<Rightarrow> history
      \<Rightarrow> (plugin_result \<times> history) option" where
  "checkVersionAndCall p args toCall tr =
     (case decode_version (ca_StdinData args) of
        Inl msg \<Rightarrow> Some (Returned (Some (createTypedError p msg)), tr)
      | Inr v \<Rightarrow>
          (case check_version p v of
             Some details \<Rightarrow>
               Some (Returned (Some \<lparr>ce_Code = ErrIncompatibleCNIVersion, ce_Msg = ''incompatible CNI versions'', ce_Details = details\<rparr>), tr)
           | None \<Rightarrow> do { (r, tr) \<leftarrow> toCall args tr; Some (wrap_error p r, tr) }))"

definition pluginMain :: "process \<Rightarrow> env \<Rightarrow> history \<Rightarrow> (plugin_result \<times> history) option" where
  "pluginMain p E tr =
     (case getCmdArgsFromEnv p of
        Inl msg \<Rightarrow> Some (Returned (Some (createTypedError p msg)), tr)
      | Inr (cmd, args) \<Rightarrow>
          if cmd = ''ADD'' then checkVersionAndCall p args (cmdAdd E) tr
          else if cmd = ''DEL'' then checkVersionAndCall p args (cmdDel E) tr
          else if cmd = ''VERSION'' then
            (case host_do E (WriteStdout version_text) tr of (err, tr) \<Rightarrow>
               Some (wrap_error p (case err of Some e \<Rightarrow> Err e | None \<Rightarrow> Ok ()), tr))
          else Some (Returned (Some \<lparr>ce_Code = 100, ce_Msg = ''unknown CNI_COMMAND: '' @ cmd, ce_Details = []\<rparr>), tr))"

text \<open>\<open>PluginMain\<close>: an error is printed, and the status is 1, also when printing fails.\<close>

definition PluginMain :: "process \<Rightarrow> env \<Rightarrow> history \<Rightarrow> (process_end \<times> history) option" where
  "PluginMain p E tr = do {
     (r, tr) \<leftarrow> pluginMain p E tr;
     Some (case r of
         Panicked \<Rightarrow> (Crash, tr)
       | Returned None \<Rightarrow> (Exit 0, tr)
       | Returned (Some e) \<Rightarrow> (Exit 1, snd (host_do E (WriteStdout (show_indent 0 (cni_error_json e))) tr)))
   }"

definition main :: "process \<Rightarrow> env \<Rightarrow> history \<Rightarrow> (process_end \<times> history) option" where
  "main p E tr =
     (case parse_flags (pr_Args p) False of
        None \<Rightarrow> Some (Exit 2, tr)
      | Some v \<Rightarrow>
          if v then Some (Exit 0, snd (host_do E (WriteStdout (pr_VERSION p @ [CHR 0x0A])) tr))
          else PluginMain p E tr)"

end
