(* ===== verification/PluginProps.thy ===== *)
theory PluginProps
  imports Plugin Config EtcdLock
begin

text \<open>
  What the handlers guarantee: the configuration is only read, and a deletion with another
  address manager than etcd's changes nothing.
\<close>

subsection \<open>Reading the configuration\<close>

text \<open>
  A request that changes nothing but the log: looking for a file, reading one, reading etcd,
  and preparing the log's directory and file.
\<close>

definition is_read :: "event \<Rightarrow> bool" where
  "is_read e = (case e of
     EtcdEv (KeysGet _ _) _ \<Rightarrow> True
   | V3Ev _ _ \<Rightarrow> True
   | HostEv (Stat _) _ \<Rightarrow> True
   | HostEv (ReadFile _) _ \<Rightarrow> True
   | HostEv (Mkdir _) _ \<Rightarrow> True
   | HostEv (OpenLog _) _ \<Rightarrow> True
   | _ \<Rightarrow> False)"

definition only_reads :: "history \<Rightarrow> history \<Rightarrow> bool" where
  "only_reads tr tr' \<longleftrightarrow> (\<exists>evs. tr' = tr @ evs \<and> list_all is_read evs)"

lemma is_read_simps [simp]:
  "is_read (EtcdEv (KeysGet k b) a)" "is_read (V3Ev k x)"
  "is_read (HostEv (Stat f) h)" "is_read (HostEv (ReadFile f) h)"
  "is_read (HostEv (Mkdir f) h)" "is_read (HostEv (OpenLog f) h)"
  by (simp_all add: is_read_def)

lemma only_reads_append [simp]: "only_reads tr (tr @ evs) \<longleftrightarrow> list_all is_read evs"
  by (simp add: only_reads_def)

lemma only_reads_refl [simp]: "only_reads tr tr"
  by (simp add: only_reads_def)

lemma only_reads_trans [trans]: "only_reads a b \<Longrightarrow> only_reads b c \<Longrightarrow> only_reads a c"
  by (auto simp: only_reads_def)

lemma host_uuid_reads: "only_reads tr (snd (host_uuid E c tr))"
  by (auto simp: host_uuid_def read_host_uuid_def host_call_eq Let_def split: sum.splits)

lemma getEndpoint_reads: "only_reads tr (snd (getEndpoint E conf tr))"
  by (auto simp: getEndpoint_def Let_def split: option.splits sum.splits)

lemma default_routes_reads: "only_reads tr (snd (default_routes E c tr))"
  by (auto simp: default_routes_def etcd_call_eq split: option.splits sum.splits)

lemma SetLog_reads: "only_reads tr (snd (SetLog E c tr))"
  by (auto simp: SetLog_def host_call_eq Let_def split: sum.split)

lemma SetLog_type: "im_Type (op_IPAM (fst (SetLog E c tr))) = im_Type (op_IPAM c)"
  by (simp add: SetLog_def host_call_eq Let_def)

lemma Default_reads:
  assumes "Default E c tr = Some ((res, c'), tr')"
  shows "only_reads tr tr'"
proof (cases "ec_URLs (op_ETCDConf c) = []")
  case True
  with assms show ?thesis by (simp add: Default_def)
next
  case False
  show ?thesis
  proof (cases "\<exists>rc bc. default_cidr (op_MidoNetRouterCIDR c) 5 ''172.16.0.0/24'' = Some (Ok rc)
      \<and> default_cidr (op_MidoNetBridgeCIDR c) 4 ''192.168.0.0/24'' = Some (Ok bc)")
    case False
    with assms \<open>ec_URLs (op_ETCDConf c) \<noteq> []\<close> show ?thesis
      by (auto simp: Default_def split: bind_splits outcome.splits)
  next
    case True
    then obtain rc bc where r: "default_cidr (op_MidoNetRouterCIDR c) 5 ''172.16.0.0/24'' = Some (Ok rc)"
      "default_cidr (op_MidoNetBridgeCIDR c) 4 ''192.168.0.0/24'' = Some (Ok bc)" by blast
    let ?c = "c\<lparr>op_MidoNetRouterCIDR := rc, op_MidoNetBridgeCIDR := bc, op_MTU := (if op_MTU c = 0 then 1454 else op_MTU c)\<rparr>"
    obtain h t1 where h: "host_uuid E ?c tr = (h, t1)" by fastforce
    have 1: "only_reads tr t1" using host_uuid_reads [of tr E ?c] h by simp
    show ?thesis
    proof (cases h)
      case (Inl e)
      with assms \<open>ec_URLs (op_ETCDConf c) \<noteq> []\<close> r h have "tr' = t1" by (auto simp: Default_def Let_def split: option.splits)
      with 1 show ?thesis by simp
    next
      case (Inr c1)
      obtain es t2 where g: "getEndpoint E (op_ETCDConf c1) t1 = (es, t2)" by fastforce
      have 2: "only_reads t1 t2" using getEndpoint_reads [of t1 E "op_ETCDConf c1"] g by simp
      let ?c2 = "if es \<noteq> [] then c1\<lparr>op_MidoNetAPIConf := (op_MidoNetAPIConf c1)\<lparr>mc_URL := es\<rparr>\<rparr> else c1"
      obtain x t3 where d: "default_routes E ?c2 t2 = (x, t3)" by fastforce
      have 3: "only_reads t2 t3" using default_routes_reads [of t2 E ?c2] d by simp
      from assms \<open>ec_URLs (op_ETCDConf c) \<noteq> []\<close> r h Inr g d have "tr' = t3"
        by (cases x) (simp_all add: Default_def Let_def)
      with 1 2 3 show ?thesis by (blast intro: only_reads_trans)
    qed
  qed
qed

lemma Default_keeps_type:
  assumes "Default E c tr = Some ((res, c'), tr')" and "res \<noteq> Panic"
  shows "im_Type (op_IPAM c') = im_Type (op_IPAM c)"
proof (cases "ec_URLs (op_ETCDConf c) = []")
  case True
  with assms show ?thesis by (simp add: Default_def)
next
  case False
  from Default_cases [OF assms False] show ?thesis by (auto simp: same_networks_def)
qed

subsection \<open>Another address manager\<close>

lemma cmdDel_refuses:
  assumes "Options_Unmarshal (ca_StdinData args) = Some opts" and "im_Type (op_IPAM opts) \<noteq> ''etcd''"
    and "cmdDel E args tr = Some (res, tr')"
  shows "(\<forall>u. res \<noteq> Ok u) \<and> only_reads tr tr'"
proof -
  from assms(1,3) obtain err o' t1 where d: "Default E opts tr = Some ((err, o'), t1)"
    by (cases "Default E opts tr") (auto simp: cmdDel_def)
  from Default_reads [OF d] have r: "only_reads tr t1" .
  show ?thesis
  proof (cases "err = Panic")
    case True
    with assms(1,3) d r show ?thesis by (simp add: cmdDel_def)
  next
    case False
    obtain o2 t2 where l: "SetLog E o' t1 = (o2, t2)" by fastforce
    from r have "only_reads tr t2" using SetLog_reads [of t1 E o'] l by (auto intro: only_reads_trans)
    moreover from Default_keeps_type [OF d False] assms(2) SetLog_type [of E o' t1] l
    have "im_Type (op_IPAM o2) \<noteq> ''etcd''" by simp
    ultimately show ?thesis using assms(1,3) d False l by (cases err) (auto simp: cmdDel_def CmdDelK8s_def)
  qed
qed

text \<open>
  C31: the type of the address manager, which \<open>CmdAddK8s\<close> does not look at, decides whether
  anything is ever taken back. When it is not \<open>etcd\<close>, \<open>cmdDel\<close> never succeeds and only reads and
  opens its log; when \<open>cmdAdd\<close> has failed and undoes what it did, that sets \<open>CNI_COMMAND\<close>, reads,
  opens the log,
  and the error is the one of the addition, whatever the addition had created or taken.
\<close>

theorem cmdDel_other_ipam:
  assumes "Options_Unmarshal (ca_StdinData args) = Some opts" and "im_Type (op_IPAM opts) \<noteq> ''etcd''"
  shows "(\<forall>res tr'. cmdDel E args tr = Some (res, tr') \<longrightarrow>
      (\<forall>u. res \<noteq> Ok u) \<and> (\<exists>evs. tr' = tr @ evs \<and> list_all is_read evs))
    \<and> (\<forall>err res tr'. undo_add E args err tr = Some (res, tr') \<longrightarrow>
      (res = Err err \<or> res = Panic) \<and>
      (\<exists>a evs. tr' = tr @ HostEv (Setenv ''CNI_COMMAND'' ''DEL'') a # evs \<and> list_all is_read evs))"
proof (intro conjI allI impI, goal_cases)
  case (1 res tr' u)
  with cmdDel_refuses [OF assms] show ?case by blast
next
  case (2 res tr')
  with cmdDel_refuses [OF assms] show ?case by (simp add: only_reads_def)
next
  case (3 err res tr')
  then show ?case by (auto simp: undo_add_def split: prod.splits option.splits outcome.splits bind_splits)
next
  case (4 err res tr')
  let ?q = "Setenv ''CNI_COMMAND'' ''DEL''"
  have h: "host_do E ?q tr = (case host_srv E tr ?q of Inl e \<Rightarrow> Some e | Inr _ \<Rightarrow> None, tr @ [HostEv ?q (host_srv E tr ?q)])"
    by (simp add: host_do_def host_call_eq)
  show ?case
  proof (cases "host_srv E tr ?q")
    case (Inl e)
    with 4 h show ?thesis by (auto simp: undo_add_def)
  next
    case (Inr a)
    with 4 h obtain x where "cmdDel E args (tr @ [HostEv ?q (Inr a)]) = Some (x, tr')"
      by (auto simp: undo_add_def split: bind_splits)
    from cmdDel_refuses [OF assms this] show ?thesis by (auto simp: only_reads_def)
  qed
qed

text \<open>A configuration that names another address manager.\<close>

definition region_args :: CmdArgs where
  "region_args = \<lparr>ca_ContainerID = ''0123456789abcdef'', ca_Netns = ''/proc/42/ns/net'', ca_IfName = ''eth0'',
     ca_Args = ''K8S_POD_NAMESPACE=t1;K8S_POD_INFRA_CONTAINER_ID=c1'', ca_Path = ''/opt/cni/bin'',
     ca_StdinData = show_json (JObj [(''ipam'', JObj [(''type'', js ''region'')])])\<rparr>"

lemma region_args_options:
  "Options_Unmarshal (ca_StdinData region_args) = Some (Options_zero\<lparr>op_IPAM := (op_IPAM Options_zero)\<lparr>im_Type := ''region''\<rparr>\<rparr>)"
proof -
  have wf: "wf_json (JObj [(''ipam'', JObj [(''type'', js ''region'')])])" by (simp add: key_escape esc_char_def)
  show ?thesis
    unfolding Options_Unmarshal_def region_args_def CmdArgs.simps Unmarshal_show [OF wf] by code_simp
qed

definition ready_host :: env where
  "ready_host = silent_env\<lparr>host_srv := \<lambda>_ _. Inr []\<rparr>"

lemma region_args_run:
  "\<exists>tr'. cmdDel ready_host region_args tr = Some (Err (ErrorString ''ipam type only support etcd''), tr')"
  by (simp add: cmdDel_def region_args_options Default_def CmdDelK8s_def Options_zero_def SetLog_def host_call_eq Let_def)

theorem cmdDel_other_ipam_witness:
  "\<exists>tr1 evs1 tr2 a evs2. cmdDel ready_host region_args [] = Some (Err (ErrorString ''ipam type only support etcd''), tr1)
    \<and> tr1 = [] @ evs1 \<and> list_all is_read evs1
    \<and> undo_add ready_host region_args (ErrorString ''no address'') [] = Some (Err (ErrorString ''no address''), tr2)
    \<and> tr2 = [] @ HostEv (Setenv ''CNI_COMMAND'' ''DEL'') a # evs2 \<and> list_all is_read evs2"
proof -
  have type: "im_Type (op_IPAM (Options_zero\<lparr>op_IPAM := (op_IPAM Options_zero)\<lparr>im_Type := ''region''\<rparr>\<rparr>)) \<noteq> ''etcd''" by simp
  have host: "host_srv ready_host = (\<lambda>_ _. Inr [])" by (simp add: ready_host_def)
  let ?t = "[HostEv (Setenv ''CNI_COMMAND'' ''DEL'') (Inr [])]"
  obtain tr1 tr2 where 1: "cmdDel ready_host region_args [] = Some (Err (ErrorString ''ipam type only support etcd''), tr1)"
    and 2: "cmdDel ready_host region_args ?t = Some (Err (ErrorString ''ipam type only support etcd''), tr2)"
    using region_args_run by blast
  from 2 host have "undo_add ready_host region_args (ErrorString ''no address'') [] = Some (Err (ErrorString ''no address''), tr2)"
    by (simp add: undo_add_def host_do_def host_call_eq)
  with cmdDel_other_ipam [OF region_args_options type, of ready_host "[]"] 1 show ?thesis by blast
qed

end
