(* ===== verification/CommandLineProps.thy ===== *)
theory CommandLineProps
  imports CommandLine PluginProps K8sProps
begin

text \<open>
  What a caller of the plugin sees: the exit status and what is written to the standard output.
\<close>

subsection \<open>What the handlers print\<close>

text \<open>What a deletion prints, an empty result.\<close>

definition deleted_text :: string where
  "deleted_text = show_indent 0 (JObj [(''dns'', JObj [])])"

lemma CmdDelK8s_result: "CmdDelK8s E args opts tr = Some (Ok r, tr') \<Longrightarrow> r = Result_zero"
  by (auto simp: CmdDelK8s_def del_container_def del_done_def
      split: if_splits outcome.splits option.splits prod.splits sum.splits bind_splits)

lemma Result_Print_Ok:
  assumes "Result_Print E r tr = (Ok u, tr')"
  obtains v a where "Result_json r = Some v" "tr' = tr @ [HostEv (WriteStdout (show_indent 0 v)) (Inr a)]"
  using assms by (auto simp: Result_Print_def host_do_def host_call_eq split: option.splits sum.splits)

lemma cmdDel_prints:
  assumes "cmdDel E args tr = Some (Ok u, tr')"
  obtains t a where "tr' = t @ [HostEv (WriteStdout deleted_text) (Inr a)]"
proof -
  from assms obtain r t where r: "\<exists>opts t0. CmdDelK8s E args opts t0 = Some (Ok r, t)" "Result_Print E r t = (Ok u, tr')"
    by (auto simp: cmdDel_def split: option.splits bind_splits outcome.splits prod.splits)
  then have "r = Result_zero" using CmdDelK8s_result by blast
  moreover have "Result_json Result_zero = Some (JObj [(''dns'', JObj [])])" by code_simp
  ultimately show thesis using r(2) that by (auto elim!: Result_Print_Ok simp: deleted_text_def)
qed

text \<open>A JSON text that follows an empty result makes it no JSON text.\<close>

lemma json_parse_two: "json_parse (deleted_text @ CHR ''{'' # rest) = None"
proof -
  let ?s = "deleted_text @ CHR ''{'' # rest"
  have s: "?s = ''{'' @ CHR 0x0A # ''    '' @ CHR 0x22 # ''dns'' @ CHR 0x22 # '': {}'' @ CHR 0x0A # ''}{'' @ rest"
    unfolding deleted_text_def by code_simp
  have "length ?s = 18 + length rest" unfolding s by simp
  then have "Suc (2 * length ?s) = Suc (Suc (Suc (Suc (33 + 2 * length rest))))" by simp
  then obtain n where n: "Suc (2 * length ?s) = Suc (Suc (Suc (Suc n)))" by blast
  show ?thesis unfolding json_parse_def n unfolding s
    by (simp add: skip_ws_def is_ws_def scan_str_plain)
qed

lemma cni_error_text: "\<exists>rest. show_indent 0 (cni_error_json e) = CHR ''{'' # rest"
  by (simp add: cni_error_json_def)

subsection \<open>The call of a handler\<close>

lemma main_calls:
  assumes "parse_flags (pr_Args p) False = Some False" and "getCmdArgsFromEnv p = Inr (cmd, args)"
    and "decode_version (ca_StdinData args) = Inr v" and "v \<in> set legacy_versions" and "cmd = ''ADD''"
  shows "main p E tr = (case cmdAdd E args tr of
     None \<Rightarrow> None
   | Some (Ok _, tr') \<Rightarrow> Some (Exit 0, tr')
   | Some (Err e, tr') \<Rightarrow>
       Some (Exit 1, snd (host_do E (WriteStdout (show_indent 0 (cni_error_json (createTypedError p (error_text e))))) tr'))
   | Some (Panic, tr') \<Rightarrow> Some (Crash, tr'))"
  using assms
  by (auto simp: main_def PluginMain_def pluginMain_def checkVersionAndCall_def check_version_def wrap_error_def
      split: option.splits outcome.splits bind_splits)

lemma add_fails:
  assumes "Options_Unmarshal (ca_StdinData args) = Some opts" and "Default E opts tr = Some ((Ok (), opts1), t1)"
    and "SetLog E opts1 t1 = (opts2, t2)" and "CmdAddK8s E args opts2 t2 = Some (Err e, t3)"
  shows "cmdAdd E args tr = undo_add E args e t3"
  using assms by (simp add: cmdAdd_def)

lemma undo_add_works:
  assumes "host_srv E tr (Setenv ''CNI_COMMAND'' ''DEL'') = Inr x"
    and "cmdDel E args (tr @ [HostEv (Setenv ''CNI_COMMAND'' ''DEL'') (Inr x)]) = Some (Ok (), t)"
  shows "undo_add E args e tr = Some (Err e, t)"
  using assms by (simp add: undo_add_def host_do_def host_call_eq)

subsection \<open>Properties\<close>

text \<open>
  C16: a failed addition that could be undone prints two results. The deletion that undoes it
  prints its own, empty result, and then the error of the addition is printed after it and the status is 1: the two
  last things the process does are the two writes, and what they write together is no
  JSON text, so the caller, who is to read the error from the standard output, cannot.
\<close>

theorem failed_add_prints_two:
  assumes "parse_flags (pr_Args p) False = Some False" and "getCmdArgsFromEnv p = Inr (''ADD'', args)"
    and "decode_version (ca_StdinData args) = Inr v" and "v \<in> set legacy_versions"
    and "Options_Unmarshal (ca_StdinData args) = Some opts" and "Default E opts tr = Some ((Ok (), opts1), t1)"
    and "SetLog E opts1 t1 = (opts2, t2)" and "CmdAddK8s E args opts2 t2 = Some (Err e, t3)"
    and "host_srv E t3 (Setenv ''CNI_COMMAND'' ''DEL'') = Inr x"
    and "cmdDel E args (t3 @ [HostEv (Setenv ''CNI_COMMAND'' ''DEL'') (Inr x)]) = Some (Ok (), t4)"
  shows "\<exists>t a b text. text = show_indent 0 (cni_error_json (createTypedError p (error_text e)))
    \<and> main p E tr = Some (Exit 1, t @ [HostEv (WriteStdout deleted_text) a, HostEv (WriteStdout text) b])
    \<and> json_parse (deleted_text @ text) = None"
proof -
  let ?e = "createTypedError p (error_text e)"
  have "cmdAdd E args tr = Some (Err e, t4)" using add_fails [OF assms(5-8)] undo_add_works [OF assms(9,10)] by simp
  with main_calls [OF assms(1-4) refl] have
    m: "main p E tr = Some (Exit 1, snd (host_do E (WriteStdout (show_indent 0 (cni_error_json ?e))) t4))" by simp
  obtain t a where "t4 = t @ [HostEv (WriteStdout deleted_text) (Inr a)]" by (rule cmdDel_prints [OF assms(10)])
  moreover obtain rest where "show_indent 0 (cni_error_json ?e) = CHR ''{'' # rest" using cni_error_text by blast
  ultimately show ?thesis using m json_parse_two [of rest] by (simp add: host_do_def host_call_eq)
qed

text \<open>
  C17: how an addition ends. The status is 0 only after a successful \<open>CmdAddK8s\<close>, right
  after which its whole result was written; it is 1 when an error was written last, whatever came of that write; and
  there is no other end but a panic.
\<close>

theorem main_add_ends:
  assumes "parse_flags (pr_Args p) False = Some False" and "getCmdArgsFromEnv p = Inr (''ADD'', args)"
    and "decode_version (ca_StdinData args) = Inr v" and "v \<in> set legacy_versions" and "main p E tr = Some (st, tr')"
  shows "st = Crash
    \<or> st = Exit 0 \<and> (\<exists>opts u r t j a. CmdAddK8s E args opts u = Some (Ok r, t) \<and> Result_json r = Some j
        \<and> tr' = t @ [HostEv (WriteStdout (show_indent 0 j)) (Inr a)])
    \<or> st = Exit 1 \<and> (\<exists>e t a. tr' = t @ [HostEv (WriteStdout (show_indent 0 (cni_error_json (createTypedError p (error_text e))))) a])"
proof -
  from assms(5) obtain r t where c: "cmdAdd E args tr = Some (r, t)"
    unfolding main_calls [OF assms(1-4) refl] by (auto split: option.splits)
  show ?thesis
  proof (cases r)
    case (Ok u)
    with assms(5) c have e: "st = Exit 0" "tr' = t" unfolding main_calls [OF assms(1-4) refl] by simp_all
    from c Ok obtain opts w r t0 where "CmdAddK8s E args opts w = Some (Ok r, t0)" "Result_Print E r t0 = (Ok u, t)"
      by (auto simp: cmdAdd_def undo_add_def split: option.splits bind_splits outcome.splits prod.splits)
    with e show ?thesis by (fastforce elim!: Result_Print_Ok)
  next
    case (Err e)
    with assms(5) c show ?thesis unfolding main_calls [OF assms(1-4) refl] by (auto simp: host_do_def host_call_eq)
  next
    case Panic
    with assms(5) c show ?thesis unfolding main_calls [OF assms(1-4) refl] by simp
  qed
qed

subsection \<open>On a concrete host\<close>

text \<open>A plugin called to add a container while the MidoNet API refuses connections.\<close>

definition refusing_env :: env where
  "refusing_env = pool_env\<lparr>host_srv := \<lambda>_ _. Inr []\<rparr>"

definition plain_json :: json where
  "plain_json = JObj [(''midonet_host_uuid'', js ''h''), (''etcd_conf'', JObj [(''urls'', JArr [js ''http://e:2379''])]),
     (''ipam'', JObj [(''type'', js ''etcd''), (''route'', JArr [JObj [(''net'', js ''10.1.0.0''), (''netmask'', js ''255.255.0.0''), (''gw'', js ''10.0.0.1'')]])])]"

definition add_process :: process where
  "add_process = \<lparr>pr_Args = [],
     pr_Getenv = (\<lambda>v. if v = ''CNI_COMMAND'' then ''ADD'' else if v = ''CNI_CONTAINERID'' then ca_ContainerID sample_args
       else if v = ''CNI_NETNS'' then ca_Netns sample_args else if v = ''CNI_ARGS'' then ca_Args sample_args
       else if v = ''CNI_IFNAME'' then ca_IfName sample_args else if v = ''CNI_PATH'' then ca_Path sample_args else []),
     pr_Stdin = Inr (show_json plain_json), pr_VERSION = ''v1'', pr_Sprintf = (\<lambda>s. s), pr_Quote = quoted\<rparr>"

definition add_args :: CmdArgs where
  "add_args = sample_args\<lparr>ca_StdinData := show_json plain_json\<rparr>"

lemma plain_json_wf: "wf_json plain_json"
  by (simp add: plain_json_def key_escape esc_char_def)

definition refused_options :: Options where
  "refused_options = the (set_struct Options_fields plain_json Options_zero)"

lemma refused_unmarshal: "Options_Unmarshal (show_json plain_json) = Some refused_options"
proof -
  have "set_struct Options_fields plain_json Options_zero \<noteq> None" unfolding plain_json_def by code_simp
  then show ?thesis unfolding Options_Unmarshal_def refused_options_def Unmarshal_show [OF plain_json_wf] by auto
qed

lemma refused_version: "decode_version (show_json plain_json) = Inr ''0.1.0''"
  unfolding decode_version_def Unmarshal_show [OF plain_json_wf] plain_json_def by code_simp

lemma add_process_args: "getCmdArgsFromEnv add_process = Inr (''ADD'', add_args)"
  by (simp add: getCmdArgsFromEnv_def cmd_vars_def add_process_def add_args_def sample_args_def Let_def)

lemma refused_fields: "ec_URLs (op_ETCDConf refused_options) = [''http://e:2379'']" "op_MidoNetRouterCIDR refused_options = []"
  "op_MidoNetBridgeCIDR refused_options = []" "op_MidoNetHostUUID refused_options = ''h''" "im_Route (op_IPAM refused_options) \<noteq> []"
  "im_Type (op_IPAM refused_options) = ''etcd''"
  unfolding refused_options_def plain_json_def by code_simp+

lemma refusing_services: "etcd_new refusing_env = (\<lambda>_. None)" "host_srv refusing_env = (\<lambda>_ _. Inr [])"
  "mido_srv refusing_env = (\<lambda>_ _. Inl (OtherError ''connection refused''))" "v3_new refusing_env = (\<lambda>_. None)"
  "v3_srv refusing_env = (\<lambda>_ _. Inl (OtherError ''connection refused''))"
  "etcd_srv refusing_env u (KeysGet k False) = Inl (EtcdError 100 ''Key not found'')"
  by (simp_all add: refusing_env_def pool_env_def silent_env_def)

lemma refused_default:
  obtains opts t where "Default refusing_env refused_options tr = Some ((Ok (), opts), t)" "im_Type (op_IPAM opts) = ''etcd''"
proof -
  have "\<exists>opts t. Default refusing_env refused_options tr = Some ((Ok (), opts), t)"
    using refused_fields
    by (simp add: Default_def default_cidr_def host_uuid_def getEndpoint_def CreateETCDV3Client_def default_routes_def refusing_services Let_def)
  then show thesis using Default_keeps_type refused_fields(6) that by fastforce
qed

lemma refused_CmdAddK8s: "\<exists>e t. CmdAddK8s refusing_env add_args opts tr = Some (Err e, t)"
  using sample_LoadArgs
  by (simp add: CmdAddK8s_def add_args_def CreateETCDClient_def refusing_services last_result_def etcd_call_eq add_container_def
      NewManager_def NewClient_def login_def mido_call_eq Let_def)

lemma refused_CmdDelK8s: "im_Type (op_IPAM opts) = ''etcd'' \<Longrightarrow> \<exists>t. CmdDelK8s refusing_env add_args opts tr = Some (Ok Result_zero, t)"
  using sample_LoadArgs
  by (simp add: CmdDelK8s_def add_args_def CreateETCDClient_def refusing_services del_container_def etcd_call_eq del_done_def)

lemma refused_cmdDel: "\<exists>t. cmdDel refusing_env add_args tr = Some (Ok (), t)"
proof -
  obtain opts t where d: "Default refusing_env refused_options tr = Some ((Ok (), opts), t)" "im_Type (op_IPAM opts) = ''etcd''"
    by (rule refused_default)
  obtain o2 t2 where l: "SetLog refusing_env opts t = (o2, t2)" by fastforce
  with SetLog_type [of refusing_env opts t] d(2) have "im_Type (op_IPAM o2) = ''etcd''" by simp
  from refused_CmdDelK8s [OF this] obtain t3 where "CmdDelK8s refusing_env add_args o2 t2 = Some (Ok Result_zero, t3)" by blast
  moreover have "Result_json Result_zero = Some (JObj [(''dns'', JObj [])])" by code_simp
  moreover have "ca_StdinData add_args = show_json plain_json" by (simp add: add_args_def)
  ultimately show ?thesis
    using d(1) l by (simp add: cmdDel_def refused_unmarshal Result_Print_def host_do_def host_call_eq refusing_services)
qed

lemma add_process_flags: "parse_flags (pr_Args add_process) False = Some False"
  by (simp add: add_process_def)

lemma add_process_version: "decode_version (ca_StdinData add_args) = Inr ''0.1.0''" "''0.1.0'' \<in> set legacy_versions"
  by (simp_all add: add_args_def refused_version legacy_versions_def)

text \<open>The addition that fails, and its deletion.\<close>

lemma refused_addition:
  obtains opts1 t1 opts2 t2 e t3 t4 where "Options_Unmarshal (ca_StdinData add_args) = Some refused_options"
    "Default refusing_env refused_options tr = Some ((Ok (), opts1), t1)" "SetLog refusing_env opts1 t1 = (opts2, t2)"
    "CmdAddK8s refusing_env add_args opts2 t2 = Some (Err e, t3)" "host_srv refusing_env t3 (Setenv ''CNI_COMMAND'' ''DEL'') = Inr []"
    "cmdDel refusing_env add_args (t3 @ [HostEv (Setenv ''CNI_COMMAND'' ''DEL'') (Inr [])]) = Some (Ok (), t4)"
proof -
  obtain opts1 t1 where d: "Default refusing_env refused_options tr = Some ((Ok (), opts1), t1)" by (rule refused_default)
  obtain opts2 t2 where l: "SetLog refusing_env opts1 t1 = (opts2, t2)" by fastforce
  obtain e t3 where a: "CmdAddK8s refusing_env add_args opts2 t2 = Some (Err e, t3)" using refused_CmdAddK8s by blast
  obtain t4 where c: "cmdDel refusing_env add_args (t3 @ [HostEv (Setenv ''CNI_COMMAND'' ''DEL'') (Inr [])]) = Some (Ok (), t4)"
    using refused_cmdDel by blast
  from that [OF _ d l a _ c] show thesis by (simp add: add_args_def refused_unmarshal refusing_services)
qed

theorem failed_add_prints_two_witness:
  "\<exists>t a b e text. text = show_indent 0 (cni_error_json (createTypedError add_process (error_text e)))
    \<and> main add_process refusing_env [] = Some (Exit 1, t @ [HostEv (WriteStdout deleted_text) a, HostEv (WriteStdout text) b])
    \<and> json_parse (deleted_text @ text) = None"
proof -
  obtain opts1 t1 opts2 t2 e t3 t4 where o: "Options_Unmarshal (ca_StdinData add_args) = Some refused_options"
    and d: "Default refusing_env refused_options [] = Some ((Ok (), opts1), t1)"
    and l: "SetLog refusing_env opts1 t1 = (opts2, t2)" and a: "CmdAddK8s refusing_env add_args opts2 t2 = Some (Err e, t3)"
    and h: "host_srv refusing_env t3 (Setenv ''CNI_COMMAND'' ''DEL'') = Inr []"
    and c: "cmdDel refusing_env add_args (t3 @ [HostEv (Setenv ''CNI_COMMAND'' ''DEL'') (Inr [])]) = Some (Ok (), t4)"
    by (rule refused_addition)
  from failed_add_prints_two [OF add_process_flags add_process_args add_process_version o d l a h c] show ?thesis by blast
qed

theorem main_add_ends_witness:
  "\<exists>st tr'. main add_process refusing_env [] = Some (st, tr') \<and> (st = Crash
    \<or> st = Exit 0 \<and> (\<exists>opts u r t j a. CmdAddK8s refusing_env add_args opts u = Some (Ok r, t) \<and> Result_json r = Some j
        \<and> tr' = t @ [HostEv (WriteStdout (show_indent 0 j)) (Inr a)])
    \<or> st = Exit 1 \<and> (\<exists>e t a. tr' = t @ [HostEv (WriteStdout (show_indent 0 (cni_error_json (createTypedError add_process (error_text e))))) a]))"
proof -
  obtain opts1 t1 opts2 t2 e t3 t4 where o: "Options_Unmarshal (ca_StdinData add_args) = Some refused_options"
    and d: "Default refusing_env refused_options [] = Some ((Ok (), opts1), t1)"
    and l: "SetLog refusing_env opts1 t1 = (opts2, t2)" and a: "CmdAddK8s refusing_env add_args opts2 t2 = Some (Err e, t3)"
    and h: "host_srv refusing_env t3 (Setenv ''CNI_COMMAND'' ''DEL'') = Inr []"
    and c: "cmdDel refusing_env add_args (t3 @ [HostEv (Setenv ''CNI_COMMAND'' ''DEL'') (Inr [])]) = Some (Ok (), t4)"
    by (rule refused_addition)
  have "cmdAdd refusing_env add_args [] = Some (Err e, t4)"
    using add_fails [OF o d l a] undo_add_works [OF h c] by simp
  then have "\<exists>st tr'. main add_process refusing_env [] = Some (st, tr')"
    by (simp add: main_calls [OF add_process_flags add_process_args add_process_version refl])
  then obtain st tr' where run: "main add_process refusing_env [] = Some (st, tr')" by blast
  from main_add_ends [OF add_process_flags add_process_args add_process_version run] run show ?thesis by blast
qed

end
