(* ===== verification/Region.thy ===== *)
theory Region
  imports Records EtcdLock
begin

text \<open>
  \<open>pkg/ipam/region.go\<close>: asking the region's API for an address, which the commands do not use
  at present. Two parts of Go's library are parameters: \<open>new_request\<close>, the error of
  \<open>http.NewRequest\<close> on an address, and \<open>num\<close>, what \<open>strconv.Itoa\<close> prints for the \<open>float64\<close> a
  number literal is decoded to and then converted to \<open>int\<close> (\<open>None\<close> when it is out of range).

  All attempts send the same request value, whose body is made once.
\<close>

record RegionAPI =
  ra_ReginNetAPI :: string
  ra_Token :: string

record ReginNewIP =
  rn_HostID :: string
  rn_CtnID :: string
  rn_ReplicaID :: string
  rn_DeployVersion :: string
  rn_PodName :: string

definition ReginNewIP_json :: "ReginNewIP \<Rightarrow> json" where
  "ReginNewIP_json r = JObj [(''host_id'', js (rn_HostID r)), (''ctn_id'', js (rn_CtnID r)),
     (''replica_id'', js (rn_ReplicaID r)), (''deploy_version'', js (rn_DeployVersion r)),
     (''pod_name'', js (rn_PodName r))]"

text \<open>
  \<open>parseJSON\<close>: the members of an object that are texts or numbers. \<open>Unmarshal\<close> into a map
  gives the last of several equal keys; its error is not looked at, so a text that is no
  JSON object gives the empty map.
\<close>

fun json_members :: "(string \<Rightarrow> string option) \<Rightarrow> (string \<times> json) list \<Rightarrow> (string \<rightharpoonup> string option) \<Rightarrow> (string \<rightharpoonup> string option)" where
  "json_members num [] m = m"
| "json_members num ((k, v) # kvs) m =
     json_members num kvs
       (case unquote k of
          None \<Rightarrow> m
        | Some k \<Rightarrow> m(k \<mapsto> (case v of JStr raw \<Rightarrow> unquote raw | JNum t \<Rightarrow> num t | _ \<Rightarrow> None)))"

definition parseJSON :: "(string \<Rightarrow> string option) \<Rightarrow> string \<Rightarrow> string \<rightharpoonup> string" where
  "parseJSON num body =
     (case json_parse body of
        Some (JObj kvs) \<Rightarrow> (\<lambda>k. Option.bind (json_members num kvs Map.empty k) id)
      | _ \<Rightarrow> Map.empty)"

text \<open>
  The loop of \<open>GetNewIP\<close>, with the number of failed attempts: \<open>err\<close> is the error of the last
  one, nil when it was answered with another status than 201.
\<close>

function attempts ::
    "env \<Rightarrow> (string \<Rightarrow> string option) \<Rightarrow> region_req \<Rightarrow> nat \<Rightarrow> history \<Rightarrow> (go_error + string) \<times> history" where
  "attempts E num req errSize tr =
     (case region_call E req tr of (res, tr) \<Rightarrow>
        case res of
          Inl err \<Rightarrow> if errSize < 3 then attempts E num req (Suc errSize) tr else (Inl err, tr)
        | Inr (status, body) \<Rightarrow>
            if status \<noteq> 201 then
              (if errSize < 3 then attempts E num req (Suc errSize) tr else (Inr [], tr))
            else
              (case body of
                 Inl err \<Rightarrow> (Inl err, tr)
               | Inr text \<Rightarrow> (Inr (case parseJSON num text ''ip'' of None \<Rightarrow> [] | Some ip \<Rightarrow> ip), tr)))"
  by pat_completeness auto
termination
  by (relation "measure (\<lambda>(E, num, req, errSize, tr). 3 - errSize)") auto

declare attempts.simps [simp del]

definition region_GetNewIP ::
    "env \<Rightarrow> (string \<Rightarrow> go_error option) \<Rightarrow> (string \<Rightarrow> string option) \<Rightarrow> RegionAPI \<Rightarrow> ReginNewIP \<Rightarrow> string \<Rightarrow> history
     \<Rightarrow> (go_error + string) \<times> history" where
  "region_GetNewIP E new_request num r info namespace tr =
     (let url = ra_ReginNetAPI r @ ''midolnet/'' @ namespace @ ''/bindings''
      in case new_request url of
           Some err \<Rightarrow> (Inl err, tr)
         | None \<Rightarrow> attempts E num (url, ''Token '' @ ra_Token r, show_json (ReginNewIP_json info)) 0 tr)"

subsection \<open>At most four attempts\<close>

definition refused :: "region_answer \<Rightarrow> bool" where
  "refused a \<longleftrightarrow> (case a of Inl _ \<Rightarrow> True | Inr (status, _) \<Rightarrow> status \<noteq> 201)"

text \<open>What \<open>GetNewIP\<close> returns when the last attempt was answered so.\<close>

definition reply :: "(string \<Rightarrow> string option) \<Rightarrow> region_answer \<Rightarrow> go_error + string" where
  "reply num a =
     (case a of
        Inl err \<Rightarrow> Inl err
      | Inr (status, body) \<Rightarrow>
          if status \<noteq> 201 then Inr []
          else (case body of
                  Inl err \<Rightarrow> Inl err
                | Inr text \<Rightarrow> Inr (case parseJSON num text ''ip'' of None \<Rightarrow> [] | Some ip \<Rightarrow> ip)))"

lemma attempts_turn:
  "attempts E num req n tr =
     (let a = region_srv E tr req; t = tr @ [RegionEv req a]
      in if refused a \<and> n < 3 then attempts E num req (Suc n) t else (reply num a, t))"
  by (subst attempts.simps) (auto simp: region_call_eq refused_def reply_def Let_def split: sum.splits)

lemma attempts_events:
  "attempts E num req n tr = (r, tr') \<Longrightarrow> n \<le> 3 \<Longrightarrow>
   \<exists>bad a. tr' = tr @ List.map (RegionEv req) (bad @ [a]) \<and> list_all refused bad \<and> r = reply num a
     \<and> length bad \<le> 3 - n \<and> (refused a \<longrightarrow> length bad = 3 - n)"
proof (induction "3 - n" arbitrary: n tr)
  case 0
  then show ?case
    by (intro exI [of _ "[]"] exI [of _ "region_srv E tr req"]) (simp add: attempts_turn [of E num req 3] Let_def)
next
  case (Suc k)
  let ?a = "region_srv E tr req"
  show ?case
  proof (cases "refused ?a")
    case True
    from Suc.hyps(2) have "n < 3" by simp
    with True Suc.prems have "attempts E num req (Suc n) (tr @ [RegionEv req ?a]) = (r, tr')"
      by (simp add: attempts_turn [of E num req n tr] Let_def)
    moreover from Suc.hyps(2) have "k = 3 - Suc n" "Suc n \<le> 3" by simp_all
    ultimately obtain bad a where
      "tr' = (tr @ [RegionEv req ?a]) @ List.map (RegionEv req) (bad @ [a])" "list_all refused bad" "r = reply num a"
      "length bad \<le> 3 - Suc n" "refused a \<longrightarrow> length bad = 3 - Suc n" using Suc.hyps(1) by blast
    with True Suc.hyps(2) show ?thesis by (intro exI [of _ "?a # bad"] exI [of _ a]) auto
  next
    case False
    with Suc.prems show ?thesis
      by (intro exI [of _ "[]"] exI [of _ ?a]) (simp add: attempts_turn [of E num req n tr] Let_def)
  qed
qed

lemma parseJSON_ip: "parseJSON num (show_json (JObj [(''ip'', js s)])) ''ip'' = Some s"
proof -
  have "wf_json (JObj [(''ip'', js s)])" by (simp add: key_escape esc_char_def)
  from json_parse_show [OF this] show ?thesis by (simp add: parseJSON_def js_def del: show_json.simps)
qed


text \<open>A service that is busy twice, then gives an address.\<close>

definition busy_region :: env where
  "busy_region = silent_env\<lparr>region_srv := \<lambda>tr _. if length tr < 2 then Inr (503, Inr []) else Inr (201, Inr (show_json (JObj [(''ip'', js ''10.0.0.7'')])))\<rparr>"


end
