(* ===== verification/MutexSteps.thy ===== *)
theory MutexSteps
  imports EtcdLock Transition
begin

text \<open>
  Several processes on one mutex. \<open>advance\<close> is the control flow of \<open>Lock\<close> and \<open>Unlock\<close>
  as an automaton over the requests they make and the answers they get; that it is theirs is
  proved (\<open>Lock_follows_automaton\<close>). The system runs any number of these automata
  against one etcd key that etcd creates, deletes and expires atomically, and whose watchers
  it tells of every deletion after the index they start from.
\<close>

subsection \<open>The control flow of one process\<close>

text \<open>
  \<open>Trying n\<close>: about to create the key, with \<open>n\<close> attempts left, this one included.
  \<open>Releasing n\<close>: about to delete it again, with \<open>n\<close> attempts left.
\<close>

datatype pc = Idle | Trying nat | Getting nat | Watching nat | Holding | Releasing nat

text \<open>After a failed attempt. \<open>Lock\<close> returns nil when the last one fails.\<close>

definition failed :: "nat \<Rightarrow> pc" where
  "failed n = (if n \<le> 1 then Holding else Trying (n - 1))"

fun advance :: "pc \<Rightarrow> etcd_req \<Rightarrow> etcd_answer \<Rightarrow> pc" where
  "advance (Trying n) (KeysSet k v _ _) a =
     (case a of Inr _ \<Rightarrow> Holding
      | Inl e \<Rightarrow> if client_error_code e = Some ErrorCodeNodeExist then Getting n else failed n)"
| "advance (Getting n) (KeysGet k _) a = (case a of Inr _ \<Rightarrow> Watching n | Inl e \<Rightarrow> failed n)"
| "advance (Watching n) (WatchNext k i) a =
     (case a of Inl e \<Rightarrow> failed n | Inr r \<Rightarrow> if is_gone r then Holding else Watching n)"
| "advance Holding (KeysDelete k _ _) a =
     (case a of Inr _ \<Rightarrow> Idle | Inl e \<Rightarrow> if IsKeyNotFound e then Idle else Releasing (defaultTry - 1))"
| "advance (Releasing n) (KeysDelete k _ _) a =
     (case a of Inr _ \<Rightarrow> Idle
      | Inl e \<Rightarrow> if IsKeyNotFound e then Idle else if n \<le> 1 then Idle else Releasing (n - 1))"
| "advance p _ _ = p"

definition run_pc :: "pc \<Rightarrow> event list \<Rightarrow> pc" where
  "run_pc p evs = fold (\<lambda>e p. case e of EtcdEv r a \<Rightarrow> advance p r a | _ \<Rightarrow> p) evs p"

lemma run_pc_simps [simp]:
  "run_pc p [] = p"
  "run_pc p (EtcdEv r a # evs) = run_pc (advance p r a) evs"
  "run_pc p (evs @ evs') = run_pc (run_pc p evs) evs'"
  by (simp_all add: run_pc_def)

subsection \<open>It is the control flow of the code\<close>

lemma watch_loop_pc:
  "watch_loop E key idx tr = Some (r, tr') \<Longrightarrow>
   \<exists>ws. tr' = tr @ ws \<and> run_pc (Watching n) ws = (if r = None then Holding else failed n)"
proof (induction rule: watch_loop_induct)
  case (on tr a r tr')
  then obtain ws where "tr' = (tr @ [EtcdEv (WatchNext key idx) (Inr a)]) @ ws"
    "run_pc (Watching n) ws = (if r = None then Holding else failed n)" by blast
  with on(2) show ?case by (intro exI [of _ "EtcdEv (WatchNext key idx) (Inr a) # ws"]) simp
qed auto

lemma lock_pc:
  "lock E m tr = Some (r, tr') \<Longrightarrow>
   \<exists>evs. tr' = tr @ evs \<and> run_pc (Trying n) evs = (if r = None then Holding else failed n)"
  by (auto simp: lock_def etcd_call_eq dest!: watch_loop_pc [where n = n]
      split: sum.splits option.splits if_splits)

lemma Lock_loop_pc:
  "Lock_loop E m n None tr = Some (r, tr') \<Longrightarrow> 0 < n \<Longrightarrow>
   \<exists>evs. tr' = tr @ evs \<and> run_pc (Trying n) evs = Holding"
proof (induction n arbitrary: tr)
  case (Suc n)
  from Suc.prems(1) obtain e t where l: "lock E m tr = Some (e, t)"
    and rest: "if e = None then t = tr' else Lock_loop E m n None t = Some (r, tr')"
    by (auto split: bind_splits if_splits)
  from lock_pc [OF l, of "Suc n"] obtain evs where
    evs: "t = tr @ evs" "run_pc (Trying (Suc n)) evs = (if e = None then Holding else failed (Suc n))"
    by blast
  show ?case
  proof (cases "e = None \<or> n = 0")
    case True
    with evs rest show ?thesis by (auto simp: failed_def split: if_splits)
  next
    case False
    with rest Suc.IH [of t] obtain evs' where "tr' = t @ evs'" "run_pc (Trying n) evs' = Holding" by auto
    with evs False show ?thesis by (auto simp: failed_def intro!: exI [of _ "evs @ evs'"])
  qed
qed simp

lemma Unlock_loop_pc:
  "Unlock_loop E m n err tr = (r, tr') \<Longrightarrow> 0 < n \<Longrightarrow>
   \<exists>evs. tr' = tr @ evs \<and> run_pc (Releasing n) evs = Idle"
proof (induction n arbitrary: err tr)
  case (Suc n)
  let ?q = "KeysDelete (mx_key m) False False"
  show ?case
  proof (cases "n = 0")
    case True
    with Suc.prems show ?thesis by (auto simp: etcd_call_eq split: sum.splits if_splits)
  next
    case False
    note IH = Suc.IH [OF _ False [unfolded neq0_conv]]
    from Suc.prems False show ?thesis
      by (auto simp: etcd_call_eq split: sum.splits if_splits dest!: IH)
  qed
qed simp

lemma Holding_Releasing: "evs \<noteq> [] \<Longrightarrow> list_all (is_unlock k) evs \<Longrightarrow>
   run_pc Holding evs = run_pc (Releasing defaultTry) evs"
  by (cases evs) (auto simp: is_unlock_def defaultTry_def split: event.splits etcd_req.splits bool.splits sum.splits)



subsection \<open>Many processes and one key\<close>

text \<open>
  \<open>ms_owner\<close>: the process whose request created the key, when the key exists.
  \<open>ms_told\<close>: the processes whose watcher has a deletion to report, one that came after
  their last \<open>Get\<close>.
\<close>

record 'p msys =
  ms_owner :: "'p option"
  ms_told :: "'p set"
  ms_pc :: "'p \<Rightarrow> pc"

definition msys_init :: "'p msys \<Rightarrow> bool" where
  "msys_init s \<longleftrightarrow> ms_owner s = None \<and> ms_told s = {} \<and> (\<forall>p. ms_pc s p = Idle)"

text \<open>The request a process makes next.\<close>

definition mx_request :: "pc \<Rightarrow> etcd_req option" where
  "mx_request p =
     (case p of
        Idle \<Rightarrow> None
      | Trying _ \<Rightarrow> Some (KeysSet ''/k'' ''id'' True 20)
      | Getting _ \<Rightarrow> Some (KeysGet ''/k'' False)
      | Watching _ \<Rightarrow> Some (WatchNext ''/k'' 0)
      | Holding \<Rightarrow> Some (KeysDelete ''/k'' False False)
      | Releasing _ \<Rightarrow> Some (KeysDelete ''/k'' False False))"

text \<open>
  What etcd answers to a request of process \<open>p\<close>, and the key afterwards: \<open>None\<close> for a watcher
  that has nothing to report yet. Requests are answered one at a time; none of them fails.
\<close>

definition serve :: "'p \<Rightarrow> 'p msys \<Rightarrow> etcd_req \<Rightarrow> (etcd_answer \<times> 'p option \<times> 'p set) option" where
  "serve p s q =
     (let done = (\<lambda>act. Inr \<lparr>re_Action = act, re_Node = None, re_Index = 0\<rparr>);
          missing = Inl (EtcdError ErrorCodeKeyNotFound ''Key not found'')
      in case q of
        KeysSet _ _ True _ \<Rightarrow>
          (case ms_owner s of
             None \<Rightarrow> Some (done ''create'', Some p, ms_told s)
           | Some _ \<Rightarrow> Some (Inl (EtcdError ErrorCodeNodeExist ''Key already exists''), ms_owner s, ms_told s))
      | KeysGet _ _ \<Rightarrow>
          (case ms_owner s of
             None \<Rightarrow> Some (missing, None, ms_told s)
           | Some _ \<Rightarrow> Some (done ''get'', ms_owner s, ms_told s - {p}))
      | WatchNext _ _ \<Rightarrow> if p \<in> ms_told s then Some (done deleteAction, ms_owner s, ms_told s) else None
      | KeysDelete _ _ _ \<Rightarrow>
          (case ms_owner s of
             None \<Rightarrow> Some (missing, None, ms_told s)
           | Some _ \<Rightarrow> Some (done deleteAction, None, UNIV))
      | _ \<Rightarrow> None)"

inductive mstep :: "'p msys \<Rightarrow> 'p msys \<Rightarrow> bool" where
  mstep_begin: "ms_pc s p = Idle \<Longrightarrow> mstep s (s\<lparr>ms_pc := (ms_pc s)(p := Trying defaultTry)\<rparr>)"
| mstep_request: "mx_request (ms_pc s p) = Some q \<Longrightarrow> serve p s q = Some (a, own, told) \<Longrightarrow>
    mstep s \<lparr>ms_owner = own, ms_told = told, ms_pc = (ms_pc s)(p := advance (ms_pc s p) q a)\<rparr>"
| mstep_expire: "ms_owner s = Some p \<Longrightarrow> mstep s (s\<lparr>ms_owner := None, ms_told := UNIV\<rparr>)"

inductive_cases mstep_cases: "mstep s s'"

text \<open>The steps a process can make, one by one.\<close>

lemmas serve_simps = mx_request_def serve_def Let_def deleteAction_def is_gone_def IsKeyNotFound_def
  ErrorCodeKeyNotFound_def ErrorCodeNodeExist_def

lemma request_step:
  "case mx_request (ms_pc s p) of None \<Rightarrow> True | Some q \<Rightarrow>
     (case serve p s q of None \<Rightarrow> True | Some (a, own, told) \<Rightarrow>
        mstep s \<lparr>ms_owner = own, ms_told = told, ms_pc = (ms_pc s)(p := advance (ms_pc s p) q a)\<rparr>)"
  by (auto split: option.split intro: mstep_request)

lemma create_step: "ms_pc s p = Trying n \<Longrightarrow> ms_owner s = None \<Longrightarrow>
    mstep s \<lparr>ms_owner = Some p, ms_told = ms_told s, ms_pc = (ms_pc s)(p := Holding)\<rparr>"
  using request_step [of s p] by (simp add: serve_simps)

lemma exists_step: "ms_pc s p = Trying n \<Longrightarrow> ms_owner s = Some q \<Longrightarrow>
    mstep s \<lparr>ms_owner = Some q, ms_told = ms_told s, ms_pc = (ms_pc s)(p := Getting n)\<rparr>"
  using request_step [of s p] by (simp add: serve_simps)

lemma get_step: "ms_pc s p = Getting n \<Longrightarrow> ms_owner s = Some q \<Longrightarrow>
    mstep s \<lparr>ms_owner = Some q, ms_told = ms_told s - {p}, ms_pc = (ms_pc s)(p := Watching n)\<rparr>"
  using request_step [of s p] by (simp add: serve_simps)

lemma get_none_step: "ms_pc s p = Getting n \<Longrightarrow> ms_owner s = None \<Longrightarrow>
    mstep s \<lparr>ms_owner = None, ms_told = ms_told s, ms_pc = (ms_pc s)(p := failed n)\<rparr>"
  using request_step [of s p] by (simp add: serve_simps)

lemma watch_step: "ms_pc s p = Watching n \<Longrightarrow> p \<in> ms_told s \<Longrightarrow>
    mstep s \<lparr>ms_owner = ms_owner s, ms_told = ms_told s, ms_pc = (ms_pc s)(p := Holding)\<rparr>"
  using request_step [of s p] by (simp add: serve_simps)

lemma release_step: "ms_pc s p = Holding \<Longrightarrow> ms_owner s = Some q \<Longrightarrow>
    mstep s \<lparr>ms_owner = None, ms_told = UNIV, ms_pc = (ms_pc s)(p := Idle)\<rparr>"
  using request_step [of s p] by (simp add: serve_simps)

subsection \<open>The invariant\<close>

text \<open>
  While the key exists, the process that created it is in its critical section; a process
  that waits for the key to go away does so while it exists, or has a deletion to be told of;
  and no deletion had to be tried again.
\<close>

definition msys_inv :: "'p msys \<Rightarrow> bool" where
  "msys_inv s \<longleftrightarrow>
     (\<forall>p. ms_owner s = Some p \<longrightarrow> ms_pc s p = Holding)
     \<and> (\<forall>p n. ms_owner s = None \<longrightarrow> ms_pc s p = Watching n \<longrightarrow> p \<in> ms_told s)
     \<and> (\<forall>p n. ms_pc s p \<noteq> Releasing n)"

lemma msys_inv_step: "msys_inv s \<Longrightarrow> mstep s s' \<Longrightarrow> msys_inv s'"
proof (erule mstep_cases)
  fix p q a own told
  assume i: "msys_inv s" and q: "mx_request (ms_pc s p) = Some q" "serve p s q = Some (a, own, told)"
    and s': "s' = \<lparr>ms_owner = own, ms_told = told, ms_pc = (ms_pc s)(p := advance (ms_pc s p) q a)\<rparr>"
  show "msys_inv s'"
    using i q unfolding s' msys_inv_def
    by (cases "ms_pc s p"; cases "ms_owner s") (auto simp: serve_simps failed_def split: if_splits)
qed (auto simp: msys_inv_def)

interpretation msys: invariant msys_init mstep msys_inv
proof unfold_locales
  show "msys_inv s" if "msys_init s" for s :: "'p msys"
    using that by (simp add: msys_init_def msys_inv_def)
qed (rule msys_inv_step)

lemma stepI: "mstep s s' \<Longrightarrow> ms_pc s' p = Holding \<Longrightarrow> \<exists>s'. steps mstep s s' \<and> ms_pc s' p = Holding"
  by (blast intro: steps.intros)

lemma stepsI: "mstep s s' \<Longrightarrow> \<exists>s''. steps mstep s' s'' \<and> ms_pc s'' p = Holding \<Longrightarrow>
    \<exists>s''. steps mstep s s'' \<and> ms_pc s'' p = Holding"
  by (blast intro: steps.intros)

text \<open>A process that is about to create the key can be let in: its owner releases it first.\<close>

lemma trying_gets_in:
  assumes "msys_inv s" and t: "ms_pc s p = Trying n"
  shows "\<exists>s'. steps mstep s s' \<and> ms_pc s' p = Holding"
proof (cases "ms_owner s")
  case None
  show ?thesis by (rule stepI [OF create_step [OF t None]]) simp
next
  case (Some q)
  with assms have "ms_pc s q = Holding" "q \<noteq> p" by (auto simp: msys_inv_def)
  from release_step [OF this(1) Some] show ?thesis
    by (rule stepsI) (rule stepI [OF create_step [where p = p and n = n]]; use t \<open>q \<noteq> p\<close> in simp)
qed

lemma watching_gets_in:
  assumes "msys_inv s" and w: "ms_pc s p = Watching n"
  shows "\<exists>s'. steps mstep s s' \<and> ms_pc s' p = Holding"
proof (cases "p \<in> ms_told s")
  case True
  show ?thesis by (rule stepI [OF watch_step [OF w True]]) simp
next
  case False
  with assms obtain q where q: "ms_owner s = Some q" "ms_pc s q = Holding" "q \<noteq> p"
    by (cases "ms_owner s") (fastforce simp: msys_inv_def)+
  from release_step [OF q(2,1)] show ?thesis
    by (rule stepsI) (rule stepI [OF watch_step [where p = p and n = n]]; use w q in simp)
qed

lemma getting_gets_in:
  assumes i: "msys_inv s" and g: "ms_pc s p = Getting n"
  shows "\<exists>s'. steps mstep s s' \<and> ms_pc s' p = Holding"
proof (cases "ms_owner s")
  case None
  note st = get_none_step [OF g None]
  show ?thesis
  proof (cases "n \<le> 1")
    case True
    then show ?thesis by (intro stepI [OF st]) (simp add: failed_def)
  next
    case False
    from msys_inv_step [OF i st] show ?thesis
      by (intro stepsI [OF st] trying_gets_in [where n = "n - 1"]) (use False in \<open>auto simp: failed_def\<close>)
  qed
next
  case (Some q)
  note st = get_step [OF g Some]
  from msys_inv_step [OF i st] show ?thesis
    by (intro stepsI [OF st] watching_gets_in [where n = n]) simp_all
qed

subsection \<open>Properties\<close>


lemma reachable_idle: "reachable msys_init mstep \<lparr>ms_owner = None, ms_told = {}, ms_pc = \<lambda>_ :: nat. Idle\<rparr>"
  by (rule reachable_init) (simp add: msys_init_def)

lemma reachable_held:
  "reachable msys_init mstep \<lparr>ms_owner = Some 1, ms_told = {}, ms_pc = (\<lambda>_ :: nat. Idle)(1 := Holding)\<rparr>"
proof -
  note go = reachable_step [where init = msys_init and step = mstep]
  from go [OF reachable_idle mstep_begin [of _ 1]]
  have "reachable msys_init mstep \<lparr>ms_owner = None, ms_told = {}, ms_pc = (\<lambda>_ :: nat. Idle)(1 := Trying 3)\<rparr>"
    by (simp add: defaultTry_def)
  from go [OF this create_step [of _ 1 3]] show ?thesis by simp
qed






end
