(* ===== verification/PoolSteps.thy ===== *)
theory PoolSteps
  imports Ipam Transition
begin

text \<open>
  Containers of one tenant that are given addresses at the same time. \<open>GetNewIP\<close> takes no
  mutex: it lists the pool and deletes keys until a deletion succeeds. Here any number of
  these loops run against one pool, whose keys etcd deletes atomically, and addresses are
  released back to it. No two containers ever hold the same address.
\<close>

subsection \<open>The loop of \<open>GetNewIP\<close>, one request at a time\<close>

definition skip_iprange :: "Node list \<Rightarrow> Node list" where
  "skip_iprange nodes = dropWhile (\<lambda>n. has_suffix (node_Key n) ''/iprange'') nodes"

text \<open>The next key to delete, and what the answer leads to: the nodes left, or the address.\<close>

definition pick_request :: "Node list \<Rightarrow> string option" where
  "pick_request nodes = (case skip_iprange nodes of [] \<Rightarrow> None | n # _ \<Rightarrow> Some (node_Key n))"

definition pick_advance :: "Node list \<Rightarrow> etcd_answer \<Rightarrow> Node list + string" where
  "pick_advance nodes a =
     (case skip_iprange nodes of
        [] \<Rightarrow> Inl []
      | n # rest \<Rightarrow>
          (case a of
             Inl _ \<Rightarrow> Inl rest
           | Inr _ \<Rightarrow> if has_suffix (node_Key n) ''.254'' then Inl rest else Inr (node_Value n)))"

lemma pick_iprange:
  "has_suffix (node_Key n) ''/iprange'' \<Longrightarrow> pick_request (n # nodes) = pick_request nodes"
  "has_suffix (node_Key n) ''/iprange'' \<Longrightarrow> pick_advance (n # nodes) a = pick_advance nodes a"
  by (simp_all add: pick_request_def pick_advance_def skip_iprange_def)

text \<open>
  The loop of \<open>GetNewIP\<close> is the one the system below runs: each turn deletes the key
  \<open>pick_request\<close> names and goes on as \<open>pick_advance\<close> says.
\<close>

theorem grab_ip_turns:
  "grab_ip E nodes tr =
     (case pick_request nodes of
        None \<Rightarrow> ([], tr)
      | Some k \<Rightarrow>
          (case Keys_Delete E k tr of (a, tr') \<Rightarrow>
             case pick_advance nodes a of Inl rest \<Rightarrow> grab_ip E rest tr' | Inr v \<Rightarrow> (v, tr')))"
proof (induction nodes)
  case (Cons n nodes)
  show ?case
  proof (cases "has_suffix (node_Key n) ''/iprange''")
    case True
    with Cons show ?thesis by (simp add: pick_iprange split: option.split prod.split)
  next
    case False
    then show ?thesis
      by (auto simp: pick_request_def pick_advance_def skip_iprange_def etcd_call_eq split: sum.split)
  qed
qed (simp add: pick_request_def skip_iprange_def)

subsection \<open>The system\<close>

text \<open>
  \<open>ps_pool\<close>: the keys of the pool and their values; \<open>ps_todo p\<close>: the listed nodes container
  \<open>p\<close> has not tried yet; \<open>ps_got p\<close>: the value it was given.
\<close>

record 'p psys =
  ps_pool :: "string \<Rightarrow> string option"
  ps_todo :: "'p \<Rightarrow> Node list"
  ps_got :: "'p \<Rightarrow> string option"

text \<open>The key under which an address is kept and released.\<close>

definition pool_key :: "string \<Rightarrow> string \<Rightarrow> string" where
  "pool_key t v = (case ParseCIDR v of Inl _ \<Rightarrow> [] | Inr (ip, _) \<Rightarrow> pod_available t @ ''/'' @ IP_String ip)"

definition pool_init :: "string \<Rightarrow> 'p psys \<Rightarrow> bool" where
  "pool_init t s \<longleftrightarrow> (\<forall>k v. ps_pool s k = Some v \<longrightarrow> pool_key t v = k)
     \<and> (\<forall>p. ps_todo s p = [] \<and> ps_got s p = None)"

text \<open>
  The steps: listing the pool; a turn of the loop (a key that is gone gives an error); a
  turn whose deletion is done although the answer is lost; the release of an address; and a
  new address, one that is neither in the pool nor held.
\<close>

inductive pool_step :: "string \<Rightarrow> 'p psys \<Rightarrow> 'p psys \<Rightarrow> bool" for t where
  pool_list: "ps_got s p = None \<Longrightarrow>
    (\<forall>n \<in> set nodes. has_suffix (node_Key n) ''/iprange'' \<or> ps_pool s (node_Key n) = Some (node_Value n)) \<Longrightarrow>
    pool_step t s (s\<lparr>ps_todo := (ps_todo s)(p := nodes)\<rparr>)"
| pool_next: "pick_request (ps_todo s p) = Some k \<Longrightarrow>
    a = (if ps_pool s k = None then Inl (EtcdError ErrorCodeKeyNotFound ''Key not found'')
         else Inr \<lparr>re_Action = deleteAction, re_Node = None, re_Index = 0\<rparr>) \<Longrightarrow>
    pick_advance (ps_todo s p) a = Inl rest \<Longrightarrow>
    pool_step t s (s\<lparr>ps_pool := (ps_pool s)(k := None), ps_todo := (ps_todo s)(p := rest)\<rparr>)"
| pool_take: "pick_request (ps_todo s p) = Some k \<Longrightarrow>
    a = (if ps_pool s k = None then Inl (EtcdError ErrorCodeKeyNotFound ''Key not found'')
         else Inr \<lparr>re_Action = deleteAction, re_Node = None, re_Index = 0\<rparr>) \<Longrightarrow>
    pick_advance (ps_todo s p) a = Inr v \<Longrightarrow>
    pool_step t s (s\<lparr>ps_pool := (ps_pool s)(k := None), ps_todo := (ps_todo s)(p := []),
                     ps_got := (ps_got s)(p := Some v)\<rparr>)"
| pool_lost: "pick_request (ps_todo s p) = Some k \<Longrightarrow> pick_advance (ps_todo s p) (Inl e) = Inl rest \<Longrightarrow>
    pool_step t s (s\<lparr>ps_pool := (ps_pool s)(k := None), ps_todo := (ps_todo s)(p := rest)\<rparr>)"
| pool_release: "ps_got s p = Some v \<Longrightarrow>
    pool_step t s (s\<lparr>ps_pool := (ps_pool s)(pool_key t v := Some v), ps_got := (ps_got s)(p := None)\<rparr>)"
| pool_fill: "pool_key t v = k \<Longrightarrow> ps_pool s k = None \<Longrightarrow>
    (\<forall>p w. ps_got s p = Some w \<longrightarrow> pool_key t w \<noteq> k) \<Longrightarrow>
    pool_step t s (s\<lparr>ps_pool := (ps_pool s)(k := Some v)\<rparr>)"

inductive_cases pool_step_cases: "pool_step t s s'"

definition pool_inv :: "string \<Rightarrow> 'p psys \<Rightarrow> bool" where
  "pool_inv t s \<longleftrightarrow>
     (\<forall>k v. ps_pool s k = Some v \<longrightarrow> pool_key t v = k)
     \<and> (\<forall>p. \<forall>n \<in> set (ps_todo s p). has_suffix (node_Key n) ''/iprange'' \<or> pool_key t (node_Value n) = node_Key n)
     \<and> (\<forall>p v. ps_got s p = Some v \<longrightarrow> ps_pool s (pool_key t v) = None)
     \<and> (\<forall>p q v w. p \<noteq> q \<longrightarrow> ps_got s p = Some v \<longrightarrow> ps_got s q = Some w \<longrightarrow> pool_key t v \<noteq> pool_key t w)"

lemma skip_iprange_Cons:
  "skip_iprange nodes = n # rest \<Longrightarrow> n \<in> set nodes \<and> set rest \<subseteq> set nodes \<and> \<not> has_suffix (node_Key n) ''/iprange''"
  unfolding skip_iprange_def
  by (induction nodes) (auto split: if_splits)

lemma pick_Inl: "pick_request nodes = Some k \<Longrightarrow> pick_advance nodes a = Inl rest \<Longrightarrow> set rest \<subseteq> set nodes"
  by (auto simp: pick_request_def pick_advance_def split: list.splits sum.splits if_splits dest!: skip_iprange_Cons)

lemma pick_Inr: "pick_request nodes = Some k \<Longrightarrow> pick_advance nodes a = Inr v \<Longrightarrow>
    (\<exists>r. a = Inr r) \<and> (\<exists>n \<in> set nodes. node_Key n = k \<and> node_Value n = v \<and> \<not> has_suffix (node_Key n) ''/iprange'')"
  by (auto simp: pick_request_def pick_advance_def split: list.splits sum.splits if_splits dest!: skip_iprange_Cons)

lemma pool_inv_step: "pool_inv t s \<Longrightarrow> pool_step t s s' \<Longrightarrow> pool_inv t s'"
proof (erule pool_step_cases)
  fix p k v
  assume i: "pool_inv t s" and q: "pick_request (ps_todo s p) = Some k"
    and v: "pick_advance (ps_todo s p)
      (if ps_pool s k = None then Inl (EtcdError ErrorCodeKeyNotFound ''Key not found'')
       else Inr \<lparr>re_Action = deleteAction, re_Node = None, re_Index = 0\<rparr>) = Inr v"
    and s': "s' = s\<lparr>ps_pool := (ps_pool s)(k := None), ps_todo := (ps_todo s)(p := []), ps_got := (ps_got s)(p := Some v)\<rparr>"
  from pick_Inr [OF q v] have k: "ps_pool s k \<noteq> None" by (auto split: if_splits)
  moreover from pick_Inr [OF q v] i have pk: "pool_key t v = k" by (fastforce simp: pool_inv_def)
  moreover have "pool_key t w \<noteq> pool_key t v" if "ps_got s q = Some w" for q w
  proof -
    from i that have "ps_pool s (pool_key t w) = None" unfolding pool_inv_def by blast
    with k pk show ?thesis by auto
  qed
  ultimately show "pool_inv t s'" using i unfolding s' by (auto simp: pool_inv_def)
next
  fix p v
  assume "pool_inv t s" "ps_got s p = Some v"
    "s' = s\<lparr>ps_pool := (ps_pool s)(pool_key t v := Some v), ps_got := (ps_got s)(p := None)\<rparr>"
  then show "pool_inv t s'" by (auto simp: pool_inv_def)
qed (fastforce simp: pool_inv_def dest: pick_Inl)+

interpretation pool: invariant "pool_init t" "pool_step t" "pool_inv t" for t
proof unfold_locales
  show "pool_inv t s" if "pool_init t s" for s :: "'p psys"
    using that by (simp add: pool_init_def pool_inv_def)
qed (rule pool_inv_step)


text \<open>Two containers that take the two addresses of a pool: the second finds the first key gone.\<close>

abbreviation two_keys :: "nat \<Rightarrow> string" where
  "two_keys i \<equiv> pod_available ''t1'' @ ''/'' @ dotted [10, 0, 0, of_nat i]"

definition two_nodes :: "Node list" where
  "two_nodes = [Node (two_keys 2) (cidr_text [10, 0, 0, 2] 24) False [],
     Node (two_keys 3) (cidr_text [10, 0, 0, 3] 24) False []]"

definition two_pool :: "string \<Rightarrow> string option" where
  "two_pool = [two_keys 2 \<mapsto> cidr_text [10, 0, 0, 2] 24, two_keys 3 \<mapsto> cidr_text [10, 0, 0, 3] 24]"

lemma two_keys_facts:
  "two_keys 2 \<noteq> two_keys 3"
  "\<not> has_suffix (two_keys 2) ''/iprange''" "\<not> has_suffix (two_keys 3) ''/iprange''"
  "\<not> has_suffix (two_keys 2) ''.254''" "\<not> has_suffix (two_keys 3) ''.254''"
  "pool_key ''t1'' (cidr_text [10, 0, 0, 2] 24) = two_keys 2"
  "pool_key ''t1'' (cidr_text [10, 0, 0, 3] 24) = two_keys 3"
proof -
  have d: "dotted [10, 0, 0, 2] = ''10.0.0.2''" "dotted [10, 0, 0, 3] = ''10.0.0.3''" by code_simp+
  show "two_keys 2 \<noteq> two_keys 3" by (simp add: d)
  show "\<not> has_suffix (two_keys 2) ''/iprange''" "\<not> has_suffix (two_keys 3) ''/iprange''"
    "\<not> has_suffix (two_keys 2) ''.254''" "\<not> has_suffix (two_keys 3) ''.254''"
    by (simp_all add: d pod_available_def has_suffix_def)
qed (simp_all add: pool_key_def ParseCIDR_text IP_String_prefixed)

definition two_done :: "nat psys" where
  "two_done = \<lparr>ps_pool = Map.empty, ps_todo = \<lambda>_. [],
     ps_got = [0 \<mapsto> cidr_text [10, 0, 0, 2] 24, 1 \<mapsto> cidr_text [10, 0, 0, 3] 24]\<rparr>"

lemma reachable_two_done: "reachable (pool_init ''t1'') (pool_step ''t1'') two_done"
proof -
  let ?r = "reachable (pool_init ''t1'') (pool_step ''t1'') :: nat psys \<Rightarrow> bool"
  note go = reachable_step [where init = "pool_init ''t1''" and step = "pool_step ''t1''"]
  note f = two_keys_facts and d = pick_request_def pick_advance_def skip_iprange_def two_nodes_def two_pool_def
  let ?v2 = "cidr_text [10, 0, 0, 2] 24" and ?v3 = "cidr_text [10, 0, 0, 3] 24"
  have "?r \<lparr>ps_pool = two_pool, ps_todo = \<lambda>_. [], ps_got = \<lambda>_. None\<rparr>"
    using f by (intro reachable_init) (auto simp: pool_init_def two_pool_def)
  from go [OF this pool_list [of _ 0 two_nodes]]
  have "?r \<lparr>ps_pool = two_pool, ps_todo = (\<lambda>_. [])(0 := two_nodes), ps_got = \<lambda>_. None\<rparr>"
    using f by (simp add: two_nodes_def two_pool_def)
  from go [OF this pool_list [of _ 1 two_nodes]]
  have "?r \<lparr>ps_pool = two_pool, ps_todo = (\<lambda>_. [])(0 := two_nodes, 1 := two_nodes), ps_got = \<lambda>_. None\<rparr>"
    using f by (simp add: two_nodes_def two_pool_def)
  from go [OF this pool_take [of _ 0 "two_keys 2" _ ?v2]]
  have "?r \<lparr>ps_pool = two_pool(two_keys 2 := None), ps_todo = (\<lambda>_. [])(0 := two_nodes, 1 := two_nodes, 0 := []),
      ps_got = (\<lambda>_. None)(0 := Some ?v2)\<rparr>"
    using f by (simp add: d)
  from go [OF this pool_next [of _ 1 "two_keys 2" _ "tl two_nodes"]]
  have "?r \<lparr>ps_pool = two_pool(two_keys 2 := None, two_keys 2 := None),
      ps_todo = (\<lambda>_. [])(0 := two_nodes, 1 := two_nodes, 0 := [], 1 := tl two_nodes),
      ps_got = (\<lambda>_. None)(0 := Some ?v2)\<rparr>"
    using f by (simp add: d)
  from go [OF this pool_take [of _ 1 "two_keys 3" _ ?v3]]
  have "?r \<lparr>ps_pool = two_pool(two_keys 2 := None, two_keys 2 := None, two_keys 3 := None),
      ps_todo = (\<lambda>_. [])(0 := two_nodes, 1 := two_nodes, 0 := [], 1 := tl two_nodes, 1 := []),
      ps_got = (\<lambda>_. None)(0 := Some ?v2, 1 := Some ?v3)\<rparr>"
    using f by (simp add: d)
  moreover have "two_pool(two_keys 2 := None, two_keys 2 := None, two_keys 3 := None) = Map.empty"
    using f(1) by (auto simp: two_pool_def)
  moreover have "(\<lambda>_ :: nat. [])(0 := two_nodes, 1 := two_nodes, 0 := [], 1 := tl two_nodes, 1 := []) = (\<lambda>_. [])"
    by auto
  ultimately show ?thesis by (simp only: two_done_def)
qed


end
